(* ===== verification/Prelude.thy ===== *)
theory Prelude
  imports Main "HOL-Library.Word"
begin

text \<open>
  What every component shares: the error values of the Go program, the state-and-error
  monad that stands for Go's sequence of calls with \<^verbatim>\<open>if err != nil { return err }\<close> after each
  of them, the rules that take such a sequence apart, and the two generic interfaces the
  components are plugged into, a transition system with an invariant (\<open>invariant\<close>,
  \<open>layered_invariant\<close>) and a functional refinement between two step relations
  (\<open>refinement\<close>).

  A computation takes the state of the world and gives back either an error or a value,
  always with the new state: a Go function that returns an error may already have had an
  effect, and whether it has is what the theorems on transactions are about.
\<close>

named_theorems run_iff \<open>take a successful or failed run of a sequence apart\<close>
named_theorems throws_rules \<open>which errors a computation returns, by its structure\<close>
named_theorems keeps_rules \<open>what a computation keeps, by its structure\<close>

section \<open>Errors\<close>

type_synonym time = int \<comment> \<open>nanoseconds since the epoch, \<^verbatim>\<open>time.Time\<close> and \<^verbatim>\<open>time.Duration\<close>\<close>
type_synonym uuid = "128 word" \<comment> \<open>the 16 bytes of a \<^verbatim>\<open>pgtype.UUID\<close> that is valid\<close>

text \<open>
  One constructor per error variable of the source, the error of the PostgreSQL driver
  with its SQLSTATE code and message, and any other error of a library with its text.
  \<open>Wrapf\<close> is \<^verbatim>\<open>fmt.Errorf\<close> with a \<^verbatim>\<open>%w\<close> verb at the end of the format, \<open>Wrapped\<close> with one at its start.
\<close>

datatype error =
    ErrIdempotencyKeyRequired
  | ErrIdempotencyConflict
  | ErrOrderForbidden
  | ErrOrderInvalidStatus
  | ErrOrderNotFound
  | ErrEmailAlreadyExists
  | ErrInvalidCredentials
  | ErrInvalidInput
  | ErrInvalidRefreshToken
  | ErrInvalidToken
  | ErrInvalidMessage
  | ErrLockNotAcquired
  | ErrNoRows
  | ErrContext
  | PgError string string
  | ErrLib string
  | Wrapf string error
  | Wrapped error string

fun errors_Is :: "error \<Rightarrow> error \<Rightarrow> bool" where
  "errors_Is (Wrapf s e) t = (Wrapf s e = t \<or> errors_Is e t)"
| "errors_Is (Wrapped e s) t = (Wrapped e s = t \<or> errors_Is e t)"
| "errors_Is e t = (e = t)"

text \<open>\<^verbatim>\<open>err.Error()\<close>: the message of an error.\<close>

fun error_text :: "error \<Rightarrow> string" where
  "error_text ErrIdempotencyKeyRequired = ''idempotency key required''"
| "error_text ErrIdempotencyConflict = ''idempotency conflict''"
| "error_text ErrOrderForbidden = ''order forbidden''"
| "error_text ErrOrderInvalidStatus = ''order invalid status''"
| "error_text ErrOrderNotFound = ''order not found''"
| "error_text ErrEmailAlreadyExists = ''email already exists''"
| "error_text ErrInvalidCredentials = ''invalid credentials''"
| "error_text ErrInvalidInput = ''invalid input''"
| "error_text ErrInvalidRefreshToken = ''invalid refresh token''"
| "error_text ErrInvalidToken = ''invalid token''"
| "error_text ErrInvalidMessage = ''invalid event message''"
| "error_text ErrLockNotAcquired = ''lock not acquired''"
| "error_text ErrNoRows = ''no rows in result set''"
| "error_text ErrContext = ''context canceled''"
| "error_text (PgError code msg) = ''ERROR: '' @ msg @ '' (SQLSTATE '' @ code @ '')''"
| "error_text (ErrLib s) = s"
| "error_text (Wrapf s e) = s @ error_text e"
| "error_text (Wrapped e s) = error_text e @ s"

section \<open>Computations\<close>

type_synonym ('s, 'a) comp = "'s \<Rightarrow> (error + 'a) \<times> 's"

definition returnM :: "'a \<Rightarrow> ('s, 'a) comp" where
  "returnM x = (\<lambda>s. (Inr x, s))"

definition throwM :: "error \<Rightarrow> ('s, 'a) comp" where
  "throwM e = (\<lambda>s. (Inl e, s))"

text \<open>\<^verbatim>\<open>x, err := m(); if err != nil { return err }; f(x)\<close>\<close>

definition bindM :: "('s, 'a) comp \<Rightarrow> ('a \<Rightarrow> ('s, 'b) comp) \<Rightarrow> ('s, 'b) comp" where
  "bindM m f = (\<lambda>s. case m s of (Inl e, s') \<Rightarrow> (Inl e, s') | (Inr x, s') \<Rightarrow> f x s')"

text \<open>\<^verbatim>\<open>x, err := m()\<close> where the code looks at \<^verbatim>\<open>err\<close> itself.\<close>

definition tryM :: "('s, 'a) comp \<Rightarrow> ('s, error + 'a) comp" where
  "tryM m = (\<lambda>s. case m s of (r, s') \<Rightarrow> (Inr r, s'))"

text \<open>\<^verbatim>\<open>if err != nil { return g(err) }\<close>\<close>

definition mapErrM :: "(error \<Rightarrow> error) \<Rightarrow> ('s, 'a) comp \<Rightarrow> ('s, 'a) comp" where
  "mapErrM g m = (\<lambda>s. case m s of (Inl e, s') \<Rightarrow> (Inl (g e), s') | (Inr x, s') \<Rightarrow> (Inr x, s'))"

definition getsM :: "('s \<Rightarrow> 'a) \<Rightarrow> ('s, 'a) comp" where
  "getsM f = (\<lambda>s. (Inr (f s), s))"

definition modifyM :: "('s \<Rightarrow> 's) \<Rightarrow> ('s, unit) comp" where
  "modifyM f = (\<lambda>s. (Inr (), f s))"

definition liftM :: "error + 'a \<Rightarrow> ('s, 'a) comp" where
  "liftM r = (\<lambda>s. (r, s))"

lemmas comp_defs = returnM_def throwM_def bindM_def tryM_def mapErrM_def getsM_def
  modifyM_def liftM_def

subsection \<open>Taking a run apart\<close>

lemma returnM_iff [run_iff]: "returnM x s = (r, s') \<longleftrightarrow> r = Inr x \<and> s' = s"
  by (auto simp: returnM_def)

lemma throwM_iff [run_iff]: "throwM e s = (r, s') \<longleftrightarrow> r = Inl e \<and> s' = s"
  by (auto simp: throwM_def)

lemma liftM_iff [run_iff]: "liftM v s = (r, s') \<longleftrightarrow> r = v \<and> s' = s"
  by (auto simp: liftM_def)

lemma getsM_iff [run_iff]: "getsM f s = (r, s') \<longleftrightarrow> r = Inr (f s) \<and> s' = s"
  by (auto simp: getsM_def)

lemma modifyM_iff [run_iff]: "modifyM f s = (r, s') \<longleftrightarrow> r = Inr () \<and> s' = f s"
  by (auto simp: modifyM_def)

lemma bindM_Inr_iff [run_iff]:
  "bindM m f s = (Inr y, s') \<longleftrightarrow> (\<exists>x s1. m s = (Inr x, s1) \<and> f x s1 = (Inr y, s'))"
  by (auto simp: bindM_def split: prod.splits sum.splits)

lemma bindM_Inl_iff [run_iff]:
  "bindM m f s = (Inl e, s') \<longleftrightarrow>
     m s = (Inl e, s') \<or> (\<exists>x s1. m s = (Inr x, s1) \<and> f x s1 = (Inl e, s'))"
  by (auto simp: bindM_def split: prod.splits sum.splits)

lemma mapErrM_Inr_iff [run_iff]: "mapErrM g m s = (Inr x, s') \<longleftrightarrow> m s = (Inr x, s')"
  by (auto simp: mapErrM_def split: prod.splits sum.splits)

lemma mapErrM_Inl_iff [run_iff]:
  "mapErrM g m s = (Inl e, s') \<longleftrightarrow> (\<exists>e0. m s = (Inl e0, s') \<and> e = g e0)"
  by (auto simp: mapErrM_def split: prod.splits sum.splits)

lemma tryM_iff [run_iff]: "tryM m s = (r, s') \<longleftrightarrow> (\<exists>v. m s = (v, s') \<and> r = Inr v)"
  by (auto simp: tryM_def split: prod.splits)

lemma if_run_iff [run_iff]:
  "(if b then m else n) s = (r, s') \<longleftrightarrow> (b \<and> m s = (r, s') \<or> \<not> b \<and> n s = (r, s'))"
  by simp

text \<open>Running forward: the next state once the outcome of the first part is known.\<close>

lemma bindM_run_Inr: "m s = (Inr x, s1) \<Longrightarrow> bindM m f s = f x s1"
  by (simp add: bindM_def)

lemma bindM_run_Inl: "m s = (Inl e, s1) \<Longrightarrow> bindM m f s = (Inl e, s1)"
  by (simp add: bindM_def)

lemma mapErrM_run_Inr: "m s = (Inr x, s1) \<Longrightarrow> mapErrM g m s = (Inr x, s1)"
  by (simp add: mapErrM_def)

lemma mapErrM_run_Inl: "m s = (Inl e, s1) \<Longrightarrow> mapErrM g m s = (Inl (g e), s1)"
  by (simp add: mapErrM_def)

lemma tryM_run: "m s = (r, s1) \<Longrightarrow> tryM m s = (Inr r, s1)"
  by (simp add: tryM_def)

lemmas run_forward = bindM_run_Inr bindM_run_Inl mapErrM_run_Inr mapErrM_run_Inl tryM_run

lemma bindM_assoc: "bindM (bindM m f) g = bindM m (\<lambda>x. bindM (f x) g)"
  by (auto simp: bindM_def fun_eq_iff split: prod.splits sum.splits)

lemma bindM_returnM [simp]: "bindM (returnM x) f = f x"
  by (auto simp: bindM_def returnM_def fun_eq_iff)

lemma bindM_throwM [simp]: "bindM (throwM e) f = throwM e"
  by (auto simp: bindM_def throwM_def fun_eq_iff)

subsection \<open>What a computation keeps\<close>

text \<open>
  \<open>keeps R m\<close>: whatever \<open>m\<close> returns, its state is related by \<open>R\<close> to the state it started
  in. For a preorder \<open>R\<close> (for example ``the invariant is not lost'') it goes through
  sequences, so an invariant of a long handler is proved from its statements.
\<close>

definition keeps :: "('s \<Rightarrow> 's \<Rightarrow> bool) \<Rightarrow> ('s, 'a) comp \<Rightarrow> bool" where
  "keeps R m \<longleftrightarrow> (\<forall>s. R s (snd (m s)))"

lemma keepsI: "(\<And>s r s'. m s = (r, s') \<Longrightarrow> R s s') \<Longrightarrow> keeps R m"
  by (auto simp: keeps_def prod_eq_iff)

lemma keepsD: "keeps R m \<Longrightarrow> m s = (r, s') \<Longrightarrow> R s s'"
  by (metis keeps_def snd_conv)

lemma keeps_bindM [keeps_rules]:
  assumes "transp R" and "keeps R m" and "\<And>x. keeps R (f x)"
  shows "keeps R (bindM m f)"
proof (rule keepsI)
  fix s r s' assume run: "bindM m f s = (r, s')"
  obtain v s1 where m: "m s = (v, s1)" by (cases "m s")
  with assms(2) have step: "R s s1" by (rule keepsD)
  show "R s s'"
  proof (cases v)
    case (Inl e)
    with m run step show ?thesis by (simp add: run_forward)
  next
    case (Inr x)
    with m run have "f x s1 = (r, s')" by (simp add: run_forward)
    with assms(3) have "R s1 s'" by (rule keepsD)
    with assms(1) step show ?thesis by (rule transpD)
  qed
qed

lemma keeps_mapErrM [keeps_rules]: "keeps R m \<Longrightarrow> keeps R (mapErrM g m)"
  by (auto simp: keeps_def mapErrM_def split: prod.splits sum.splits) (metis snd_conv)+

lemma keeps_tryM [keeps_rules]: "keeps R m \<Longrightarrow> keeps R (tryM m)"
  by (auto simp: keeps_def tryM_def split: prod.splits) (metis snd_conv)

lemma keeps_returnM [keeps_rules]: "reflp R \<Longrightarrow> keeps R (returnM x)"
  by (simp add: keeps_def returnM_def reflpD)

lemma keeps_throwM [keeps_rules]: "reflp R \<Longrightarrow> keeps R (throwM e)"
  by (simp add: keeps_def throwM_def reflpD)

lemma keeps_liftM [keeps_rules]: "reflp R \<Longrightarrow> keeps R (liftM v)"
  by (simp add: keeps_def liftM_def reflpD)

lemma keeps_getsM [keeps_rules]: "reflp R \<Longrightarrow> keeps R (getsM f)"
  by (simp add: keeps_def getsM_def reflpD)

lemma keeps_modifyM [keeps_rules]: "(\<And>s. R s (f s)) \<Longrightarrow> keeps R (modifyM f)"
  by (simp add: keeps_def modifyM_def)

lemma keeps_if [keeps_rules]: "keeps R m \<Longrightarrow> keeps R n \<Longrightarrow> keeps R (if b then m else n)"
  by simp

subsection \<open>Which errors a computation returns\<close>

definition throws :: "(error \<Rightarrow> bool) \<Rightarrow> ('s, 'a) comp \<Rightarrow> bool" where
  "throws P m \<longleftrightarrow> (\<forall>s e s'. m s = (Inl e, s') \<longrightarrow> P e)"

lemma throwsD: "throws P m \<Longrightarrow> m s = (Inl e, s') \<Longrightarrow> P e"
  by (auto simp: throws_def)

lemma throws_bindM [throws_rules]:
  assumes "throws P m" and "\<And>x. throws P (f x)"
  shows "throws P (bindM m f)"
  using throwsD [OF assms(1)] throwsD [OF assms(2)] by (auto simp: throws_def run_iff)

lemma throws_simple [throws_rules]:
  "throws P (tryM m)" "throws (\<lambda>e. P (g e)) m \<Longrightarrow> throws P (mapErrM g m)"
  "throws P (returnM x)" "P e \<Longrightarrow> throws P (throwM e)" "throws P (getsM h)" "throws P (modifyM k)"
  by (auto simp: throws_def run_iff)

lemma throws_bind_tryM:
  assumes "throws P m" and "\<And>e. P e \<Longrightarrow> throws P (f (Inl e))" and "\<And>x. throws P (f (Inr x))"
  shows "throws P (bindM (tryM m) f)"
proof -
  have "P e" if run: "bindM (tryM m) f s = (Inl e, s')" for s e s'
  proof -
    from run obtain v s1 where v: "m s = (v, s1)" "f v s1 = (Inl e, s')" by (auto simp: run_iff)
    show ?thesis
    proof (cases v)
      case (Inl x)
      with v(1) have "P x" by (auto intro: throwsD [OF assms(1)])
      from throwsD [OF assms(2) [OF this]] v(2) Inl show ?thesis by simp
    next
      case (Inr x)
      with v(2) show ?thesis using throwsD [OF assms(3)] by simp
    qed
  qed
  then show ?thesis by (simp add: throws_def)
qed

lemma throws_if [throws_rules]: "throws P m \<Longrightarrow> throws P n \<Longrightarrow> throws P (if b then m else n)"
  by simp

section \<open>Transition systems and invariants\<close>

inductive reachable :: "('s \<Rightarrow> bool) \<Rightarrow> ('s \<Rightarrow> 's \<Rightarrow> bool) \<Rightarrow> 's \<Rightarrow> bool"
  for init :: "'s \<Rightarrow> bool" and step :: "'s \<Rightarrow> 's \<Rightarrow> bool" where
  start: "init s \<Longrightarrow> reachable init step s"
| step: "reachable init step s \<Longrightarrow> step s s' \<Longrightarrow> reachable init step s'"

locale invariant =
  fixes init :: "'s \<Rightarrow> bool"
    and step :: "'s \<Rightarrow> 's \<Rightarrow> bool"
    and inv :: "'s \<Rightarrow> bool"
  assumes inv_init: "init s \<Longrightarrow> inv s"
    and inv_step: "step s s' \<Longrightarrow> inv s \<Longrightarrow> inv s'"
begin

lemma always: "reachable init step s \<Longrightarrow> inv s"
  by (induction rule: reachable.induct) (auto intro: inv_init inv_step)

lemma always_from: "step\<^sup>*\<^sup>* s s' \<Longrightarrow> inv s \<Longrightarrow> inv s'"
  by (induction rule: rtranclp_induct) (auto intro: inv_step)

end

text \<open>
  An invariant that needs another one to be kept: it is added on top of the first, and the
  two together are again an invariant.
\<close>

locale layered_invariant = invariant +
  fixes top :: "'s \<Rightarrow> bool"
  assumes top_init: "init s \<Longrightarrow> top s"
    and top_step: "step s s' \<Longrightarrow> inv s \<Longrightarrow> top s \<Longrightarrow> top s'"
begin

sublocale both: invariant init step "\<lambda>s. inv s \<and> top s"
  by unfold_locales (auto intro: inv_init inv_step top_init top_step)

lemma top_always: "reachable init step s \<Longrightarrow> top s"
  using both.always by blast

end

section \<open>Functional refinement between step relations\<close>

text \<open>
  \<open>abs\<close> maps a concrete state to an abstract one; every concrete step that keeps the
  concrete invariant is an abstract step or leaves the abstract state alone.
\<close>

locale refinement =
  fixes cstep :: "'c \<Rightarrow> 'c \<Rightarrow> bool"
    and cinv :: "'c \<Rightarrow> bool"
    and astep :: "'a \<Rightarrow> 'a \<Rightarrow> bool"
    and abs :: "'c \<Rightarrow> 'a"
  assumes cinv_step: "cstep c c' \<Longrightarrow> cinv c \<Longrightarrow> cinv c'"
    and simulates: "cstep c c' \<Longrightarrow> cinv c \<Longrightarrow> abs c' = abs c \<or> astep (abs c) (abs c')"
begin

lemma cinv_run: "cstep\<^sup>*\<^sup>* c c' \<Longrightarrow> cinv c \<Longrightarrow> cinv c'"
  by (induction rule: rtranclp_induct) (auto intro: cinv_step)

lemma simulates_run:
  assumes "cstep\<^sup>*\<^sup>* c c'" and "cinv c"
  shows "astep\<^sup>*\<^sup>* (abs c) (abs c')"
  using assms
proof (induction rule: rtranclp_induct)
  case base
  show ?case by simp
next
  case (step d e)
  from step.hyps(1) step.prems have "cinv d" by (rule cinv_run)
  with step.hyps(2) have "abs e = abs d \<or> astep (abs d) (abs e)" by (rule simulates)
  with step.IH step.prems show ?case by (metis rtranclp.rtrancl_into_rtrancl)
qed

end

section \<open>Lists of rows\<close>

text \<open>
  The lookups and updates of a table go through a key. These are the facts about
  \<open>find\<close>, \<open>map\<close> and \<open>distinct\<close> every table uses.
\<close>

lemma find_None_key: "find (\<lambda>r. k r = x) rs = None \<longleftrightarrow> x \<notin> k ` set rs"
  by (auto simp: find_None_iff)

lemma find_Some_key:
  "distinct (map k rs) \<Longrightarrow> r \<in> set rs \<Longrightarrow> k r = x \<Longrightarrow> find (\<lambda>r. k r = x) rs = Some r"
  by (induction rs) auto

lemma find_SomeD: "find P rs = Some r \<Longrightarrow> r \<in> set rs \<and> P r"
  by (auto simp: find_Some_iff)

lemma find_key_self: "find (\<lambda>r. k r = x) rs = Some r \<Longrightarrow> k r = x \<and> find (\<lambda>y. k y = k r) rs = Some r"
  using find_SomeD [of "\<lambda>r. k r = x" rs r] by simp

lemma find_append: "find P (xs @ ys) = (case find P xs of None \<Rightarrow> find P ys | Some r \<Rightarrow> Some r)"
  by (induction xs) auto

lemma distinct_key_eq:
  "distinct (map k rs) \<Longrightarrow> r \<in> set rs \<Longrightarrow> r' \<in> set rs \<Longrightarrow> k r = k r' \<Longrightarrow> r = r'"
  by (induction rs) (auto simp: rev_image_eqI)

definition update_where :: "('r \<Rightarrow> bool) \<Rightarrow> ('r \<Rightarrow> 'r) \<Rightarrow> 'r list \<Rightarrow> 'r list" where
  "update_where p f rs = map (\<lambda>r. if p r then f r else r) rs"

lemma set_update_where:
  "set (update_where p f rs) = {r \<in> set rs. \<not> p r} \<union> f ` {r \<in> set rs. p r}"
  by (auto simp: update_where_def)

lemma length_update_where [simp]: "length (update_where p f rs) = length rs"
  by (simp add: update_where_def)

lemma map_update_where:
  "(\<And>r. r \<in> set rs \<Longrightarrow> p r \<Longrightarrow> k (f r) = k r) \<Longrightarrow> map k (update_where p f rs) = map k rs"
  by (auto simp: update_where_def)

lemma update_where_Nil [simp]: "update_where p f [] = []"
  by (simp add: update_where_def)

lemma filter_update_where:
  "(\<And>r. r \<in> set rs \<Longrightarrow> p r \<Longrightarrow> q (f r) = q r) \<Longrightarrow>
    filter q (update_where p f rs) = update_where p f (filter q rs)"
  by (induction rs) (auto simp: update_where_def)

end
