(* ===== verification/Go_Strings.thy ===== *)
theory Go_Strings
  imports Prelude "HOL-Library.Sublist"
begin

text \<open>
  The functions of Go's \<^verbatim>\<open>strings\<close>, \<^verbatim>\<open>strconv\<close> and \<^verbatim>\<open>encoding/hex\<close> packages the program
  calls. A Go string is a sequence of bytes, here a \<open>string\<close> (a list of 8-bit characters);
  text beyond ASCII is its UTF-8 encoding.

  \<open>space_runes\<close> are the UTF-8 encodings of the code points \<^verbatim>\<open>unicode.IsSpace\<close> accepts. A
  leading byte of one of them never occurs inside the encoding of another code point, so
  looking for these byte sequences is what decoding rune by rune does, also on bytes that
  are not valid UTF-8. Case mapping beyond ASCII needs Unicode's tables: it is the argument
  \<open>other\<close> of \<open>ToLower\<close> and \<open>ToUpper\<close>, used only for a string with a byte that is not
  ASCII.
\<close>

section \<open>White space\<close>

definition bytes :: "nat list \<Rightarrow> string" where
  "bytes ns = map char_of ns"

definition space_runes :: "string list" where
  "space_runes =
     [[CHR 0x09], [CHR 0x0A], [CHR 0x0B], [CHR 0x0C], [CHR 0x0D], [CHR 0x20],
      [CHR 0xC2, CHR 0x85], [CHR 0xC2, CHR 0xA0], [CHR 0xE1, CHR 0x9A, CHR 0x80],
      [CHR 0xE2, CHR 0x80, CHR 0x80], [CHR 0xE2, CHR 0x80, CHR 0x81], [CHR 0xE2, CHR 0x80, CHR 0x82],
      [CHR 0xE2, CHR 0x80, CHR 0x83], [CHR 0xE2, CHR 0x80, CHR 0x84], [CHR 0xE2, CHR 0x80, CHR 0x85],
      [CHR 0xE2, CHR 0x80, CHR 0x86], [CHR 0xE2, CHR 0x80, CHR 0x87], [CHR 0xE2, CHR 0x80, CHR 0x88],
      [CHR 0xE2, CHR 0x80, CHR 0x89], [CHR 0xE2, CHR 0x80, CHR 0x8A], [CHR 0xE2, CHR 0x80, CHR 0xA8],
      [CHR 0xE2, CHR 0x80, CHR 0xA9], [CHR 0xE2, CHR 0x80, CHR 0xAF], [CHR 0xE2, CHR 0x81, CHR 0x9F],
      [CHR 0xE3, CHR 0x80, CHR 0x80]]"

definition starts_space :: "string \<Rightarrow> string option" where
  "starts_space s = find (\<lambda>r. prefix r s) space_runes"

lemma space_runes_nonempty: "r \<in> set space_runes \<Longrightarrow> r \<noteq> []"
  by (auto simp: space_runes_def)

lemma starts_space_SomeD: "starts_space s = Some r \<Longrightarrow> r \<noteq> [] \<and> prefix r s"
  by (auto simp: starts_space_def dest!: find_SomeD dest: space_runes_nonempty)

lemma starts_space_length: "starts_space s = Some r \<Longrightarrow> length (drop (length r) s) < length s"
  by (auto dest!: starts_space_SomeD simp: prefix_def)

function TrimLeftSpace :: "string \<Rightarrow> string" where
  "TrimLeftSpace s =
     (case starts_space s of None \<Rightarrow> s | Some r \<Rightarrow> TrimLeftSpace (drop (length r) s))"
  by pat_completeness auto
termination
  by (relation "measure length") (auto dest: starts_space_length)

declare TrimLeftSpace.simps [simp del]

definition ends_space :: "string \<Rightarrow> string option" where
  "ends_space s = find (\<lambda>r. suffix r s) space_runes"

lemma ends_space_length:
  "ends_space s = Some r \<Longrightarrow> length (take (length s - length r) s) < length s"
  by (auto simp: ends_space_def suffix_def dest!: find_SomeD dest: space_runes_nonempty)

function TrimRightSpace :: "string \<Rightarrow> string" where
  "TrimRightSpace s =
     (case ends_space s of None \<Rightarrow> s | Some r \<Rightarrow> TrimRightSpace (take (length s - length r) s))"
  by pat_completeness auto
termination
  by (relation "measure length") (auto dest: ends_space_length)

declare TrimRightSpace.simps [simp del]

definition TrimSpace :: "string \<Rightarrow> string" where
  "TrimSpace s = TrimRightSpace (TrimLeftSpace s)"

text \<open>\<^verbatim>\<open>strings.Fields\<close>: the runs of other bytes between white space.\<close>

function fields_from :: "string \<Rightarrow> string \<Rightarrow> string list" where
  "fields_from cur s =
     (case s of
        [] \<Rightarrow> (if cur = [] then [] else [cur])
      | c # s' \<Rightarrow>
          (case starts_space s of
             None \<Rightarrow> fields_from (cur @ [c]) s'
           | Some r \<Rightarrow>
               (if cur = [] then [] else [cur]) @ fields_from [] (drop (length r) s)))"
  by pat_completeness auto
termination
  by (relation "measure (\<lambda>(cur, s). length s)") (auto dest: starts_space_length)

declare fields_from.simps [simp del]

definition Fields :: "string \<Rightarrow> string list" where
  "Fields s = fields_from [] s"

section \<open>Case, suffixes, splitting, numbers\<close>

definition is_ascii :: "char \<Rightarrow> bool" where
  "is_ascii c \<longleftrightarrow> (of_char c :: nat) < 0x80"

definition ascii_lower :: "char \<Rightarrow> char" where
  "ascii_lower c =
     (if 65 \<le> (of_char c :: nat) \<and> (of_char c :: nat) \<le> 90 then char_of (of_char c + 32 :: nat) else c)"

definition ascii_upper :: "char \<Rightarrow> char" where
  "ascii_upper c =
     (if 97 \<le> (of_char c :: nat) \<and> (of_char c :: nat) \<le> 122 then char_of (of_char c - 32 :: nat) else c)"

definition ToLower :: "(string \<Rightarrow> string) \<Rightarrow> string \<Rightarrow> string" where
  "ToLower other s = (if list_all is_ascii s then map ascii_lower s else other s)"

definition ToUpper :: "(string \<Rightarrow> string) \<Rightarrow> string \<Rightarrow> string" where
  "ToUpper other s = (if list_all is_ascii s then map ascii_upper s else other s)"

text \<open>
  \<^verbatim>\<open>strings.EqualFold(s, t)\<close> for a \<open>t\<close> of ASCII letters none of which is k or s (the only
  ones with a partner beyond ASCII): equality up to ASCII case.
\<close>

definition EqualFold :: "string \<Rightarrow> string \<Rightarrow> bool" where
  "EqualFold s t \<longleftrightarrow> map ascii_lower s = map ascii_lower t"

definition HasSuffix :: "string \<Rightarrow> string \<Rightarrow> bool" where
  "HasSuffix s t \<longleftrightarrow> suffix t s"

fun split_on :: "char \<Rightarrow> string \<Rightarrow> string \<Rightarrow> string list" where
  "split_on sep cur [] = [cur]"
| "split_on sep cur (c # s) =
     (if c = sep then cur # split_on sep [] s else split_on sep (cur @ [c]) s)"

text \<open>\<^verbatim>\<open>strings.Split(s, sep)\<close> for a separator of one byte.\<close>

definition Split :: "string \<Rightarrow> char \<Rightarrow> string list" where
  "Split s sep = split_on sep [] s"

fun Itoa_nat :: "nat \<Rightarrow> string" where
  "Itoa_nat n =
     (if n < 10 then [char_of (48 + n)] else Itoa_nat (n div 10) @ [char_of (48 + n mod 10)])"

declare Itoa_nat.simps [simp del]

definition Itoa :: "int \<Rightarrow> string" where
  "Itoa i = (if i < 0 then CHR ''-'' # Itoa_nat (nat (- i)) else Itoa_nat (nat i))"

definition hex_digit :: "nat \<Rightarrow> char" where
  "hex_digit n = ''0123456789abcdef'' ! (n mod 16)"

text \<open>
  The verb \<^verbatim>\<open>%q\<close> on texts without characters to escape; topics and identifiers have none.
\<close>

definition quoted :: "string \<Rightarrow> string" where
  "quoted s = CHR 0x22 # s @ [CHR 0x22]"

definition hex_EncodeToString :: "string \<Rightarrow> string" where
  "hex_EncodeToString s =
     concat (map (\<lambda>c. [hex_digit (of_char c div 16), hex_digit (of_char c)]) s)"

section \<open>Facts\<close>

lemma TrimLeftSpace_fix: "starts_space (TrimLeftSpace s) = None"
proof (induction s rule: TrimLeftSpace.induct)
  case (1 s)
  then show ?case
    by (cases "starts_space s") (auto simp: TrimLeftSpace.simps [of s])
qed

lemma TrimRightSpace_prefix: "prefix (TrimRightSpace s) s"
proof (induction s rule: TrimRightSpace.induct)
  case (1 s)
  show ?case
  proof (cases "ends_space s")
    case None
    then show ?thesis by (simp add: TrimRightSpace.simps [of s])
  next
    case (Some r)
    with "1.IH" have "prefix (TrimRightSpace (take (length s - length r) s))
        (take (length s - length r) s)" by simp
    with Some show ?thesis
      by (auto simp: TrimRightSpace.simps [of s] intro: prefix_order.trans take_is_prefix)
  qed
qed

lemma TrimRightSpace_fix: "ends_space (TrimRightSpace s) = None"
proof (induction s rule: TrimRightSpace.induct)
  case (1 s)
  then show ?case
    by (cases "ends_space s") (auto simp: TrimRightSpace.simps [of s])
qed

lemma starts_space_prefix: "prefix t s \<Longrightarrow> starts_space s = None \<Longrightarrow> starts_space t = None"
  by (auto simp: starts_space_def find_None_iff dest: prefix_order.trans)

lemma TrimLeftSpace_id: "starts_space s = None \<Longrightarrow> TrimLeftSpace s = s"
  by (simp add: TrimLeftSpace.simps [of s])

lemma TrimRightSpace_id: "ends_space s = None \<Longrightarrow> TrimRightSpace s = s"
  by (simp add: TrimRightSpace.simps [of s])

lemma TrimSpace_idem [simp]: "TrimSpace (TrimSpace s) = TrimSpace s"
proof -
  have "starts_space (TrimRightSpace (TrimLeftSpace s)) = None"
    by (rule starts_space_prefix [OF TrimRightSpace_prefix TrimLeftSpace_fix])
  then show ?thesis
    by (simp add: TrimSpace_def TrimLeftSpace_id TrimRightSpace_id TrimRightSpace_fix)
qed

lemma ascii_lower_idem [simp]: "ascii_lower (ascii_lower c) = ascii_lower c"
  by (auto simp: ascii_lower_def)

lemma ascii_upper_idem [simp]: "ascii_upper (ascii_upper c) = ascii_upper c"
  by (auto simp: ascii_upper_def)

lemma is_ascii_lower [simp]: "is_ascii (ascii_lower c) = is_ascii c"
  by (auto simp: is_ascii_def ascii_lower_def)

lemma is_ascii_upper [simp]: "is_ascii (ascii_upper c) = is_ascii c"
  by (auto simp: is_ascii_def ascii_upper_def)

lemma EqualFold_refl [simp]: "EqualFold s s"
  by (simp add: EqualFold_def)

text \<open>
  Equations by the shape of the text, for evaluation: a function whose equation applies to
  any text would be unfolded before its argument is known.
\<close>

lemma space_Nil [simp]: "starts_space [] = None" "ends_space [] = None"
  using space_runes_nonempty by (auto simp: starts_space_def ends_space_def find_None_iff)

lemma TrimLeftSpace_code [code]:
  "TrimLeftSpace [] = []"
  "TrimLeftSpace (c # s) =
     (case starts_space (c # s) of None \<Rightarrow> c # s | Some r \<Rightarrow> TrimLeftSpace (drop (length r) (c # s)))"
  by (simp_all add: TrimLeftSpace.simps [of "[]"] TrimLeftSpace.simps [of "c # s"])

lemma TrimRightSpace_code [code]:
  "TrimRightSpace [] = []"
  "TrimRightSpace (c # s) =
     (case ends_space (c # s) of
        None \<Rightarrow> c # s
      | Some r \<Rightarrow> TrimRightSpace (take (length (c # s) - length r) (c # s)))"
  by (simp_all add: TrimRightSpace.simps [of "[]"] TrimRightSpace.simps [of "c # s"])

lemma fields_from_code [code]:
  "fields_from cur [] = (if cur = [] then [] else [cur])"
  "fields_from cur (c # s) =
     (case starts_space (c # s) of
        None \<Rightarrow> fields_from (cur @ [c]) s
      | Some r \<Rightarrow> (if cur = [] then [] else [cur]) @ fields_from [] (drop (length r) (c # s)))"
  by (simp_all add: fields_from.simps [of cur "[]"] fields_from.simps [of cur "c # s"])

end
