(* ===== verification/Json.thy ===== *)
theory Json
  imports Go_Strings
begin

text \<open>
  What the program uses of \<^verbatim>\<open>encoding/json\<close>: the encoder (\<^verbatim>\<open>json.Marshal\<close>, with its HTML-safe
  escaping), the parser behind \<^verbatim>\<open>json.Unmarshal\<close> and \<^verbatim>\<open>json.Decoder\<close>, and the assignment of the
  members of an object to the fields of a struct (case-insensitive names, later members
  win, null leaves a field alone, a value of the wrong type is an error).

  A number keeps its literal, as the decoder needs it: whether \<^verbatim>\<open>1e3\<close> fits an \<^verbatim>\<open>int64\<close> field is
  decided on the literal.
\<close>

datatype json =
    JNull
  | JBool bool
  | JNum string
  | JStr string
  | JArr "json list"
  | JObj "(string \<times> json) list"

section \<open>UTF-8\<close>

definition in_range :: "nat \<Rightarrow> nat \<Rightarrow> char \<Rightarrow> bool" where
  "in_range lo hi c \<longleftrightarrow> lo \<le> (of_char c :: nat) \<and> (of_char c :: nat) \<le> hi"

abbreviation cont_byte :: "char \<Rightarrow> bool" where
  "cont_byte \<equiv> in_range 0x80 0xBF"

text \<open>
  The number of bytes of the rune a string starts with when its first byte is not ASCII,
  0 when the bytes there are not valid UTF-8.
\<close>

fun rune_len :: "string \<Rightarrow> nat" where
  "rune_len (a # b # s) =
     (if in_range 0xC2 0xDF a \<and> cont_byte b then 2
      else (case s of
        [] \<Rightarrow> 0
      | c # s' \<Rightarrow>
          if cont_byte c \<and>
             (in_range 0xE0 0xE0 a \<and> in_range 0xA0 0xBF b \<or>
              in_range 0xE1 0xEC a \<and> cont_byte b \<or>
              in_range 0xED 0xED a \<and> in_range 0x80 0x9F b \<or>
              in_range 0xEE 0xEF a \<and> cont_byte b) then 3
          else (case s' of
            [] \<Rightarrow> 0
          | d # _ \<Rightarrow>
              if cont_byte c \<and> cont_byte d \<and>
                 (in_range 0xF0 0xF0 a \<and> in_range 0x90 0xBF b \<or>
                  in_range 0xF1 0xF3 a \<and> cont_byte b \<or>
                  in_range 0xF4 0xF4 a \<and> in_range 0x80 0x8F b) then 4
              else 0)))"
| "rune_len s = 0"

definition replacement :: string where
  "replacement = bytes [0xEF, 0xBF, 0xBD]"

text \<open>A code point as UTF-8; surrogates have been replaced before.\<close>

definition encode_rune :: "nat \<Rightarrow> string" where
  "encode_rune n =
     (if n < 0x80 then bytes [n]
      else if n < 0x800 then bytes [0xC0 + n div 64, 0x80 + n mod 64]
      else if n < 0x10000 then bytes [0xE0 + n div 4096, 0x80 + (n div 64) mod 64, 0x80 + n mod 64]
      else bytes [0xF0 + n div 262144, 0x80 + (n div 4096) mod 64, 0x80 + (n div 64) mod 64,
        0x80 + n mod 64])"

section \<open>Encoding\<close>

definition escape_ascii :: "char \<Rightarrow> string" where
  "escape_ascii c =
     (let n = of_char c :: nat in
      if n = 0x22 \<or> n = 0x5C then CHR 0x5C # [c]
      else if n = 0x08 then CHR 0x5C # ''b''
      else if n = 0x0C then CHR 0x5C # ''f''
      else if n = 0x0A then CHR 0x5C # ''n''
      else if n = 0x0D then CHR 0x5C # ''r''
      else if n = 0x09 then CHR 0x5C # ''t''
      else if n < 0x20 \<or> n = 0x26 \<or> n = 0x3C \<or> n = 0x3E
        then CHR 0x5C # ''u00'' @ [hex_digit (n div 16), hex_digit n]
      else [c])"

definition escape_rune :: "string \<Rightarrow> string" where
  "escape_rune r =
     (if r = bytes [0xE2, 0x80, 0xA8] then CHR 0x5C # ''u2028''
      else if r = bytes [0xE2, 0x80, 0xA9] then CHR 0x5C # ''u2029''
      else r)"

function escape :: "string \<Rightarrow> string" where
  "escape [] = []"
| "escape (c # s) =
     (if is_ascii c then escape_ascii c @ escape s
      else if rune_len (c # s) = 0 then CHR 0x5C # ''ufffd'' @ escape s
      else escape_rune (take (rune_len (c # s)) (c # s)) @ escape (drop (rune_len (c # s) - 1) s))"
  by pat_completeness auto
termination
  by (relation "measure length") auto

definition quote :: "string \<Rightarrow> string" where
  "quote s = CHR 0x22 # escape s @ [CHR 0x22]"

fun separated :: "string list \<Rightarrow> string" where
  "separated [] = []"
| "separated [x] = x"
| "separated (x # xs) = x @ CHR '','' # separated xs"

fun Marshal :: "json \<Rightarrow> string" where
  "Marshal JNull = ''null''"
| "Marshal (JBool b) = (if b then ''true'' else ''false'')"
| "Marshal (JNum lit) = lit"
| "Marshal (JStr s) = quote s"
| "Marshal (JArr vs) = CHR ''['' # separated (map Marshal vs) @ '']''"
| "Marshal (JObj fs) =
     CHR ''{'' # separated (map (\<lambda>(k, v). quote k @ CHR '':'' # Marshal v) fs) @ ''}''"

section \<open>Parsing\<close>

definition json_space :: "char \<Rightarrow> bool" where
  "json_space c \<longleftrightarrow> c = CHR '' '' \<or> c = CHR 0x09 \<or> c = CHR 0x0A \<or> c = CHR 0x0D"

definition skip_space :: "string \<Rightarrow> string" where
  "skip_space s = dropWhile json_space s"

lemma skip_space_length [simp]: "length (skip_space s) \<le> length s"
  by (simp add: skip_space_def length_dropWhile_le)

definition is_digit :: "char \<Rightarrow> bool" where
  "is_digit = in_range 0x30 0x39"

text \<open>The longest prefix that is a number literal of the JSON grammar.\<close>

definition parse_int_part :: "string \<Rightarrow> (string \<times> string) option" where
  "parse_int_part s =
     (case s of
        [] \<Rightarrow> None
      | c # s' \<Rightarrow>
          if c = CHR ''0'' then Some ([c], s')
          else if is_digit c then Some (c # takeWhile is_digit s', dropWhile is_digit s')
          else None)"

definition parse_frac :: "string \<Rightarrow> (string \<times> string) option" where
  "parse_frac s =
     (case s of
        c # s' \<Rightarrow>
          if c = CHR ''.'' then
            if takeWhile is_digit s' = [] then None
            else Some (c # takeWhile is_digit s', dropWhile is_digit s')
          else Some ([], s)
      | [] \<Rightarrow> Some ([], []))"

definition parse_exp :: "string \<Rightarrow> (string \<times> string) option" where
  "parse_exp s =
     (case s of
        c # s' \<Rightarrow>
          if c = CHR ''e'' \<or> c = CHR ''E'' then
            (let sg = (case s' of d # _ \<Rightarrow> if d = CHR ''+'' \<or> d = CHR ''-'' then [d] else [] | [] \<Rightarrow> []);
                 s'' = drop (length sg) s'
             in if takeWhile is_digit s'' = [] then None
                else Some (c # sg @ takeWhile is_digit s'', dropWhile is_digit s''))
          else Some ([], s)
      | [] \<Rightarrow> Some ([], []))"

definition parse_number :: "string \<Rightarrow> (string \<times> string) option" where
  "parse_number s =
     (let sg = (case s of c # _ \<Rightarrow> if c = CHR ''-'' then [c] else [] | [] \<Rightarrow> []) in
      case parse_int_part (drop (length sg) s) of
        None \<Rightarrow> None
      | Some (i, s1) \<Rightarrow>
          (case parse_frac s1 of
             None \<Rightarrow> None
           | Some (f, s2) \<Rightarrow>
               (case parse_exp s2 of
                  None \<Rightarrow> None
                | Some (e, s3) \<Rightarrow> Some (sg @ i @ f @ e, s3))))"

definition hex_value :: "char \<Rightarrow> nat option" where
  "hex_value c =
     (if in_range 0x30 0x39 c then Some (of_char c - 0x30)
      else if in_range 0x61 0x66 c then Some (of_char c - 0x57)
      else if in_range 0x41 0x46 c then Some (of_char c - 0x37)
      else None)"

fun parse_u4 :: "string \<Rightarrow> nat option" where
  "parse_u4 (a # b # c # d # s) =
     (case (hex_value a, hex_value b, hex_value c, hex_value d) of
        (Some i, Some j, Some k, Some l) \<Rightarrow> Some (4096 * i + 256 * j + 16 * k + l)
      | _ \<Rightarrow> None)"
| "parse_u4 s = None"

text \<open>The rune after a backslash-u escape, and how many bytes follow it that belong to it.\<close>

definition surrogate_pair :: "nat \<Rightarrow> string \<Rightarrow> string \<times> nat" where
  "surrogate_pair u rest =
     (if 0xD800 \<le> u \<and> u < 0xDC00 then
        (case rest of
           a # b # rest' \<Rightarrow>
             if a = CHR 0x5C \<and> b = CHR ''u'' then
               (case parse_u4 rest' of
                  Some v \<Rightarrow>
                    if 0xDC00 \<le> v \<and> v < 0xE000
                    then (encode_rune (0x10000 + (u - 0xD800) * 1024 + (v - 0xDC00)), 6)
                    else (replacement, 0)
                | None \<Rightarrow> (replacement, 0))
             else (replacement, 0)
         | _ \<Rightarrow> (replacement, 0))
      else if 0xDC00 \<le> u \<and> u < 0xE000 then (replacement, 0)
      else (encode_rune u, 0))"

definition simple_escape :: "char \<Rightarrow> string option" where
  "simple_escape c =
     (if c = CHR 0x22 \<or> c = CHR 0x5C \<or> c = CHR ''/'' then Some [c]
      else if c = CHR ''b'' then Some [CHR 0x08]
      else if c = CHR ''f'' then Some [CHR 0x0C]
      else if c = CHR ''n'' then Some [CHR 0x0A]
      else if c = CHR ''r'' then Some [CHR 0x0D]
      else if c = CHR ''t'' then Some [CHR 0x09]
      else None)"

text \<open>The characters of a string literal up to its closing quote.\<close>

function parse_chars :: "string \<Rightarrow> (string \<times> string) option" where
  "parse_chars s =
     (case s of
        [] \<Rightarrow> None
      | c # s' \<Rightarrow>
          if c = CHR 0x22 then Some ([], s')
          else if c = CHR 0x5C then
            (case s' of
               [] \<Rightarrow> None
             | e # s'' \<Rightarrow>
                 if e = CHR ''u'' then
                   (case parse_u4 s'' of
                      None \<Rightarrow> None
                    | Some u \<Rightarrow>
                        (case surrogate_pair u (drop 4 s'') of
                           (r, k) \<Rightarrow>
                             map_option (\<lambda>(t, rest). (r @ t, rest)) (parse_chars (drop (4 + k) s''))))
                 else
                   (case simple_escape e of
                      None \<Rightarrow> None
                    | Some r \<Rightarrow> map_option (\<lambda>(t, rest). (r @ t, rest)) (parse_chars s'')))
          else if of_char c < (0x20 :: nat) then None
          else if is_ascii c then map_option (\<lambda>(t, rest). (c # t, rest)) (parse_chars s')
          else if rune_len s = 0 then map_option (\<lambda>(t, rest). (replacement @ t, rest)) (parse_chars s')
          else map_option (\<lambda>(t, rest). (take (rune_len s) s @ t, rest)) (parse_chars (drop (rune_len s) s)))"
  by pat_completeness auto
termination
  by (relation "measure length") auto

declare parse_chars.simps [simp del]

definition max_nesting :: nat where
  "max_nesting = 10000"

text \<open>
  The value a text starts with, and the text after it. The first argument bounds the
  recursion: every call is on a shorter text, so the length of the text is enough. The
  second counts the open brackets, which Go limits to 10000.
\<close>

fun parse_value :: "nat \<Rightarrow> nat \<Rightarrow> string \<Rightarrow> (json \<times> string) option"
  and parse_elems :: "nat \<Rightarrow> nat \<Rightarrow> string \<Rightarrow> (json list \<times> string) option"
  and parse_members :: "nat \<Rightarrow> nat \<Rightarrow> string \<Rightarrow> ((string \<times> json) list \<times> string) option" where
  "parse_value 0 d s = None"
| "parse_value (Suc n) d s =
     (case skip_space s of
        [] \<Rightarrow> None
      | c # t \<Rightarrow>
          if c = CHR ''{'' then
            (if max_nesting \<le> d then None
             else case skip_space t of
                [] \<Rightarrow> None
              | e # t' \<Rightarrow>
                  if e = CHR ''}'' then Some (JObj [], t')
                  else map_option (\<lambda>(fs, rest). (JObj fs, rest)) (parse_members n (Suc d) (e # t')))
          else if c = CHR ''['' then
            (if max_nesting \<le> d then None
             else case skip_space t of
                [] \<Rightarrow> None
              | e # t' \<Rightarrow>
                  if e = CHR '']'' then Some (JArr [], t')
                  else map_option (\<lambda>(vs, rest). (JArr vs, rest)) (parse_elems n (Suc d) (e # t')))
          else if c = CHR 0x22 then map_option (\<lambda>(r, rest). (JStr r, rest)) (parse_chars t)
          else if prefix ''null'' (c # t) then Some (JNull, drop 4 (c # t))
          else if prefix ''true'' (c # t) then Some (JBool True, drop 4 (c # t))
          else if prefix ''false'' (c # t) then Some (JBool False, drop 5 (c # t))
          else map_option (\<lambda>(lit, rest). (JNum lit, rest)) (parse_number (c # t)))"
| "parse_elems 0 d s = None"
| "parse_elems (Suc n) d s =
     (case parse_value n d s of
        None \<Rightarrow> None
      | Some (v, t) \<Rightarrow>
          (case skip_space t of
             [] \<Rightarrow> None
           | c # t' \<Rightarrow>
               if c = CHR '']'' then Some ([v], t')
               else if c = CHR '','' then map_option (\<lambda>(vs, rest). (v # vs, rest)) (parse_elems n d t')
               else None))"
| "parse_members 0 d s = None"
| "parse_members (Suc n) d s =
     (case skip_space s of
        [] \<Rightarrow> None
      | c # t \<Rightarrow>
          if c \<noteq> CHR 0x22 then None
          else (case parse_chars t of
             None \<Rightarrow> None
           | Some (k, t1) \<Rightarrow>
               (case skip_space t1 of
                  [] \<Rightarrow> None
                | e # t2 \<Rightarrow>
                    if e \<noteq> CHR '':'' then None
                    else (case parse_value n d t2 of
                       None \<Rightarrow> None
                     | Some (v, t3) \<Rightarrow>
                         (case skip_space t3 of
                            [] \<Rightarrow> None
                          | f # t4 \<Rightarrow>
                              if f = CHR ''}'' then Some ([(k, v)], t4)
                              else if f = CHR '','' then
                                map_option (\<lambda>(fs, rest). ((k, v) # fs, rest)) (parse_members n d t4)
                              else None)))))"

text \<open>\<^verbatim>\<open>json.Decoder.Decode\<close> takes the first value; \<^verbatim>\<open>json.Unmarshal\<close> wants nothing after it.\<close>

definition decode_first :: "string \<Rightarrow> json option" where
  "decode_first s = map_option fst (parse_value (Suc (2 * length s)) 0 s)"

definition decode_all :: "string \<Rightarrow> json option" where
  "decode_all s =
     (case parse_value (Suc (2 * length s)) 0 s of
        Some (v, rest) \<Rightarrow> if skip_space rest = [] then Some v else None
      | None \<Rightarrow> None)"

section \<open>Structs\<close>

text \<open>
  The name of a member as the decoder compares it with the name of a field: upper case,
  with the two runes beyond ASCII that fold to a letter.
\<close>

fun fold_name :: "string \<Rightarrow> string" where
  "fold_name (a # b # c # s) =
     (if [a, b] = bytes [0xC5, 0xBF] then CHR ''S'' # fold_name (c # s)
      else if [a, b, c] = bytes [0xE2, 0x84, 0xAA] then CHR ''K'' # fold_name s
      else ascii_upper a # fold_name (b # c # s))"
| "fold_name [a, b] = (if [a, b] = bytes [0xC5, 0xBF] then ''S'' else [ascii_upper a, ascii_upper b])"
| "fold_name [a] = [ascii_upper a]"
| "fold_name [] = []"

definition is_field :: "string \<Rightarrow> string \<Rightarrow> bool" where
  "is_field name k \<longleftrightarrow> fold_name k = fold_name name"

text \<open>
  The value a field ends up with: the members of its name in order, each assigning what it
  holds. \<open>None\<close> is a value of the wrong type, which makes the whole decoding fail.
\<close>

fun string_field :: "string \<Rightarrow> (string \<times> json) list \<Rightarrow> string \<Rightarrow> string option" where
  "string_field name [] x = Some x"
| "string_field name ((k, v) # fs) x =
     (if is_field name k then
        (case v of
           JStr s \<Rightarrow> string_field name fs s
         | JNull \<Rightarrow> string_field name fs x
         | _ \<Rightarrow> None)
      else string_field name fs x)"

fun raw_field :: "string \<Rightarrow> (string \<times> json) list \<Rightarrow> json option \<Rightarrow> json option" where
  "raw_field name [] x = x"
| "raw_field name ((k, v) # fs) x =
     (if is_field name k then raw_field name fs (Some v) else raw_field name fs x)"

fun digits_value :: "nat \<Rightarrow> string \<Rightarrow> nat" where
  "digits_value n [] = n"
| "digits_value n (c # s) = digits_value (10 * n + (of_char c - 0x30)) s"

text \<open>\<^verbatim>\<open>strconv.ParseInt(lit, 10, 64)\<close> on a number literal: no fraction, no exponent, in range.\<close>

definition parse_int64 :: "string \<Rightarrow> int option" where
  "parse_int64 lit =
     (let neg = (case lit of c # _ \<Rightarrow> c = CHR ''-'' | [] \<Rightarrow> False);
          ds = (if neg then tl lit else lit);
          v = (if neg then - int (digits_value 0 ds) else int (digits_value 0 ds))
      in if ds \<noteq> [] \<and> list_all is_digit ds \<and> - (2 ^ 63) \<le> v \<and> v < 2 ^ 63 then Some v else None)"

fun int64_field :: "string \<Rightarrow> (string \<times> json) list \<Rightarrow> int \<Rightarrow> int option" where
  "int64_field name [] x = Some x"
| "int64_field name ((k, v) # fs) x =
     (if is_field name k then
        (case v of
           JNum lit \<Rightarrow>
             (case parse_int64 lit of Some i \<Rightarrow> int64_field name fs i | None \<Rightarrow> None)
         | JNull \<Rightarrow> int64_field name fs x
         | _ \<Rightarrow> None)
      else int64_field name fs x)"

text \<open>The members a struct is filled from: null is accepted and fills nothing.\<close>

definition struct_members :: "json \<Rightarrow> (string \<times> json) list option" where
  "struct_members v = (case v of JObj fs \<Rightarrow> Some fs | JNull \<Rightarrow> Some [] | _ \<Rightarrow> None)"

section \<open>Hexadecimal digits\<close>

lemma less_16_cases: "(d :: nat) < 16 \<Longrightarrow> d \<in> {0, 1, 2, 3, 4, 5, 6, 7, 8, 9, 10, 11, 12, 13, 14, 15}"
  by (simp, arith)

lemma hex_value_digit: "hex_value (hex_digit n) = Some (n mod 16)"
proof -
  have "n mod 16 \<in> {0, 1, 2, 3, 4, 5, 6, 7, 8, 9, 10, 11, 12, 13, 14, 15}"
    by (rule less_16_cases) simp
  then show ?thesis unfolding hex_digit_def by (auto simp: hex_value_def in_range_def)
qed

end
