(* ===== verification/Models.thy ===== *)
theory Models
  imports Json
begin

text \<open>
  The rows of the database (\<^verbatim>\<open>internal/store/sqlc/models.go\<close>) and the database they live in,
  one list of rows per table of \<^verbatim>\<open>migrations/\<close>, in the order the rows were inserted.

  A column of type \<^verbatim>\<open>UUID NOT NULL\<close> is a \<open>uuid\<close>, a nullable column an \<open>option\<close> whose \<open>None\<close> is
  the \<^verbatim>\<open>Valid: false\<close> of the \<^verbatim>\<open>pgtype\<close> value, a \<^verbatim>\<open>JSONB\<close> column a \<open>json\<close> value. The constraints of
  the migrations (\<^verbatim>\<open>CHECK\<close>, \<^verbatim>\<open>UNIQUE\<close>, \<^verbatim>\<open>REFERENCES\<close>) are checked by the statements of theory
  \<open>Queries\<close>; what a database that satisfies them looks like is \<open>schema_ok\<close>.
\<close>

record User =
  User_ID :: uuid
  User_Email :: string
  User_PasswordHash :: string
  User_Role :: string
  User_CreatedAt :: time
  User_UpdatedAt :: time

record RefreshToken =
  RefreshToken_ID :: uuid
  RefreshToken_UserID :: uuid
  RefreshToken_TokenHash :: string
  RefreshToken_ExpiresAt :: time
  RefreshToken_RevokedAt :: "time option"
  RefreshToken_CreatedAt :: time

record Order =
  Order_ID :: uuid
  Order_UserID :: uuid
  Order_Status :: string
  Order_AmountCents :: int
  Order_Currency :: string
  Order_Description :: "string option"
  Order_CreatedAt :: time
  Order_UpdatedAt :: time

record Payment =
  Payment_ID :: uuid
  Payment_OrderID :: uuid
  Payment_Status :: string
  Payment_AmountCents :: int
  Payment_Provider :: string
  Payment_ProviderRef :: "string option"
  Payment_FailureReason :: "string option"
  Payment_CreatedAt :: time
  Payment_UpdatedAt :: time

record IdempotencyKey =
  IdempotencyKey_ID :: uuid
  IdempotencyKey_UserID :: uuid
  IdempotencyKey_Key :: string
  IdempotencyKey_Method :: string
  IdempotencyKey_Path :: string
  IdempotencyKey_RequestHash :: string
  IdempotencyKey_ResponseBody :: json
  IdempotencyKey_StatusCode :: "int option"
  IdempotencyKey_ResourceType :: "string option"
  IdempotencyKey_ResourceID :: "uuid option"
  IdempotencyKey_CreatedAt :: time

record OutboxEvent =
  OutboxEvent_ID :: uuid
  OutboxEvent_AggregateType :: string
  OutboxEvent_AggregateID :: uuid
  OutboxEvent_EventType :: string
  OutboxEvent_Payload :: json
  OutboxEvent_PublishedAt :: "time option"
  OutboxEvent_Attempt :: int
  OutboxEvent_LastError :: "string option"
  OutboxEvent_CreatedAt :: time
  OutboxEvent_PartitionKey :: uuid

record ProcessedEvent =
  ProcessedEvent_EventID :: uuid
  ProcessedEvent_ConsumerName :: string
  ProcessedEvent_ProcessedAt :: time

record NotificationDelivery =
  NotificationDelivery_ID :: uuid
  NotificationDelivery_EventID :: uuid
  NotificationDelivery_Channel :: string
  NotificationDelivery_Recipient :: string
  NotificationDelivery_Status :: string
  NotificationDelivery_Attempt :: int
  NotificationDelivery_LastError :: "string option"
  NotificationDelivery_CreatedAt :: time
  NotificationDelivery_UpdatedAt :: time

record db =
  tbl_users :: "User list"
  tbl_refresh_tokens :: "RefreshToken list"
  tbl_orders :: "Order list"
  tbl_payments :: "Payment list"
  tbl_idempotency_keys :: "IdempotencyKey list"
  tbl_outbox_events :: "OutboxEvent list"
  tbl_processed_events :: "ProcessedEvent list"
  tbl_notification_deliveries :: "NotificationDelivery list"

definition empty_db :: db where
  "empty_db = \<lparr>tbl_users = [], tbl_refresh_tokens = [], tbl_orders = [], tbl_payments = [],
     tbl_idempotency_keys = [], tbl_outbox_events = [], tbl_processed_events = [],
     tbl_notification_deliveries = []\<rparr>"

section \<open>Nullable columns\<close>

text \<open>\<^verbatim>\<open>pgtype.Text{String: s, Valid: s != ""}\<close>, and the \<^verbatim>\<open>String\<close> field of a \<^verbatim>\<open>pgtype.Text\<close>.\<close>

definition pg_Text :: "string \<Rightarrow> string option" where
  "pg_Text s = (if s = '''' then None else Some s)"

definition text_String :: "string option \<Rightarrow> string" where
  "text_String t = (case t of None \<Rightarrow> '''' | Some s \<Rightarrow> s)"

text \<open>\<^verbatim>\<open>pgtype.Int4{Int32: n, Valid: n > 0}\<close>, and the \<^verbatim>\<open>Int32\<close> field of a \<^verbatim>\<open>pgtype.Int4\<close>.\<close>

definition pg_Int4 :: "int \<Rightarrow> int option" where
  "pg_Int4 n = (if n > 0 then Some n else None)"

definition int4_Int32 :: "int option \<Rightarrow> int" where
  "int4_Int32 v = (case v of None \<Rightarrow> 0 | Some n \<Rightarrow> n)"

lemma text_String_pg_Text [simp]: "text_String (pg_Text s) = s"
  by (simp add: text_String_def pg_Text_def)

lemma int4_Int32_pg_Int4 [simp]: "0 < n \<Longrightarrow> int4_Int32 (pg_Int4 n) = n"
  by (simp add: int4_Int32_def pg_Int4_def)

section \<open>The constraints of the migrations\<close>

definition order_check :: "string \<Rightarrow> int \<Rightarrow> bool" where
  "order_check status amount \<longleftrightarrow>
     status \<in> {''pending_payment'', ''paid'', ''payment_failed'', ''cancelled''} \<and> amount > 0"

definition payment_check :: "string \<Rightarrow> int \<Rightarrow> bool" where
  "payment_check status amount \<longleftrightarrow> status \<in> {''succeeded'', ''failed''} \<and> amount > 0"

definition outbox_check :: "string \<Rightarrow> string \<Rightarrow> bool" where
  "outbox_check aggregate event \<longleftrightarrow>
     aggregate = ''order'' \<and> event \<in> {''order.created'', ''order.cancelled''} \<or>
     aggregate = ''payment'' \<and> event \<in> {''payment.succeeded'', ''payment.failed''}"

definition user_check :: "string \<Rightarrow> bool" where
  "user_check role \<longleftrightarrow> role \<in> {''customer'', ''admin''}"

definition notification_check :: "string \<Rightarrow> bool" where
  "notification_check status \<longleftrightarrow> status \<in> {''pending'', ''sent'', ''failed''}"

abbreviation idem_key :: "IdempotencyKey \<Rightarrow> uuid \<times> string" where
  "idem_key k \<equiv> (IdempotencyKey_UserID k, IdempotencyKey_Key k)"

abbreviation processed_key :: "ProcessedEvent \<Rightarrow> uuid \<times> string" where
  "processed_key e \<equiv> (ProcessedEvent_EventID e, ProcessedEvent_ConsumerName e)"

text \<open>Primary keys and \<^verbatim>\<open>UNIQUE\<close> constraints.\<close>

definition keys_ok :: "db \<Rightarrow> bool" where
  "keys_ok d \<longleftrightarrow>
     distinct (map User_ID (tbl_users d)) \<and> distinct (map User_Email (tbl_users d)) \<and>
     distinct (map RefreshToken_ID (tbl_refresh_tokens d)) \<and>
     distinct (map RefreshToken_TokenHash (tbl_refresh_tokens d)) \<and>
     distinct (map Order_ID (tbl_orders d)) \<and>
     distinct (map Payment_ID (tbl_payments d)) \<and>
     distinct (map IdempotencyKey_ID (tbl_idempotency_keys d)) \<and>
     distinct (map idem_key (tbl_idempotency_keys d)) \<and>
     distinct (map OutboxEvent_ID (tbl_outbox_events d)) \<and>
     distinct (map processed_key (tbl_processed_events d)) \<and>
     distinct (map NotificationDelivery_ID (tbl_notification_deliveries d))"

text \<open>\<^verbatim>\<open>REFERENCES\<close> clauses.\<close>

definition refs_ok :: "db \<Rightarrow> bool" where
  "refs_ok d \<longleftrightarrow>
     RefreshToken_UserID ` set (tbl_refresh_tokens d) \<subseteq> User_ID ` set (tbl_users d) \<and>
     Order_UserID ` set (tbl_orders d) \<subseteq> User_ID ` set (tbl_users d) \<and>
     Payment_OrderID ` set (tbl_payments d) \<subseteq> Order_ID ` set (tbl_orders d) \<and>
     IdempotencyKey_UserID ` set (tbl_idempotency_keys d) \<subseteq> User_ID ` set (tbl_users d)"

text \<open>\<^verbatim>\<open>CHECK\<close> constraints.\<close>

definition checks_ok :: "db \<Rightarrow> bool" where
  "checks_ok d \<longleftrightarrow>
     (\<forall>u \<in> set (tbl_users d). user_check (User_Role u)) \<and>
     (\<forall>r \<in> set (tbl_orders d). order_check (Order_Status r) (Order_AmountCents r)) \<and>
     (\<forall>p \<in> set (tbl_payments d). payment_check (Payment_Status p) (Payment_AmountCents p)) \<and>
     (\<forall>e \<in> set (tbl_outbox_events d). 0 \<le> OutboxEvent_Attempt e \<and>
        outbox_check (OutboxEvent_AggregateType e) (OutboxEvent_EventType e)) \<and>
     (\<forall>n \<in> set (tbl_notification_deliveries d).
        0 \<le> NotificationDelivery_Attempt n \<and> notification_check (NotificationDelivery_Status n))"

definition schema_ok :: "db \<Rightarrow> bool" where
  "schema_ok d \<longleftrightarrow> keys_ok d \<and> refs_ok d \<and> checks_ok d"

lemma schema_ok_empty [simp]: "schema_ok empty_db"
  by (simp add: schema_ok_def keys_ok_def refs_ok_def checks_ok_def empty_db_def)

lemmas schema_defs = schema_ok_def keys_ok_def refs_ok_def checks_ok_def

end
