(* ===== verification/Database.thy ===== *)
theory Database
  imports Models
begin

text \<open>
  The world the services run in, and the transactions of \<^verbatim>\<open>internal/store/store.go\<close>.

  \<open>ext\<close> collects what the program calls and does not implement: the UUID, JWT, bcrypt and
  Kafka libraries, the clocks, the random source, and what PostgreSQL and the connection to
  it may do at each statement. It is an argument of every definition that uses one of them.
  Whatever such a call gives is read from \<open>ext\<close> at the number of the call, so a theorem for
  all \<open>ext\<close> is a theorem for every sequence of answers. \<open>world\<close> is the state: the database,
  the Kafka topic, the Prometheus counters, and how many calls of each kind were made.

  A statement can fail for a reason that is not one of the constraints of the schema
  (\<open>Failed\<close>: a lost connection, a deadlock, a text PostgreSQL refuses), and it can be carried
  out although the program sees an error (\<open>Lost\<close>: the connection broke after the server had
  acted). The second matters where the statement is a \<^verbatim>\<open>COMMIT\<close> or runs outside a
  transaction.
\<close>

section \<open>What the program calls\<close>

datatype fault = NoFault | Failed error | Lost error

text \<open>
  What a call of the Kafka client's \<^verbatim>\<open>Produce\<close> comes to, as \<^verbatim>\<open>Publish\<close> waits for it. The flag says
  whether the broker appended the message although the client got no successful report.
\<close>

datatype produce_outcome =
    EnqueueFailed error
  | ContextDone bool
  | UnexpectedEvent string bool
  | DeliveryFailed error bool
  | Delivered

record Claims =
  Claims_UserID :: string
  Claims_Email :: string
  Claims_Role :: string
  Claims_Subject :: string
  Claims_IssuedAt :: time
  Claims_ExpiresAt :: time

record ext =
  uuid_Scan :: "string \<Rightarrow> uuid option" \<comment> \<open>\<^verbatim>\<open>pgtype.UUID.Scan\<close>\<close>
  uuid_String :: "uuid \<Rightarrow> string" \<comment> \<open>\<^verbatim>\<open>pgtype.UUID.String\<close>\<close>
  uuid_Parse :: "string \<Rightarrow> bool" \<comment> \<open>whether \<^verbatim>\<open>uuid.Parse\<close> succeeds\<close>
  uuid_New :: "nat \<Rightarrow> string" \<comment> \<open>\<^verbatim>\<open>uuid.NewString\<close>\<close>
  sql_fault :: "nat \<Rightarrow> fault"
  db_now :: "nat \<Rightarrow> time" \<comment> \<open>the server's clock\<close>
  skip_locked :: "nat \<Rightarrow> uuid \<Rightarrow> bool" \<comment> \<open>rows other transactions hold locks on\<close>
  pg_timestamp :: "time \<Rightarrow> time" \<comment> \<open>a time as a \<^verbatim>\<open>timestamptz\<close> keeps it\<close>
  jsonb :: "json \<Rightarrow> json" \<comment> \<open>a JSON value as a \<^verbatim>\<open>JSONB\<close> column keeps it\<close>
  time_MarshalJSON :: "time \<Rightarrow> string"
  time_Now :: "nat \<Rightarrow> time"
  unicode_lower :: "string \<Rightarrow> string"
  unicode_upper :: "string \<Rightarrow> string"
  sha256_Sum256 :: "string \<Rightarrow> string"
  rand_Read :: "nat \<Rightarrow> error + string"
  bcrypt_Generate :: "nat \<Rightarrow> string \<Rightarrow> error + string"
  bcrypt_Compare :: "string \<Rightarrow> string \<Rightarrow> bool"
  jwt_NumericDate :: "time \<Rightarrow> time"
  jwt_Sign :: "string \<Rightarrow> Claims \<Rightarrow> error + string" \<comment> \<open>with HS256\<close>
  jwt_Unverified :: "string \<Rightarrow> (string \<times> Claims) option" \<comment> \<open>algorithm and claims of a token\<close>
  jwt_Verify :: "string \<Rightarrow> string \<Rightarrow> string \<Rightarrow> bool" \<comment> \<open>algorithm, key, token\<close>
  jwt_Validate :: "time \<Rightarrow> Claims \<Rightarrow> bool"
  kafka_Produce :: "nat \<Rightarrow> produce_outcome"

text \<open>
  What the program relies on of the UUID library: what \<^verbatim>\<open>String\<close> prints \<^verbatim>\<open>Scan\<close> reads back, and the
  empty text is no UUID.
\<close>

definition uuid_laws :: "ext \<Rightarrow> bool" where
  "uuid_laws E \<longleftrightarrow> (\<forall>u. uuid_Scan E (uuid_String E u) = Some u) \<and> uuid_Scan E '''' = None"

lemma uuid_lawsD [simp]:
  "uuid_laws E \<Longrightarrow> uuid_Scan E (uuid_String E u) = Some u"
  "uuid_laws E \<Longrightarrow> uuid_Scan E '''' = None"
  "uuid_laws E \<Longrightarrow> uuid_String E u \<noteq> ''''"
  by (auto simp: uuid_laws_def) (metis option.distinct(1))

section \<open>The world\<close>

type_synonym message = "string \<times> string \<times> string" \<comment> \<open>topic, key, value\<close>

record world =
  w_db :: db
  w_tx :: "time option" \<comment> \<open>when the open transaction began\<close>
  w_stmt :: nat
  w_uuid :: nat
  w_clock :: nat
  w_rand :: nat
  w_produce :: nat
  w_log :: "message list" \<comment> \<open>the Kafka topics, in the order of arrival\<close>
  w_metrics :: "string \<Rightarrow> string list \<Rightarrow> nat"

type_synonym ('z, 'a) io = "('z world_scheme, 'a) comp"

definition NewString :: "ext \<Rightarrow> ('z, string) io" where
  "NewString E = (\<lambda>w. (Inr (uuid_New E (w_uuid w)), w\<lparr>w_uuid := Suc (w_uuid w)\<rparr>))"

definition Now :: "ext \<Rightarrow> ('z, time) io" where
  "Now E = (\<lambda>w. (Inr (time_Now E (w_clock w)), w\<lparr>w_clock := Suc (w_clock w)\<rparr>))"

text \<open>\<^verbatim>\<open>metrics.X.WithLabelValues(labels).Inc()\<close>\<close>

definition bump_metric :: "string \<Rightarrow> string list \<Rightarrow> 'z world_scheme \<Rightarrow> 'z world_scheme" where
  "bump_metric name labels w = w\<lparr>w_metrics :=
     (w_metrics w)(name := (w_metrics w name)(labels := Suc (w_metrics w name labels)))\<rparr>"

definition Inc :: "string \<Rightarrow> string list \<Rightarrow> ('z, unit) io" where
  "Inc name labels = modifyM (bump_metric name labels)"

section \<open>Statements and transactions\<close>

text \<open>
  A statement is a function of \<^verbatim>\<open>NOW()\<close> and the database. \<^verbatim>\<open>NOW()\<close> is the start of the
  transaction, or of the statement when there is none.
\<close>

type_synonym 'a statement = "time \<Rightarrow> db \<Rightarrow> error + ('a \<times> db)"

definition stmt_time :: "ext \<Rightarrow> 'z world_scheme \<Rightarrow> time" where
  "stmt_time E w = (case w_tx w of None \<Rightarrow> db_now E (w_stmt w) | Some t \<Rightarrow> t)"

definition exec :: "ext \<Rightarrow> 'a statement \<Rightarrow> ('z, 'a) io" where
  "exec E q = (\<lambda>w.
     let w' = w\<lparr>w_stmt := Suc (w_stmt w)\<rparr>; r = q (stmt_time E w) (w_db w) in
     case sql_fault E (w_stmt w) of
       NoFault \<Rightarrow> (case r of Inl e \<Rightarrow> (Inl e, w') | Inr (x, d) \<Rightarrow> (Inr x, w'\<lparr>w_db := d\<rparr>))
     | Failed e \<Rightarrow> (Inl e, w')
     | Lost e \<Rightarrow> (Inl e, case r of Inl _ \<Rightarrow> w' | Inr (x, d) \<Rightarrow> w'\<lparr>w_db := d\<rparr>))"

definition begin_tx :: "ext \<Rightarrow> ('z, unit) io" where
  "begin_tx E = (\<lambda>w.
     let w' = w\<lparr>w_stmt := Suc (w_stmt w)\<rparr> in
     case sql_fault E (w_stmt w) of
       NoFault \<Rightarrow> (Inr (), w'\<lparr>w_tx := Some (db_now E (w_stmt w))\<rparr>)
     | Failed e \<Rightarrow> (Inl e, w')
     | Lost e \<Rightarrow> (Inl e, w'))"

text \<open>\<^verbatim>\<open>tx.Commit\<close>; \<open>d\<close> is the database the transaction started from.\<close>

definition commit_tx :: "ext \<Rightarrow> db \<Rightarrow> ('z, unit) io" where
  "commit_tx E d = (\<lambda>w.
     let w' = w\<lparr>w_stmt := Suc (w_stmt w), w_tx := None\<rparr> in
     case sql_fault E (w_stmt w) of
       NoFault \<Rightarrow> (Inr (), w')
     | Failed e \<Rightarrow> (Inl e, w'\<lparr>w_db := d\<rparr>)
     | Lost e \<Rightarrow> (Inl e, w'))"

definition rollback_tx :: "db \<Rightarrow> 'z world_scheme \<Rightarrow> 'z world_scheme" where
  "rollback_tx d w = w\<lparr>w_db := d, w_tx := None\<rparr>"

definition WithTx :: "ext \<Rightarrow> ('z, 'a) io \<Rightarrow> ('z, 'a) io" where
  "WithTx E fn = (\<lambda>w.
     case begin_tx E w of
       (Inl e, w1) \<Rightarrow> (Inl e, w1)
     | (Inr _, w1) \<Rightarrow>
         (case fn w1 of
            (Inl e, w2) \<Rightarrow> (Inl e, rollback_tx (w_db w) w2)
          | (Inr x, w2) \<Rightarrow>
              (case commit_tx E (w_db w) w2 of
                 (Inl e, w3) \<Rightarrow> (Inl e, w3)
               | (Inr _, w3) \<Rightarrow> (Inr x, w3))))"

section \<open>What a statement and a transaction do to the database\<close>

text \<open>
  \<open>db_step P w w'\<close>: the database of \<open>w'\<close> is that of \<open>w\<close> or related to it by \<open>P\<close>. It is how the
  effect of an operation is stated whatever the operation returned.
\<close>

definition db_step :: "(db \<Rightarrow> db \<Rightarrow> bool) \<Rightarrow> 'z world_scheme \<Rightarrow> 'z world_scheme \<Rightarrow> bool" where
  "db_step P w w' \<longleftrightarrow> w_db w' = w_db w \<or> P (w_db w) (w_db w')"

lemma exec_InrD:
  assumes "exec E q w = (Inr x, w')"
  shows "q (stmt_time E w) (w_db w) = Inr (x, w_db w')" and "w_tx w' = w_tx w"
    and "w_log w' = w_log w" and "w_uuid w' = w_uuid w" and "w_metrics w' = w_metrics w"
  using assms by (auto simp: exec_def Let_def split: fault.splits sum.splits)

lemma exec_effect:
  assumes "exec E q w = (r, w')"
  shows "w_db w' = w_db w \<or> (\<exists>x. q (stmt_time E w) (w_db w) = Inr (x, w_db w'))"
  using assms by (auto simp: exec_def Let_def split: fault.splits sum.splits)

lemma exec_frame:
  assumes "exec E q w = (r, w')"
  shows "w_tx w' = w_tx w \<and> w_log w' = w_log w \<and> w_uuid w' = w_uuid w \<and>
    w_metrics w' = w_metrics w \<and> w_clock w' = w_clock w \<and> w_rand w' = w_rand w \<and>
    w_produce w' = w_produce w \<and> w_stmt w' = Suc (w_stmt w)"
  using assms by (auto simp: exec_def Let_def split: fault.splits sum.splits)

lemma exec_NoFault:
  assumes "sql_fault E (w_stmt w) = NoFault"
  shows "exec E q w = (case q (stmt_time E w) (w_db w) of
      Inl e \<Rightarrow> (Inl e, w\<lparr>w_stmt := Suc (w_stmt w)\<rparr>)
    | Inr (x, d) \<Rightarrow> (Inr x, w\<lparr>w_stmt := Suc (w_stmt w), w_db := d\<rparr>))"
  using assms by (auto simp: exec_def Let_def split: sum.splits)

lemma exec_read_only:
  assumes "\<And>t d x d'. q t d = Inr (x, d') \<Longrightarrow> d' = d" and "exec E q w = (r, w')"
  shows "w_db w' = w_db w"
  using exec_effect [OF assms(2)] assms(1) by auto

lemma begin_tx_InrD:
  assumes "begin_tx E w = (Inr u, w')"
  shows "w_db w' = w_db w" and "w_tx w' = Some (db_now E (w_stmt w))" and "w_log w' = w_log w"
    and "w_uuid w' = w_uuid w" and "w_metrics w' = w_metrics w"
  using assms by (auto simp: begin_tx_def Let_def split: fault.splits)

text \<open>
  A transaction that returns a value has run its body to the end and committed what the body
  did. One that returns an error has left the database as it was, unless its commit was
  carried out and only the answer was lost.
\<close>

lemma WithTx_cases:
  assumes "WithTx E fn w = (r, w')"
  obtains (no_begin) e where "begin_tx E w = (Inl e, w')" and "r = Inl e"
  | (rolled_back) e w1 w2 where "begin_tx E w = (Inr (), w1)" and "fn w1 = (Inl e, w2)"
      and "r = Inl e" and "w' = rollback_tx (w_db w) w2"
  | (no_commit) e x w1 w2 where "begin_tx E w = (Inr (), w1)" and "fn w1 = (Inr x, w2)"
      and "commit_tx E (w_db w) w2 = (Inl e, w')" and "r = Inl e"
  | (committed) x w1 w2 where "begin_tx E w = (Inr (), w1)" and "fn w1 = (Inr x, w2)"
      and "commit_tx E (w_db w) w2 = (Inr (), w')" and "r = Inr x"
  using assms by (auto simp: WithTx_def split: prod.splits sum.splits)

lemma commit_tx_Inr:
  assumes "commit_tx E d w = (Inr u, w')"
  shows "w_db w' = w_db w" and "w_log w' = w_log w" and "w_metrics w' = w_metrics w"
    and "w_tx w' = None"
  using assms by (auto simp: commit_tx_def Let_def split: fault.splits)

lemma commit_tx_Inl:
  assumes "commit_tx E d w = (Inl e, w')"
  shows "w_db w' = d \<or> w_db w' = w_db w \<and> sql_fault E (w_stmt w) = Lost e"
    and "w_log w' = w_log w"
  using assms by (auto simp: commit_tx_def Let_def split: fault.splits)

lemma begin_tx_Inl: "begin_tx E w = (Inl e, w') \<Longrightarrow> w_db w' = w_db w \<and> w_log w' = w_log w"
  by (auto simp: begin_tx_def Let_def split: fault.splits)

lemma WithTx_InrD:
  assumes "WithTx E fn w = (Inr x, w')"
  obtains w1 w2 where "w_db w1 = w_db w" and "w_tx w1 = Some (db_now E (w_stmt w))"
    and "w_log w1 = w_log w" and "w_uuid w1 = w_uuid w" and "w_metrics w1 = w_metrics w"
    and "fn w1 = (Inr x, w2)" and "w_db w' = w_db w2"
    and "w_log w' = w_log w2" and "w_metrics w' = w_metrics w2" and "w_tx w' = None"
  using assms
proof (cases rule: WithTx_cases)
  case (committed y w1 w2)
  then show ?thesis
    using that [of w1 w2] begin_tx_InrD [OF committed(1)] commit_tx_Inr [OF committed(3)] by simp
qed auto

lemma WithTx_InlD:
  assumes "WithTx E fn w = (Inl e, w')"
  shows "w_db w' = w_db w \<or>
    (\<exists>w1 w2 x. w_db w1 = w_db w \<and> w_tx w1 = Some (db_now E (w_stmt w)) \<and> w_log w1 = w_log w \<and>
       fn w1 = (Inr x, w2) \<and> w_db w' = w_db w2 \<and> w_log w' = w_log w2 \<and>
       sql_fault E (w_stmt w2) = Lost e)"
  using assms
proof (cases rule: WithTx_cases)
  case (no_begin e')
  then show ?thesis by (simp add: begin_tx_Inl)
next
  case (rolled_back e' w1 w2)
  then show ?thesis by (simp add: rollback_tx_def)
next
  case (no_commit e' x w1 w2)
  then show ?thesis
    using begin_tx_InrD [OF no_commit(1)] commit_tx_Inl [OF no_commit(3)] by auto
qed auto

lemma WithTx_effect:
  assumes "WithTx E fn w = (r, w')"
  shows "w_db w' = w_db w \<or>
    (\<exists>w1 w2 x. w_db w1 = w_db w \<and> w_tx w1 = Some (db_now E (w_stmt w)) \<and> w_log w1 = w_log w \<and>
       fn w1 = (Inr x, w2) \<and> w_db w' = w_db w2)"
proof (cases r)
  case (Inl e)
  with assms WithTx_InlD show ?thesis by blast
next
  case (Inr x)
  with assms show ?thesis by (metis WithTx_InrD)
qed

text \<open>
  Whatever a transaction returns, its body ran at most once; what the body sent to Kafka
  stays sent, also when its changes to the database are rolled back.
\<close>

lemma WithTx_body:
  assumes "WithTx E fn w = (r, w')"
  obtains (not_run) "w_db w' = w_db w" and "w_log w' = w_log w" and "\<exists>e. r = Inl e"
  | (run) w1 v w2 where "w_db w1 = w_db w" and "w_log w1 = w_log w" and "w_uuid w1 = w_uuid w"
      and "w_metrics w1 = w_metrics w" and "w_tx w1 = Some (db_now E (w_stmt w))"
      and "fn w1 = (v, w2)" and "w_log w' = w_log w2"
      and "w_db w' = w_db w \<or> w_db w' = w_db w2 \<and> (\<exists>x. v = Inr x)"
  using assms
proof (cases rule: WithTx_cases)
  case (no_begin e)
  with not_run show ?thesis by (simp add: begin_tx_Inl)
next
  case (rolled_back e w1 w2)
  then show ?thesis
    using run [of w1 "Inl e" w2] begin_tx_InrD [OF rolled_back(1)] by (simp add: rollback_tx_def)
next
  case (no_commit e x w1 w2)
  then show ?thesis
    using run [of w1 "Inr x" w2] begin_tx_InrD [OF no_commit(1)] commit_tx_Inl [OF no_commit(3)] by auto
next
  case (committed x w1 w2)
  then show ?thesis
    using run [of w1 "Inr x" w2] begin_tx_InrD [OF committed(1)] commit_tx_Inr [OF committed(3)] by auto
qed

lemma WithTx_NoFault:
  assumes "sql_fault E (w_stmt w) = NoFault" and "sql_fault E (w_stmt w2) = NoFault"
    and "fn (w\<lparr>w_stmt := Suc (w_stmt w), w_tx := Some (db_now E (w_stmt w))\<rparr>) = (Inr x, w2)"
  shows "WithTx E fn w = (Inr x, w2\<lparr>w_stmt := Suc (w_stmt w2), w_tx := None\<rparr>)"
  using assms by (simp add: WithTx_def begin_tx_def commit_tx_def Let_def)

lemma WithTx_db_step:
  assumes "\<And>w1 w2 x. w_tx w1 \<noteq> None \<Longrightarrow> fn w1 = (Inr x, w2) \<Longrightarrow> P (w_db w1) (w_db w2)"
    and "WithTx E fn w = (r, w')"
  shows "db_step P w w'"
  using WithTx_effect [OF assms(2)] assms(1) by (fastforce simp: db_step_def)

text \<open>The helpers of the world do not touch the database.\<close>

lemma NewString_iff [run_iff]:
  "NewString E w = (r, w') \<longleftrightarrow> r = Inr (uuid_New E (w_uuid w)) \<and> w' = w\<lparr>w_uuid := Suc (w_uuid w)\<rparr>"
  by (auto simp: NewString_def)

lemma Now_iff [run_iff]:
  "Now E w = (r, w') \<longleftrightarrow> r = Inr (time_Now E (w_clock w)) \<and> w' = w\<lparr>w_clock := Suc (w_clock w)\<rparr>"
  by (auto simp: Now_def)

lemma Inc_iff [run_iff]: "Inc n ls w = (r, w') \<longleftrightarrow> r = Inr () \<and> w' = bump_metric n ls w"
  by (simp add: Inc_def run_iff)

lemma bump_metric_frame [simp]:
  "w_db (bump_metric n ls w) = w_db w" "w_log (bump_metric n ls w) = w_log w" "w_tx (bump_metric n ls w) = w_tx w"
  "w_stmt (bump_metric n ls w) = w_stmt w" "w_uuid (bump_metric n ls w) = w_uuid w"
  by (simp_all add: bump_metric_def)

text \<open>The errors of statements and transactions: the faults, and what the statement refuses.\<close>

definition fault_errors :: "(error \<Rightarrow> bool) \<Rightarrow> ext \<Rightarrow> bool" where
  "fault_errors P E \<longleftrightarrow> (\<forall>n e. sql_fault E n = Failed e \<or> sql_fault E n = Lost e \<longrightarrow> P e)"

lemma fault_errorsD:
  assumes "fault_errors P E"
  shows "sql_fault E n = Failed e \<Longrightarrow> P e" and "sql_fault E n = Lost e \<Longrightarrow> P e"
  using assms by (auto simp: fault_errors_def)

lemma throws_exec [throws_rules]:
  assumes "fault_errors P E" and "\<And>t d x. q t d = Inl x \<Longrightarrow> P x"
  shows "throws P (exec E q)"
  using assms(2) fault_errorsD [OF assms(1)]
  by (auto simp: throws_def exec_def Let_def split: fault.splits sum.splits)

lemma throws_WithTx [throws_rules]:
  assumes "fault_errors P E" and "throws P fn"
  shows "throws P (WithTx E fn)"
proof -
  note fault = fault_errorsD [OF assms(1)]
  have "P e" if "WithTx E fn w = (Inl e, w')" for w e w'
    using that
  proof (cases rule: WithTx_cases)
    case (no_begin x)
    then show ?thesis by (auto simp: begin_tx_def Let_def dest: fault split: fault.splits)
  next
    case (rolled_back x w1 w2)
    then show ?thesis using throwsD [OF assms(2)] by simp
  next
    case (no_commit x y w1 w2)
    then show ?thesis by (auto simp: commit_tx_def Let_def dest: fault split: fault.splits)
  qed simp
  then show ?thesis by (simp add: throws_def)
qed

lemma throws_helpers [throws_rules]: "throws P (NewString E)" "throws P (Now E)" "throws P (Inc n ls)"
  by (simp_all add: throws_def run_iff)

end
