(* ===== verification/Queries.thy ===== *)
theory Queries
  imports Database
begin

text \<open>
  The SQL statements of \<^verbatim>\<open>internal/store/sqlc/*.sql.go\<close> as functions of \<^verbatim>\<open>NOW()\<close> and the database.
  The parameters \<^verbatim>\<open>$1, $2, ...\<close> of a statement are one tuple. An \<^verbatim>\<open>INSERT\<close> checks what the
  migrations demand in PostgreSQL's order: \<^verbatim>\<open>CHECK\<close> constraints, then unique indexes, then
  foreign keys. A \<^verbatim>\<open>:one\<close> statement without a row is \<^verbatim>\<open>pgx.ErrNoRows\<close>.

  Every table is an interpretation of \<open>insert_table\<close>, and of \<open>keyed_table\<close> where the program
  reads rows back by the key: an insert appends one row with a new key, a select finds the
  row with the key. What the services need of a table (a row read back after an insert, other
  rows undisturbed, keys distinct) is proved once in these locales.
\<close>

section \<open>Constraint violations\<close>

definition unique_violation :: "string \<Rightarrow> error" where
  "unique_violation name = PgError ''23505'' (''duplicate key value violates unique constraint '' @ name)"

definition foreign_key_violation :: "string \<Rightarrow> error" where
  "foreign_key_violation name = PgError ''23503'' (''violates foreign key constraint '' @ name)"

definition check_violation :: "string \<Rightarrow> error" where
  "check_violation name = PgError ''23514'' (''violates check constraint '' @ name)"

lemmas violation_defs = unique_violation_def foreign_key_violation_def check_violation_def

section \<open>The interface of a table\<close>

locale insert_table =
  fixes rows :: "db \<Rightarrow> 'r list"
    and key :: "'r \<Rightarrow> 'k"
    and ins :: "'p \<Rightarrow> time \<Rightarrow> db \<Rightarrow> error + ('r \<times> db)"
  assumes ins_appends: "ins p t d = Inr (r, d') \<Longrightarrow> rows d' = rows d @ [r]"
    and ins_new_key: "ins p t d = Inr (r, d') \<Longrightarrow> key r \<notin> key ` set (rows d)"
begin

lemma ins_distinct:
  "ins p t d = Inr (r, d') \<Longrightarrow> distinct (map key (rows d)) \<Longrightarrow> distinct (map key (rows d'))"
  using ins_appends ins_new_key by fastforce

lemma ins_member: "ins p t d = Inr (r, d') \<Longrightarrow> r \<in> set (rows d')"
  using ins_appends by simp

lemma ins_keeps: "ins p t d = Inr (r, d') \<Longrightarrow> set (rows d) \<subseteq> set (rows d')"
  using ins_appends by auto

end

locale keyed_table = insert_table +
  fixes sel :: "'k \<Rightarrow> time \<Rightarrow> db \<Rightarrow> error + ('r \<times> db)"
  assumes sel_find: "sel x t d =
    (case find (\<lambda>r. key r = x) (rows d) of None \<Rightarrow> Inl ErrNoRows | Some r \<Rightarrow> Inr (r, d))"
begin

lemma sel_InrD: "sel x t d = Inr (r, d') \<Longrightarrow> r \<in> set (rows d) \<and> key r = x \<and> d' = d"
  by (auto simp: sel_find split: option.splits dest: find_SomeD)

lemma sel_missing: "x \<notin> key ` set (rows d) \<Longrightarrow> sel x t d = Inl ErrNoRows"
  by (simp add: sel_find find_None_key [THEN iffD2])

lemma sel_InlD: "sel x t d = Inl e \<Longrightarrow> x \<notin> key ` set (rows d) \<and> e = ErrNoRows"
  by (auto simp: sel_find find_None_iff split: option.splits)

lemma sel_present:
  "distinct (map key (rows d)) \<Longrightarrow> r \<in> set (rows d) \<Longrightarrow> sel (key r) t d = Inr (r, d)"
  by (simp add: sel_find find_Some_key)

lemma sel_after_ins: "ins p t d = Inr (r, d') \<Longrightarrow> sel (key r) t' d' = Inr (r, d')"
  using ins_appends [of p t d r d'] ins_new_key [of p t d r d']
  by (simp add: sel_find find_append find_None_key [THEN iffD2])

lemma sel_other_after_ins:
  "ins p t d = Inr (r, d') \<Longrightarrow> x \<noteq> key r \<Longrightarrow> map_sum id fst (sel x t' d') = map_sum id fst (sel x t' d)"
  using ins_appends [of p t d r d']
  by (simp add: sel_find find_append split: option.splits)

end

section \<open>users.sql.go\<close>

fun sql_CreateUser :: "uuid \<times> string \<times> string \<times> string \<Rightarrow> User statement" where
  "sql_CreateUser (i, email, password_hash, role) now d =
     (if \<not> user_check role then Inl (check_violation ''users_role_check'')
      else if i \<in> User_ID ` set (tbl_users d) then Inl (unique_violation ''users_pkey'')
      else if email \<in> User_Email ` set (tbl_users d) then Inl (unique_violation ''users_email_key'')
      else
        let r = \<lparr>User_ID = i, User_Email = email, User_PasswordHash = password_hash,
                 User_Role = role, User_CreatedAt = now, User_UpdatedAt = now\<rparr>
        in Inr (r, d\<lparr>tbl_users := tbl_users d @ [r]\<rparr>))"

definition sql_GetUser :: "uuid \<Rightarrow> User statement" where
  "sql_GetUser i now d =
     (case find (\<lambda>r. User_ID r = i) (tbl_users d) of None \<Rightarrow> Inl ErrNoRows | Some r \<Rightarrow> Inr (r, d))"

definition sql_GetUserByEmail :: "string \<Rightarrow> User statement" where
  "sql_GetUserByEmail email now d =
     (case find (\<lambda>r. User_Email r = email) (tbl_users d) of
        None \<Rightarrow> Inl ErrNoRows | Some r \<Rightarrow> Inr (r, d))"

interpretation users_by_id: keyed_table tbl_users User_ID sql_CreateUser sql_GetUser
  by unfold_locales (auto simp: sql_GetUser_def Let_def split: if_splits elim!: sql_CreateUser.elims)

interpretation users_by_email: keyed_table tbl_users User_Email sql_CreateUser sql_GetUserByEmail
  by unfold_locales (auto simp: sql_GetUserByEmail_def Let_def split: if_splits elim!: sql_CreateUser.elims)

section \<open>\<open>refresh_tokens.sql.go\<close>\<close>

fun sql_CreateRefreshToken :: "ext \<Rightarrow> uuid \<times> uuid \<times> string \<times> time \<Rightarrow> RefreshToken statement" where
  "sql_CreateRefreshToken E (i, user, hash, expires) now d =
     (if i \<in> RefreshToken_ID ` set (tbl_refresh_tokens d)
        then Inl (unique_violation ''refresh_tokens_pkey'')
      else if hash \<in> RefreshToken_TokenHash ` set (tbl_refresh_tokens d)
        then Inl (unique_violation ''refresh_tokens_token_hash_unique'')
      else if user \<notin> User_ID ` set (tbl_users d)
        then Inl (foreign_key_violation ''refresh_tokens_user_id_fkey'')
      else
        let r = \<lparr>RefreshToken_ID = i, RefreshToken_UserID = user, RefreshToken_TokenHash = hash,
                 RefreshToken_ExpiresAt = pg_timestamp E expires, RefreshToken_RevokedAt = None,
                 RefreshToken_CreatedAt = now\<rparr>
        in Inr (r, d\<lparr>tbl_refresh_tokens := tbl_refresh_tokens d @ [r]\<rparr>))"

definition sql_GetRefreshTokenByHash :: "string \<Rightarrow> RefreshToken statement" where
  "sql_GetRefreshTokenByHash hash now d =
     (case find (\<lambda>r. RefreshToken_TokenHash r = hash) (tbl_refresh_tokens d) of
        None \<Rightarrow> Inl ErrNoRows | Some r \<Rightarrow> Inr (r, d))"

definition sql_RevokeRefreshToken :: "uuid \<Rightarrow> RefreshToken statement" where
  "sql_RevokeRefreshToken i now d =
     (case find (\<lambda>r. RefreshToken_ID r = i \<and> RefreshToken_RevokedAt r = None) (tbl_refresh_tokens d) of
        None \<Rightarrow> Inl ErrNoRows
      | Some r \<Rightarrow>
          Inr (r\<lparr>RefreshToken_RevokedAt := Some now\<rparr>,
            d\<lparr>tbl_refresh_tokens :=
              update_where (\<lambda>r. RefreshToken_ID r = i \<and> RefreshToken_RevokedAt r = None)
                (\<lambda>r. r\<lparr>RefreshToken_RevokedAt := Some now\<rparr>) (tbl_refresh_tokens d)\<rparr>))"

interpretation refresh_tokens_by_hash:
  keyed_table tbl_refresh_tokens RefreshToken_TokenHash "sql_CreateRefreshToken E"
    sql_GetRefreshTokenByHash for E
  by unfold_locales
    (auto simp: sql_GetRefreshTokenByHash_def Let_def split: if_splits elim!: sql_CreateRefreshToken.elims)

section \<open>\<open>orders.sql.go\<close>\<close>

fun sql_CreateOrder ::
    "uuid \<times> uuid \<times> string \<times> int \<times> string \<times> string option \<Rightarrow> Order statement" where
  "sql_CreateOrder (i, user, status, amount, currency, description) now d =
     (if \<not> order_check status amount then Inl (check_violation ''orders_check'')
      else if i \<in> Order_ID ` set (tbl_orders d) then Inl (unique_violation ''orders_pkey'')
      else if user \<notin> User_ID ` set (tbl_users d) then Inl (foreign_key_violation ''orders_user_id_fkey'')
      else
        let r = \<lparr>Order_ID = i, Order_UserID = user, Order_Status = status,
                 Order_AmountCents = amount, Order_Currency = currency,
                 Order_Description = description, Order_CreatedAt = now, Order_UpdatedAt = now\<rparr>
        in Inr (r, d\<lparr>tbl_orders := tbl_orders d @ [r]\<rparr>))"

definition sql_GetOrder :: "uuid \<Rightarrow> Order statement" where
  "sql_GetOrder i now d =
     (case find (\<lambda>r. Order_ID r = i) (tbl_orders d) of None \<Rightarrow> Inl ErrNoRows | Some r \<Rightarrow> Inr (r, d))"

text \<open>
  \<^verbatim>\<open>SELECT ... FOR UPDATE\<close> waits for the row's lock and then reads the row as last committed;
  what it returns is what \<open>sql_GetOrder\<close> returns at that moment.
\<close>

definition sql_GetOrderForUpdate :: "uuid \<Rightarrow> Order statement" where
  "sql_GetOrderForUpdate i now d =
     (case find (\<lambda>r. Order_ID r = i) (tbl_orders d) of None \<Rightarrow> Inl ErrNoRows | Some r \<Rightarrow> Inr (r, d))"

definition sql_ListOrders :: "Order list statement" where
  "sql_ListOrders now d = Inr (sort_key (\<lambda>r. - Order_CreatedAt r) (tbl_orders d), d)"

definition sql_ListOrdersByUser :: "uuid \<Rightarrow> Order list statement" where
  "sql_ListOrdersByUser user now d =
     Inr (sort_key (\<lambda>r. - Order_CreatedAt r) (filter (\<lambda>r. Order_UserID r = user) (tbl_orders d)), d)"

definition set_status :: "string \<Rightarrow> time \<Rightarrow> Order \<Rightarrow> Order" where
  "set_status status now r = r\<lparr>Order_Status := status, Order_UpdatedAt := now\<rparr>"

definition sql_UpdateOrderStatus :: "uuid \<Rightarrow> string \<Rightarrow> Order statement" where
  "sql_UpdateOrderStatus i status now d =
     (case find (\<lambda>r. Order_ID r = i) (tbl_orders d) of
        None \<Rightarrow> Inl ErrNoRows
      | Some r \<Rightarrow>
          if \<not> order_check status (Order_AmountCents r) then Inl (check_violation ''orders_status_check'')
          else Inr (set_status status now r,
            d\<lparr>tbl_orders := update_where (\<lambda>r. Order_ID r = i) (set_status status now) (tbl_orders d)\<rparr>))"

interpretation orders_by_id: keyed_table tbl_orders Order_ID sql_CreateOrder sql_GetOrder
  by unfold_locales (auto simp: sql_GetOrder_def Let_def split: if_splits elim!: sql_CreateOrder.elims)

interpretation orders_for_update: keyed_table tbl_orders Order_ID sql_CreateOrder sql_GetOrderForUpdate
  by unfold_locales (auto simp: sql_GetOrderForUpdate_def)

lemma set_status_simps [simp]:
  "Order_ID (set_status s t r) = Order_ID r" "Order_UserID (set_status s t r) = Order_UserID r"
  "Order_Status (set_status s t r) = s" "Order_AmountCents (set_status s t r) = Order_AmountCents r"
  "Order_Currency (set_status s t r) = Order_Currency r"
  "Order_CreatedAt (set_status s t r) = Order_CreatedAt r"
  by (simp_all add: set_status_def)

section \<open>\<open>payments.sql.go\<close>\<close>

fun sql_CreatePayment ::
    "uuid \<times> uuid \<times> string \<times> int \<times> string \<times> string option \<times> string option \<Rightarrow> Payment statement" where
  "sql_CreatePayment (i, order, status, amount, provider, provider_ref, failure_reason) now d =
     (if \<not> payment_check status amount then Inl (check_violation ''payments_check'')
      else if i \<in> Payment_ID ` set (tbl_payments d) then Inl (unique_violation ''payments_pkey'')
      else if order \<notin> Order_ID ` set (tbl_orders d) then Inl (foreign_key_violation ''payments_order_id_fkey'')
      else
        let r = \<lparr>Payment_ID = i, Payment_OrderID = order, Payment_Status = status,
                 Payment_AmountCents = amount, Payment_Provider = provider,
                 Payment_ProviderRef = provider_ref, Payment_FailureReason = failure_reason,
                 Payment_CreatedAt = now, Payment_UpdatedAt = now\<rparr>
        in Inr (r, d\<lparr>tbl_payments := tbl_payments d @ [r]\<rparr>))"

definition sql_GetPayment :: "uuid \<Rightarrow> Payment statement" where
  "sql_GetPayment i now d =
     (case find (\<lambda>r. Payment_ID r = i) (tbl_payments d) of
        None \<Rightarrow> Inl ErrNoRows | Some r \<Rightarrow> Inr (r, d))"

interpretation payments_by_id: keyed_table tbl_payments Payment_ID sql_CreatePayment sql_GetPayment
  by unfold_locales (auto simp: sql_GetPayment_def Let_def split: if_splits elim!: sql_CreatePayment.elims)

section \<open>\<open>idempotency.sql.go\<close>\<close>

fun sql_CreateIdempotencyKey :: "ext \<Rightarrow> uuid \<times> uuid \<times> string \<times> string \<times> string \<times> string \<times> json \<times>
    int option \<times> string option \<times> uuid option \<Rightarrow> IdempotencyKey statement" where
  "sql_CreateIdempotencyKey E (i, user, k, method, path, hash, body, code, rtype, rid) now d =
     (if i \<in> IdempotencyKey_ID ` set (tbl_idempotency_keys d)
        then Inl (unique_violation ''idempotency_keys_pkey'')
      else if (user, k) \<in> idem_key ` set (tbl_idempotency_keys d)
        then Inl (unique_violation ''idempotency_keys_user_key_unique'')
      else if user \<notin> User_ID ` set (tbl_users d)
        then Inl (foreign_key_violation ''idempotency_keys_user_id_fkey'')
      else
        let r = \<lparr>IdempotencyKey_ID = i, IdempotencyKey_UserID = user, IdempotencyKey_Key = k,
                 IdempotencyKey_Method = method, IdempotencyKey_Path = path,
                 IdempotencyKey_RequestHash = hash, IdempotencyKey_ResponseBody = jsonb E body,
                 IdempotencyKey_StatusCode = code, IdempotencyKey_ResourceType = rtype,
                 IdempotencyKey_ResourceID = rid, IdempotencyKey_CreatedAt = now\<rparr>
        in Inr (r, d\<lparr>tbl_idempotency_keys := tbl_idempotency_keys d @ [r]\<rparr>))"

definition sql_GetIdempotencyKey :: "uuid \<times> string \<Rightarrow> IdempotencyKey statement" where
  "sql_GetIdempotencyKey uk now d =
     (case find (\<lambda>r. idem_key r = uk) (tbl_idempotency_keys d) of
        None \<Rightarrow> Inl ErrNoRows | Some r \<Rightarrow> Inr (r, d))"

interpretation idempotency_keys:
  keyed_table tbl_idempotency_keys idem_key "sql_CreateIdempotencyKey E" sql_GetIdempotencyKey for E
  by unfold_locales
    (auto simp: sql_GetIdempotencyKey_def Let_def split: if_splits elim!: sql_CreateIdempotencyKey.elims)

section \<open>\<open>outbox.sql.go\<close>\<close>

fun sql_CreateOutboxEvent ::
    "ext \<Rightarrow> uuid \<times> string \<times> uuid \<times> uuid \<times> string \<times> json \<Rightarrow> OutboxEvent statement" where
  "sql_CreateOutboxEvent E (i, aggregate_type, aggregate_id, partition_key, event_type, payload) now d =
     (if \<not> outbox_check aggregate_type event_type
        then Inl (check_violation ''outbox_events_event_aggregate_check'')
      else if i \<in> OutboxEvent_ID ` set (tbl_outbox_events d)
        then Inl (unique_violation ''outbox_events_pkey'')
      else
        let r = \<lparr>OutboxEvent_ID = i, OutboxEvent_AggregateType = aggregate_type,
                 OutboxEvent_AggregateID = aggregate_id, OutboxEvent_EventType = event_type,
                 OutboxEvent_Payload = jsonb E payload, OutboxEvent_PublishedAt = None,
                 OutboxEvent_Attempt = 0, OutboxEvent_LastError = None,
                 OutboxEvent_CreatedAt = now, OutboxEvent_PartitionKey = partition_key\<rparr>
        in Inr (r, d\<lparr>tbl_outbox_events := tbl_outbox_events d @ [r]\<rparr>))"

text \<open>
  \<^verbatim>\<open>FOR UPDATE SKIP LOCKED\<close> passes over the rows another transaction holds; \<^verbatim>\<open>LIMIT\<close> counts the
  rows that are left.
\<close>

definition claimable :: "(uuid \<Rightarrow> bool) \<Rightarrow> OutboxEvent list \<Rightarrow> OutboxEvent list" where
  "claimable locked rs =
     filter (\<lambda>e. \<not> locked (OutboxEvent_ID e))
       (sort_key OutboxEvent_CreatedAt (filter (\<lambda>e. OutboxEvent_PublishedAt e = None) rs))"

definition sql_ClaimOutboxEvents :: "(uuid \<Rightarrow> bool) \<Rightarrow> int \<Rightarrow> OutboxEvent list statement" where
  "sql_ClaimOutboxEvents locked limit now d =
     (if limit < 0 then Inl (PgError ''2201W'' ''LIMIT must not be negative'')
      else Inr (take (nat limit) (claimable locked (tbl_outbox_events d)), d))"

definition mark_published :: "time \<Rightarrow> OutboxEvent \<Rightarrow> OutboxEvent" where
  "mark_published now r = r\<lparr>OutboxEvent_PublishedAt := Some now, OutboxEvent_LastError := None\<rparr>"

definition sql_MarkOutboxEventPublished :: "uuid \<Rightarrow> OutboxEvent statement" where
  "sql_MarkOutboxEventPublished i now d =
     (case find (\<lambda>r. OutboxEvent_ID r = i) (tbl_outbox_events d) of
        None \<Rightarrow> Inl ErrNoRows
      | Some r \<Rightarrow> Inr (mark_published now r,
          d\<lparr>tbl_outbox_events :=
            update_where (\<lambda>r. OutboxEvent_ID r = i) (mark_published now) (tbl_outbox_events d)\<rparr>))"

definition mark_failed :: "string option \<Rightarrow> OutboxEvent \<Rightarrow> OutboxEvent" where
  "mark_failed err r = r\<lparr>OutboxEvent_Attempt := OutboxEvent_Attempt r + 1, OutboxEvent_LastError := err\<rparr>"

text \<open>\<^verbatim>\<open>attempt + 1\<close> on an \<^verbatim>\<open>INT\<close> column does not wrap: PostgreSQL refuses it.\<close>

definition sql_MarkOutboxEventFailed :: "uuid \<Rightarrow> string option \<Rightarrow> OutboxEvent statement" where
  "sql_MarkOutboxEventFailed i err now d =
     (case find (\<lambda>r. OutboxEvent_ID r = i) (tbl_outbox_events d) of
        None \<Rightarrow> Inl ErrNoRows
      | Some r \<Rightarrow>
          if OutboxEvent_Attempt r + 1 \<ge> 2 ^ 31 then Inl (PgError ''22003'' ''integer out of range'')
          else Inr (mark_failed err r,
            d\<lparr>tbl_outbox_events :=
              update_where (\<lambda>r. OutboxEvent_ID r = i) (mark_failed err) (tbl_outbox_events d)\<rparr>))"

interpretation outbox: insert_table tbl_outbox_events OutboxEvent_ID "sql_CreateOutboxEvent E" for E
  by unfold_locales (auto simp: Let_def split: if_splits elim!: sql_CreateOutboxEvent.elims)

lemma mark_published_simps [simp]:
  "OutboxEvent_ID (mark_published t r) = OutboxEvent_ID r"
  "OutboxEvent_AggregateType (mark_published t r) = OutboxEvent_AggregateType r"
  "OutboxEvent_AggregateID (mark_published t r) = OutboxEvent_AggregateID r"
  "OutboxEvent_EventType (mark_published t r) = OutboxEvent_EventType r"
  "OutboxEvent_Payload (mark_published t r) = OutboxEvent_Payload r"
  "OutboxEvent_PublishedAt (mark_published t r) = Some t"
  "OutboxEvent_Attempt (mark_published t r) = OutboxEvent_Attempt r"
  "OutboxEvent_CreatedAt (mark_published t r) = OutboxEvent_CreatedAt r"
  "OutboxEvent_PartitionKey (mark_published t r) = OutboxEvent_PartitionKey r"
  by (simp_all add: mark_published_def)

lemma mark_failed_simps [simp]:
  "OutboxEvent_ID (mark_failed e r) = OutboxEvent_ID r"
  "OutboxEvent_AggregateType (mark_failed e r) = OutboxEvent_AggregateType r"
  "OutboxEvent_AggregateID (mark_failed e r) = OutboxEvent_AggregateID r"
  "OutboxEvent_EventType (mark_failed e r) = OutboxEvent_EventType r"
  "OutboxEvent_Payload (mark_failed e r) = OutboxEvent_Payload r"
  "OutboxEvent_PublishedAt (mark_failed e r) = OutboxEvent_PublishedAt r"
  "OutboxEvent_Attempt (mark_failed e r) = OutboxEvent_Attempt r + 1"
  "OutboxEvent_LastError (mark_failed e r) = e"
  "OutboxEvent_CreatedAt (mark_failed e r) = OutboxEvent_CreatedAt r"
  "OutboxEvent_PartitionKey (mark_failed e r) = OutboxEvent_PartitionKey r"
  by (simp_all add: mark_failed_def)

section \<open>\<open>processed_events.sql.go\<close> and \<open>notification_deliveries.sql.go\<close>\<close>

text \<open>\<^verbatim>\<open>ON CONFLICT DO NOTHING\<close>: a row that is already there gives no row back.\<close>

definition sql_TryCreateProcessedEvent :: "uuid \<times> string \<Rightarrow> ProcessedEvent statement" where
  "sql_TryCreateProcessedEvent ec now d =
     (if ec \<in> processed_key ` set (tbl_processed_events d) then Inl ErrNoRows
      else
        let r = \<lparr>ProcessedEvent_EventID = fst ec, ProcessedEvent_ConsumerName = snd ec,
                 ProcessedEvent_ProcessedAt = now\<rparr>
        in Inr (r, d\<lparr>tbl_processed_events := tbl_processed_events d @ [r]\<rparr>))"

fun sql_CreateNotificationDelivery ::
    "uuid \<times> uuid \<times> string \<times> string \<times> string \<Rightarrow> NotificationDelivery statement" where
  "sql_CreateNotificationDelivery (i, event, channel, recipient, status) now d =
     (if \<not> notification_check status
        then Inl (check_violation ''notification_deliveries_status_check'')
      else if i \<in> NotificationDelivery_ID ` set (tbl_notification_deliveries d)
        then Inl (unique_violation ''notification_deliveries_pkey'')
      else
        let r = \<lparr>NotificationDelivery_ID = i, NotificationDelivery_EventID = event,
                 NotificationDelivery_Channel = channel, NotificationDelivery_Recipient = recipient,
                 NotificationDelivery_Status = status, NotificationDelivery_Attempt = 0,
                 NotificationDelivery_LastError = None, NotificationDelivery_CreatedAt = now,
                 NotificationDelivery_UpdatedAt = now\<rparr>
        in Inr (r, d\<lparr>tbl_notification_deliveries := tbl_notification_deliveries d @ [r]\<rparr>))"

interpretation processed:
  insert_table tbl_processed_events processed_key sql_TryCreateProcessedEvent
  by unfold_locales (auto simp: sql_TryCreateProcessedEvent_def Let_def split: if_splits)

interpretation notifications:
  insert_table tbl_notification_deliveries NotificationDelivery_ID sql_CreateNotificationDelivery
  by unfold_locales (auto simp: Let_def split: if_splits elim!: sql_CreateNotificationDelivery.elims)

end
