(* ===== verification/Store.thy ===== *)
theory Store
  imports Queries
begin

text \<open>
  \<^verbatim>\<open>internal/store/store.go\<close>: the data access layer. Each method scans the identifiers it is given
  as text, turns empty texts into nulls and runs one statement. A text that is no UUID is an
  error before any statement is sent.

  The lemmas give, per method, what its success says of the statement it ran
  (\<open>store_InrD\<close> rules), and that a method that only reads never changes the database.
\<close>

section \<open>Parameters\<close>

record store_CreateUserParams =
  scu_ID :: string
  scu_Email :: string
  scu_PasswordHash :: string
  scu_Role :: string

record store_CreateRefreshTokenParams =
  scr_ID :: string
  scr_UserID :: string
  scr_TokenHash :: string
  scr_ExpiresAt :: time

record store_CreateOrderParams =
  sco_ID :: string
  sco_UserID :: string
  sco_Status :: string
  sco_AmountCents :: int
  sco_Currency :: string
  sco_Description :: string

record store_CreateIdempotencyKeyParams =
  sci_ID :: string
  sci_UserID :: string
  sci_Key :: string
  sci_Method :: string
  sci_Path :: string
  sci_RequestHash :: string
  sci_ResponseBody :: json
  sci_StatusCode :: int
  sci_ResourceType :: string
  sci_ResourceID :: string

record store_CreateOutboxEventParams =
  sce_ID :: string
  sce_AggregateType :: string
  sce_AggregateID :: string
  sce_PartitionKey :: string
  sce_EventType :: string
  sce_Payload :: json

record store_CreatePaymentParams =
  scp_ID :: string
  scp_OrderID :: string
  scp_Status :: string
  scp_AmountCents :: int
  scp_Provider :: string
  scp_ProviderRef :: string
  scp_FailureReason :: string

record store_CreateNotificationDeliveryParams =
  scn_ID :: string
  scn_EventID :: string
  scn_Channel :: string
  scn_Recipient :: string
  scn_Status :: string

definition Scan :: "ext \<Rightarrow> string \<Rightarrow> ('z, uuid) io" where
  "Scan E s = (case uuid_Scan E s of None \<Rightarrow> throwM (ErrLib ''cannot scan UUID'') | Some u \<Rightarrow> returnM u)"

section \<open>Users and refresh tokens\<close>

definition store_CreateUser :: "ext \<Rightarrow> store_CreateUserParams \<Rightarrow> ('z, User) io" where
  "store_CreateUser E params =
     bindM (Scan E (scu_ID params)) (\<lambda>i.
     exec E (sql_CreateUser (i, scu_Email params, scu_PasswordHash params, scu_Role params)))"

definition store_GetUserByEmail :: "ext \<Rightarrow> string \<Rightarrow> ('z, User) io" where
  "store_GetUserByEmail E email = exec E (sql_GetUserByEmail email)"

definition store_GetUser :: "ext \<Rightarrow> string \<Rightarrow> ('z, User) io" where
  "store_GetUser E i = bindM (Scan E i) (\<lambda>u. exec E (sql_GetUser u))"

definition store_CreateRefreshToken ::
    "ext \<Rightarrow> store_CreateRefreshTokenParams \<Rightarrow> ('z, RefreshToken) io" where
  "store_CreateRefreshToken E params =
     bindM (Scan E (scr_ID params)) (\<lambda>i.
     bindM (Scan E (scr_UserID params)) (\<lambda>user.
     exec E (sql_CreateRefreshToken E (i, user, scr_TokenHash params, scr_ExpiresAt params))))"

definition store_GetRefreshTokenByHash :: "ext \<Rightarrow> string \<Rightarrow> ('z, RefreshToken) io" where
  "store_GetRefreshTokenByHash E hash = exec E (sql_GetRefreshTokenByHash hash)"

definition store_RevokeRefreshToken :: "ext \<Rightarrow> string \<Rightarrow> ('z, RefreshToken) io" where
  "store_RevokeRefreshToken E i = bindM (Scan E i) (\<lambda>u. exec E (sql_RevokeRefreshToken u))"

section \<open>Orders and payments\<close>

definition store_CreateOrder :: "ext \<Rightarrow> store_CreateOrderParams \<Rightarrow> ('z, Order) io" where
  "store_CreateOrder E params =
     bindM (Scan E (sco_ID params)) (\<lambda>i.
     bindM (Scan E (sco_UserID params)) (\<lambda>user.
     exec E (sql_CreateOrder (i, user, sco_Status params, sco_AmountCents params,
       sco_Currency params, pg_Text (sco_Description params)))))"

definition store_GetOrder :: "ext \<Rightarrow> string \<Rightarrow> ('z, Order) io" where
  "store_GetOrder E i = bindM (Scan E i) (\<lambda>u. exec E (sql_GetOrder u))"

definition store_ListOrdersByUser :: "ext \<Rightarrow> string \<Rightarrow> ('z, Order list) io" where
  "store_ListOrdersByUser E user = bindM (Scan E user) (\<lambda>u. exec E (sql_ListOrdersByUser u))"

definition store_ListOrders :: "ext \<Rightarrow> ('z, Order list) io" where
  "store_ListOrders E = exec E sql_ListOrders"

definition store_GetOrderForUpdate :: "ext \<Rightarrow> string \<Rightarrow> ('z, Order) io" where
  "store_GetOrderForUpdate E i = bindM (Scan E i) (\<lambda>u. exec E (sql_GetOrderForUpdate u))"

definition store_UpdateOrderStatus :: "ext \<Rightarrow> string \<Rightarrow> string \<Rightarrow> ('z, Order) io" where
  "store_UpdateOrderStatus E i status = bindM (Scan E i) (\<lambda>u. exec E (sql_UpdateOrderStatus u status))"

definition store_CreatePayment :: "ext \<Rightarrow> store_CreatePaymentParams \<Rightarrow> ('z, Payment) io" where
  "store_CreatePayment E params =
     bindM (Scan E (scp_ID params)) (\<lambda>i.
     bindM (Scan E (scp_OrderID params)) (\<lambda>order.
     exec E (sql_CreatePayment (i, order, scp_Status params, scp_AmountCents params,
       scp_Provider params, pg_Text (scp_ProviderRef params), pg_Text (scp_FailureReason params)))))"

definition store_GetPayment :: "ext \<Rightarrow> string \<Rightarrow> ('z, Payment) io" where
  "store_GetPayment E i = bindM (Scan E i) (\<lambda>u. exec E (sql_GetPayment u))"

section \<open>Idempotency keys\<close>

definition store_CreateIdempotencyKey ::
    "ext \<Rightarrow> store_CreateIdempotencyKeyParams \<Rightarrow> ('z, IdempotencyKey) io" where
  "store_CreateIdempotencyKey E params =
     bindM (Scan E (sci_ID params)) (\<lambda>i.
     bindM (Scan E (sci_UserID params)) (\<lambda>user.
     bindM (if sci_ResourceID params \<noteq> '''' then bindM (Scan E (sci_ResourceID params)) (\<lambda>r. returnM (Some r))
            else returnM None) (\<lambda>resource.
     exec E (sql_CreateIdempotencyKey E (i, user, sci_Key params, sci_Method params,
       sci_Path params, sci_RequestHash params, sci_ResponseBody params,
       pg_Int4 (sci_StatusCode params), pg_Text (sci_ResourceType params), resource)))))"

definition store_GetIdempotencyKey :: "ext \<Rightarrow> string \<Rightarrow> string \<Rightarrow> ('z, IdempotencyKey) io" where
  "store_GetIdempotencyKey E user k =
     bindM (Scan E user) (\<lambda>u. exec E (sql_GetIdempotencyKey (u, k)))"

section \<open>Outbox\<close>

definition store_CreateOutboxEvent ::
    "ext \<Rightarrow> store_CreateOutboxEventParams \<Rightarrow> ('z, OutboxEvent) io" where
  "store_CreateOutboxEvent E params =
     bindM (Scan E (sce_ID params)) (\<lambda>i.
     bindM (Scan E (sce_AggregateID params)) (\<lambda>aggregate.
     bindM (Scan E (sce_PartitionKey params)) (\<lambda>partition.
     exec E (sql_CreateOutboxEvent E (i, sce_AggregateType params, aggregate, partition,
       sce_EventType params, sce_Payload params)))))"

definition store_ClaimOutboxEvents :: "ext \<Rightarrow> int \<Rightarrow> ('z, OutboxEvent list) io" where
  "store_ClaimOutboxEvents E limit =
     (\<lambda>w. exec E (sql_ClaimOutboxEvents (skip_locked E (w_stmt w)) limit) w)"

definition store_MarkOutboxEventPublished :: "ext \<Rightarrow> string \<Rightarrow> ('z, OutboxEvent) io" where
  "store_MarkOutboxEventPublished E i =
     bindM (Scan E i) (\<lambda>u. exec E (sql_MarkOutboxEventPublished u))"

definition store_MarkOutboxEventFailed :: "ext \<Rightarrow> string \<Rightarrow> string \<Rightarrow> ('z, OutboxEvent) io" where
  "store_MarkOutboxEventFailed E i lastError =
     bindM (Scan E i) (\<lambda>u. exec E (sql_MarkOutboxEventFailed u (pg_Text lastError)))"

section \<open>Processed events and notifications\<close>

definition store_TryCreateProcessedEvent :: "ext \<Rightarrow> string \<Rightarrow> string \<Rightarrow> ('z, ProcessedEvent) io" where
  "store_TryCreateProcessedEvent E event consumer =
     bindM (Scan E event) (\<lambda>u. exec E (sql_TryCreateProcessedEvent (u, consumer)))"

definition store_CreateNotificationDelivery ::
    "ext \<Rightarrow> store_CreateNotificationDeliveryParams \<Rightarrow> ('z, NotificationDelivery) io" where
  "store_CreateNotificationDelivery E params =
     bindM (Scan E (scn_ID params)) (\<lambda>i.
     bindM (Scan E (scn_EventID params)) (\<lambda>event.
     exec E (sql_CreateNotificationDelivery (i, event, scn_Channel params, scn_Recipient params,
       scn_Status params))))"

lemmas store_defs = store_CreateUser_def store_GetUserByEmail_def store_GetUser_def
  store_CreateRefreshToken_def store_GetRefreshTokenByHash_def store_RevokeRefreshToken_def
  store_CreateOrder_def store_GetOrder_def store_ListOrdersByUser_def store_ListOrders_def
  store_GetOrderForUpdate_def store_UpdateOrderStatus_def store_CreatePayment_def
  store_GetPayment_def store_CreateIdempotencyKey_def store_GetIdempotencyKey_def
  store_CreateOutboxEvent_def store_ClaimOutboxEvents_def store_MarkOutboxEventPublished_def
  store_MarkOutboxEventFailed_def store_TryCreateProcessedEvent_def
  store_CreateNotificationDelivery_def

section \<open>What a successful call says\<close>

lemma Scan_Inr [run_iff]: "Scan E s w = (Inr u, w') \<longleftrightarrow> uuid_Scan E s = Some u \<and> w' = w"
  by (auto simp: Scan_def comp_defs split: option.splits)

lemma Scan_Inl [run_iff]:
  "Scan E s w = (Inl e, w') \<longleftrightarrow> uuid_Scan E s = None \<and> e = ErrLib ''cannot scan UUID'' \<and> w' = w"
  by (auto simp: Scan_def comp_defs split: option.splits)

lemma Scan_run: "uuid_Scan E s = Some u \<Longrightarrow> Scan E s w = (Inr u, w)"
  by (simp add: run_iff)

text \<open>\<open>ran E q w x w'\<close>: the statement \<open>q\<close> was carried out in \<open>w\<close>, gave \<open>x\<close> and left \<open>w'\<close>.\<close>

definition ran :: "ext \<Rightarrow> 'a statement \<Rightarrow> 'z world_scheme \<Rightarrow> 'a \<Rightarrow> 'z world_scheme \<Rightarrow> bool" where
  "ran E q w x w' \<longleftrightarrow> q (stmt_time E w) (w_db w) = Inr (x, w_db w') \<and> w_tx w' = w_tx w \<and>
     w_log w' = w_log w \<and> w_uuid w' = w_uuid w \<and> w_metrics w' = w_metrics w"

lemma exec_ran: "exec E q w = (Inr x, w') \<Longrightarrow> ran E q w x w'"
  by (simp add: ran_def exec_InrD)

lemma store_CreateOrder_InrD:
  assumes "store_CreateOrder E p w = (Inr r, w')"
  obtains i u where "uuid_Scan E (sco_ID p) = Some i" and "uuid_Scan E (sco_UserID p) = Some u"
    and "ran E (sql_CreateOrder (i, u, sco_Status p, sco_AmountCents p, sco_Currency p,
      pg_Text (sco_Description p))) w r w'"
  using assms by (auto simp: store_CreateOrder_def run_iff dest: exec_ran)

lemma store_CreatePayment_InrD:
  assumes "store_CreatePayment E p w = (Inr r, w')"
  obtains i u where "uuid_Scan E (scp_ID p) = Some i" and "uuid_Scan E (scp_OrderID p) = Some u"
    and "ran E (sql_CreatePayment (i, u, scp_Status p, scp_AmountCents p, scp_Provider p,
      pg_Text (scp_ProviderRef p), pg_Text (scp_FailureReason p))) w r w'"
  using assms by (auto simp: store_CreatePayment_def run_iff dest: exec_ran)

lemma store_CreateOutboxEvent_InrD:
  assumes "store_CreateOutboxEvent E p w = (Inr r, w')"
  obtains i a k where "uuid_Scan E (sce_ID p) = Some i" and "uuid_Scan E (sce_AggregateID p) = Some a"
    and "uuid_Scan E (sce_PartitionKey p) = Some k"
    and "ran E (sql_CreateOutboxEvent E (i, sce_AggregateType p, a, k, sce_EventType p,
      sce_Payload p)) w r w'"
  using assms by (auto simp: store_CreateOutboxEvent_def run_iff dest: exec_ran)

lemma store_CreateIdempotencyKey_InrD:
  assumes "store_CreateIdempotencyKey E p w = (Inr r, w')" and "sci_ResourceID p \<noteq> ''''"
  obtains i u v where "uuid_Scan E (sci_ID p) = Some i" and "uuid_Scan E (sci_UserID p) = Some u"
    and "uuid_Scan E (sci_ResourceID p) = Some v"
    and "ran E (sql_CreateIdempotencyKey E (i, u, sci_Key p, sci_Method p, sci_Path p,
      sci_RequestHash p, sci_ResponseBody p, pg_Int4 (sci_StatusCode p),
      pg_Text (sci_ResourceType p), Some v)) w r w'"
  using assms by (auto simp: store_CreateIdempotencyKey_def run_iff dest: exec_ran)

lemma store_UpdateOrderStatus_InrD:
  assumes "store_UpdateOrderStatus E i s w = (Inr r, w')"
  obtains u where "uuid_Scan E i = Some u" and "ran E (sql_UpdateOrderStatus u s) w r w'"
  using assms by (auto simp: store_UpdateOrderStatus_def run_iff dest: exec_ran)

text \<open>Reading: what is found, and that nothing changes.\<close>

lemma store_GetOrder_InrD:
  assumes "store_GetOrder E i w = (Inr r, w')"
  shows "uuid_Scan E i = Some (Order_ID r) \<and> r \<in> set (tbl_orders (w_db w)) \<and> w_db w' = w_db w"
  using assms
  by (auto simp: store_GetOrder_def run_iff dest!: exec_InrD(1) orders_by_id.sel_InrD)

lemma store_GetOrderForUpdate_InrD:
  assumes "store_GetOrderForUpdate E i w = (Inr r, w')"
  shows "uuid_Scan E i = Some (Order_ID r) \<and> r \<in> set (tbl_orders (w_db w)) \<and>
    find (\<lambda>x. Order_ID x = Order_ID r) (tbl_orders (w_db w)) = Some r \<and> w_db w' = w_db w \<and>
    w_tx w' = w_tx w \<and> w_uuid w' = w_uuid w \<and> w_log w' = w_log w \<and> w_metrics w' = w_metrics w"
  using assms
  by (auto simp: store_GetOrderForUpdate_def run_iff ran_def sql_GetOrderForUpdate_def
      split: option.splits dest!: exec_ran dest: find_SomeD find_key_self)

lemma store_GetPayment_InrD:
  assumes "store_GetPayment E i w = (Inr r, w')"
  shows "uuid_Scan E i = Some (Payment_ID r) \<and> r \<in> set (tbl_payments (w_db w)) \<and> w_db w' = w_db w"
  using assms
  by (auto simp: store_GetPayment_def run_iff dest!: exec_InrD(1) payments_by_id.sel_InrD)

lemma store_GetIdempotencyKey_InrD:
  assumes "store_GetIdempotencyKey E u k w = (Inr r, w')"
  shows "uuid_Scan E u = Some (IdempotencyKey_UserID r) \<and> IdempotencyKey_Key r = k \<and>
    r \<in> set (tbl_idempotency_keys (w_db w)) \<and> w_db w' = w_db w"
  using assms
  by (auto simp: store_GetIdempotencyKey_def run_iff dest!: exec_InrD(1) idempotency_keys.sel_InrD)

definition same_db :: "'z world_scheme \<Rightarrow> 'z world_scheme \<Rightarrow> bool" where
  "same_db w w' \<longleftrightarrow> w_db w' = w_db w"

lemma transp_same_db: "transp same_db" and reflp_same_db: "reflp same_db"
  by (auto simp: same_db_def transp_def reflp_def)

lemma keeps_exec_same_db:
  "(\<And>t d x d'. q t d = Inr (x, d') \<Longrightarrow> d' = d) \<Longrightarrow> keeps same_db (exec E q)"
  by (rule keepsI) (unfold same_db_def, rule exec_read_only)

lemma keeps_Scan [keeps_rules]: "keeps same_db (Scan E s)"
  by (auto simp: Scan_def intro!: keeps_rules reflp_same_db split: option.splits)

lemma keeps_reads [keeps_rules]:
  "keeps same_db (store_GetOrder E i)" "keeps same_db (store_GetOrderForUpdate E i)"
  "keeps same_db (store_GetPayment E i)" "keeps same_db (store_GetIdempotencyKey E i k)"
  "keeps same_db (store_GetUser E i)" "keeps same_db (store_GetUserByEmail E i)"
  "keeps same_db (store_GetRefreshTokenByHash E i)" "keeps same_db (store_ListOrders E)"
  "keeps same_db (store_ListOrdersByUser E i)"
  unfolding store_defs
  by (intro keeps_rules transp_same_db keeps_exec_same_db;
      auto dest: orders_by_id.sel_InrD orders_for_update.sel_InrD payments_by_id.sel_InrD
        idempotency_keys.sel_InrD users_by_id.sel_InrD users_by_email.sel_InrD
        refresh_tokens_by_hash.sel_InrD simp: sql_ListOrders_def sql_ListOrdersByUser_def)+

lemma keeps_ClaimOutboxEvents [keeps_rules]: "keeps same_db (store_ClaimOutboxEvents E l)"
proof (rule keepsI)
  fix w r w' assume "store_ClaimOutboxEvents E l w = (r, w')"
  then have "exec E (sql_ClaimOutboxEvents (skip_locked E (w_stmt w)) l) w = (r, w')"
    by (simp add: store_ClaimOutboxEvents_def)
  then show "same_db w w'"
    unfolding same_db_def
    by (rule exec_read_only [rotated]) (auto simp: sql_ClaimOutboxEvents_def split: if_splits)
qed

lemma same_dbD: "keeps same_db m \<Longrightarrow> m w = (r, w') \<Longrightarrow> w_db w' = w_db w"
  by (drule (1) keepsD) (simp add: same_db_def)

text \<open>
  The effect of an operation built from reads around one transaction: the reads leave the
  database alone, the transaction leaves it alone or makes the step its body makes.
\<close>

lemma same_db_db_step: "keeps same_db m \<Longrightarrow> keeps (db_step P) m"
  by (auto simp: keeps_def same_db_def db_step_def)

lemma db_step_after_reads:
  assumes "keeps same_db m" and "\<And>x. keeps (db_step P) (f x)"
  shows "keeps (db_step P) (bindM m f)"
proof (rule keepsI)
  fix w r w' assume run: "bindM m f w = (r, w')"
  obtain v w1 where m: "m w = (v, w1)" by (cases "m w")
  note w1 = same_dbD [OF assms(1) m]
  show "db_step P w w'"
  proof (cases v)
    case (Inl e)
    with run m w1 show ?thesis by (simp add: run_forward db_step_def)
  next
    case (Inr x)
    with run m have "f x w1 = (r, w')" by (simp add: run_forward)
    with assms(2) [of x] have "db_step P w1 w'" by (rule keepsD)
    with w1 show ?thesis by (simp add: db_step_def)
  qed
qed

lemma db_step_before_reads:
  assumes "keeps (db_step P) m" and "\<And>x. keeps same_db (f x)"
  shows "keeps (db_step P) (bindM m f)"
proof (rule keepsI)
  fix w r w' assume run: "bindM m f w = (r, w')"
  obtain v w1 where m: "m w = (v, w1)" by (cases "m w")
  note w1 = keepsD [OF assms(1) m]
  show "db_step P w w'"
  proof (cases v)
    case (Inl e)
    with run m w1 show ?thesis by (simp add: run_forward)
  next
    case (Inr x)
    with run m have "f x w1 = (r, w')" by (simp add: run_forward)
    then have "w_db w' = w_db w1" by (rule same_dbD [OF assms(2)])
    with w1 show ?thesis by (simp add: db_step_def)
  qed
qed

lemma db_step_WithTx:
  assumes "\<And>w1 w2 x. w_tx w1 \<noteq> None \<Longrightarrow> fn w1 = (Inr x, w2) \<Longrightarrow> P (w_db w1) (w_db w2)"
  shows "keeps (db_step P) (WithTx E fn)"
  using assms by (intro keepsI WithTx_db_step)

lemma keeps_Inc [keeps_rules]: "keeps same_db (Inc n ls)"
  by (rule keepsI) (auto simp: run_iff same_db_def)

lemma keeps_NewString [keeps_rules]: "keeps same_db (NewString E)"
  by (rule keepsI) (auto simp: run_iff same_db_def)

lemma keeps_Now [keeps_rules]: "keeps same_db (Now E)"
  by (rule keepsI) (auto simp: run_iff same_db_def)

lemmas same_db_rules = transp_same_db reflp_same_db

end
