(* ===== verification/Redis.thy ===== *)
theory Redis
  imports Store
begin

text \<open>
  The Redis server as the lock manager and the rate limiter use it: keys with a text and,
  possibly, a time at which they expire; the commands the program sends; and calls that may
  fail before or after the server has acted, like statements of the database.

  \<open>redis_ext\<close> is what is not part of the program: the failures, the server's clock, and how the client
  rounds a duration it sends. \<open>redis_world\<close> extends the world with the keys, so every operation of
  the services runs on it unchanged.
\<close>

record redis_ext =
  redis_fault :: "nat \<Rightarrow> fault"
  redis_clock :: "nat \<Rightarrow> time"
  redis_ttl :: "time \<Rightarrow> time"

type_synonym redis_keys = "string \<rightharpoonup> string \<times> time option" \<comment> \<open>value, and when it expires\<close>

record redis_world = world +
  w_redis :: redis_keys
  w_redis_calls :: nat

type_synonym ('z, 'a) rio = "('z redis_world_scheme, 'a) comp"

type_synonym 'a command = "time \<Rightarrow> redis_keys \<Rightarrow> error + ('a \<times> redis_keys)"

text \<open>What a key holds at a time.\<close>

definition live :: "time \<Rightarrow> redis_keys \<Rightarrow> string \<Rightarrow> string option" where
  "live now m k =
     (case m k of
        None \<Rightarrow> None
      | Some (v, None) \<Rightarrow> Some v
      | Some (v, Some t) \<Rightarrow> if t \<le> now then None else Some v)"

definition redis_do :: "redis_ext \<Rightarrow> 'a command \<Rightarrow> ('z, 'a) rio" where
  "redis_do R q = (\<lambda>w.
     let w' = w\<lparr>w_redis_calls := Suc (w_redis_calls w)\<rparr>;
         r = q (redis_clock R (w_redis_calls w)) (w_redis w) in
     case redis_fault R (w_redis_calls w) of
       NoFault \<Rightarrow> (case r of Inl e \<Rightarrow> (Inl e, w') | Inr (x, m) \<Rightarrow> (Inr x, w'\<lparr>w_redis := m\<rparr>))
     | Failed e \<Rightarrow> (Inl e, w')
     | Lost e \<Rightarrow> (Inl e, case r of Inl _ \<Rightarrow> w' | Inr (x, m) \<Rightarrow> w'\<lparr>w_redis := m\<rparr>))"

section \<open>Commands\<close>

text \<open>\<^verbatim>\<open>SET key value NX\<close> with an expiry: whether the key was set.\<close>

definition redis_SetNX :: "string \<Rightarrow> string \<Rightarrow> time \<Rightarrow> bool command" where
  "redis_SetNX k v ttl now m =
     Inr (case live now m k of
            Some _ \<Rightarrow> (False, m)
          | None \<Rightarrow> (True, m(k \<mapsto> (v, if ttl = 0 then None else Some (now + ttl)))))"

text \<open>\<^verbatim>\<open>INCR\<close>: a key that is not there counts from 0; an expiry is kept.\<close>

definition redis_Incr :: "string \<Rightarrow> int command" where
  "redis_Incr k now m =
     (case live now m k of
        None \<Rightarrow> Inr (1, m(k \<mapsto> (''1'', None)))
      | Some v \<Rightarrow>
          (case parse_int64 v of
             None \<Rightarrow> Inl (ErrLib ''ERR value is not an integer or out of range'')
           | Some n \<Rightarrow>
               if n = 2 ^ 63 - 1 then Inl (ErrLib ''ERR increment or decrement would overflow'')
               else Inr (n + 1, m(k \<mapsto> (Itoa (n + 1), snd (the (m k)))))))"

definition redis_Expire :: "string \<Rightarrow> time \<Rightarrow> bool command" where
  "redis_Expire k ttl now m =
     Inr (case live now m k of
            None \<Rightarrow> (False, m)
          | Some v \<Rightarrow> (True, m(k \<mapsto> (v, Some (now + ttl)))))"

definition redis_Ping :: "unit command" where
  "redis_Ping now m = Inr ((), m)"

section \<open>What a call does\<close>

lemma redis_do_cases:
  assumes "redis_do R q w = (r, w')"
  obtains (ok) x m where "redis_fault R (w_redis_calls w) = NoFault"
      and "q (redis_clock R (w_redis_calls w)) (w_redis w) = Inr (x, m)" and "r = Inr x"
      and "w' = w\<lparr>w_redis_calls := Suc (w_redis_calls w), w_redis := m\<rparr>"
  | (none) e where "r = Inl e" and "w' = w\<lparr>w_redis_calls := Suc (w_redis_calls w)\<rparr>"
  | (lost) e x m where "r = Inl e" and "redis_fault R (w_redis_calls w) = Lost e"
      and "q (redis_clock R (w_redis_calls w)) (w_redis w) = Inr (x, m)"
      and "w' = w\<lparr>w_redis_calls := Suc (w_redis_calls w), w_redis := m\<rparr>"
proof (cases "redis_fault R (w_redis_calls w)")
  case NoFault
  with assms show thesis
    by (cases "q (redis_clock R (w_redis_calls w)) (w_redis w)")
      (auto simp: redis_do_def Let_def intro: none ok)
next
  case (Failed e)
  with assms show thesis by (intro none) (auto simp: redis_do_def Let_def)
next
  case (Lost e)
  with assms show thesis
    by (cases "q (redis_clock R (w_redis_calls w)) (w_redis w)")
      (auto simp: redis_do_def Let_def intro: none lost)
qed

lemma redis_do_NoFault:
  "redis_fault R (w_redis_calls w) = NoFault \<Longrightarrow>
    redis_do R q w = (case q (redis_clock R (w_redis_calls w)) (w_redis w) of
      Inl e \<Rightarrow> (Inl e, w\<lparr>w_redis_calls := Suc (w_redis_calls w)\<rparr>)
    | Inr (x, m) \<Rightarrow> (Inr x, w\<lparr>w_redis_calls := Suc (w_redis_calls w), w_redis := m\<rparr>))"
  by (auto simp: redis_do_def Let_def split: sum.splits)

lemma redis_do_frame:
  assumes "redis_do R q w = (r, w')"
  shows "w_db w' = w_db w" and "w_log w' = w_log w" and "w_redis_calls w' = Suc (w_redis_calls w)" and "w_clock w' = w_clock w"
  using assms by (cases rule: redis_do_cases; simp)+

lemma live_upd: "live now (m(k \<mapsto> e)) j = (if j = k then live now [k \<mapsto> e] k else live now m j)"
  by (simp add: live_def)

lemma live_earlier: "live t m k = Some v \<Longrightarrow> t' \<le> t \<Longrightarrow> live t' m k = Some v"
  by (auto simp: live_def split: option.splits if_splits)

end
