(* ===== verification/Json_Roundtrip.thy ===== *)
theory Json_Roundtrip
  imports Json
begin

text \<open>
  What \<^verbatim>\<open>json.Marshal\<close> writes \<^verbatim>\<open>json.Unmarshal\<close> reads back: the same value, with every byte that is not part of
  valid UTF-8 replaced by U+FFFD, as long as the numbers are number literals and the value is
  nested at most 10000 deep. The fuel of the parser is enough for every such text.
\<close>

section \<open>Values as they come back\<close>

function coerce_utf8 :: "string \<Rightarrow> string" where
  "coerce_utf8 [] = []"
| "coerce_utf8 (c # s) =
     (if is_ascii c then c # coerce_utf8 s
      else if rune_len (c # s) = 0 then replacement @ coerce_utf8 s
      else take (rune_len (c # s)) (c # s) @ coerce_utf8 (drop (rune_len (c # s) - 1) s))"
  by pat_completeness auto
termination
  by (relation "measure length") auto

fun coerce_json :: "json \<Rightarrow> json" where
  "coerce_json (JStr s) = JStr (coerce_utf8 s)"
| "coerce_json (JArr vs) = JArr (map coerce_json vs)"
| "coerce_json (JObj fs) = JObj (map (\<lambda>(k, v). (coerce_utf8 k, coerce_json v)) fs)"
| "coerce_json v = v"

fun wf_json :: "json \<Rightarrow> bool" where
  "wf_json (JNum lit) = (parse_number lit = Some (lit, []))"
| "wf_json (JArr vs) = (\<forall>v \<in> set vs. wf_json v)"
| "wf_json (JObj fs) = (\<forall>(k, v) \<in> set fs. wf_json v)"
| "wf_json v = True"

fun json_depth :: "json \<Rightarrow> nat" where
  "json_depth (JArr vs) = Suc (foldr max (map json_depth vs) 0)"
| "json_depth (JObj fs) = Suc (foldr max (map (\<lambda>(k, v). json_depth v) fs) 0)"
| "json_depth _ = 0"

fun json_fuel :: "json \<Rightarrow> nat" where
  "json_fuel (JArr vs) = Suc (sum_list (map (\<lambda>v. Suc (json_fuel v)) vs))"
| "json_fuel (JObj fs) = Suc (sum_list (map (\<lambda>(k, v). Suc (json_fuel v)) fs))"
| "json_fuel _ = 1"

section \<open>Characters\<close>

lemma coerce_ascii [simp]: "list_all is_ascii s \<Longrightarrow> coerce_utf8 s = s"
  by (induction s) auto

lemma parse_u4_low:
  assumes "n < 256"
  shows "parse_u4 (CHR ''0'' # CHR ''0'' # hex_digit (n div 16) # hex_digit n # s) = Some n"
proof -
  have "16 * (n div 16 mod 16) + n mod 16 = n" using assms by simp
  moreover have "hex_value CHR ''0'' = Some 0" by (simp add: hex_value_def in_range_def)
  ultimately show ?thesis by (simp add: hex_value_digit)
qed

lemma parse_chars_Cons:
  "parse_chars (c # s') =
     (if c = CHR 0x22 then Some ([], s')
      else if c = CHR 0x5C then
        (case s' of
           [] \<Rightarrow> None
         | e # s'' \<Rightarrow>
             if e = CHR ''u'' then
               (case parse_u4 s'' of
                  None \<Rightarrow> None
                | Some u \<Rightarrow>
                    (case surrogate_pair u (drop 4 s'') of
                       (r, k) \<Rightarrow>
                         map_option (\<lambda>(t, rest). (r @ t, rest)) (parse_chars (drop (4 + k) s''))))
             else
               (case simple_escape e of
                  None \<Rightarrow> None
                | Some r \<Rightarrow> map_option (\<lambda>(t, rest). (r @ t, rest)) (parse_chars s'')))
      else if of_char c < (0x20 :: nat) then None
      else if is_ascii c then map_option (\<lambda>(t, rest). (c # t, rest)) (parse_chars s')
      else if rune_len (c # s') = 0 then map_option (\<lambda>(t, rest). (replacement @ t, rest)) (parse_chars s')
      else map_option (\<lambda>(t, rest). (take (rune_len (c # s')) (c # s') @ t, rest))
        (parse_chars (drop (rune_len (c # s')) (c # s'))))"
  by (subst parse_chars.simps) simp

lemma parse_escape_u:
  assumes "parse_u4 (a # b # c # d # t) = Some n" and "surrogate_pair n t = (r, 0)"
  shows "parse_chars (CHR 0x5C # CHR ''u'' # a # b # c # d # t) =
    map_option (\<lambda>(u, rest). (r @ u, rest)) (parse_chars t)"
  using assms by (simp add: parse_chars_Cons [of "CHR 0x5C"])

lemma parse_escape_simple:
  assumes "simple_escape e = Some r" and "e \<noteq> CHR ''u''"
  shows "parse_chars (CHR 0x5C # e # t) = map_option (\<lambda>(u, rest). (r @ u, rest)) (parse_chars t)"
  using assms by (simp add: parse_chars_Cons [of "CHR 0x5C"])

lemma simple_codes:
  "char_of (0x22 :: nat) = CHR 0x22" "char_of (0x5C :: nat) = CHR 0x5C" "char_of (0x08 :: nat) = CHR 0x08"
  "char_of (0x0C :: nat) = CHR 0x0C" "char_of (0x0A :: nat) = CHR 0x0A" "char_of (0x0D :: nat) = CHR 0x0D"
  "char_of (0x09 :: nat) = CHR 0x09"
  by code_simp+

lemma escape_simple:
  assumes "c \<in> {CHR 0x22, CHR 0x5C, CHR 0x08, CHR 0x0C, CHR 0x0A, CHR 0x0D, CHR 0x09}"
  obtains e where "escape_ascii c = [CHR 0x5C, e]" and "simple_escape e = Some [c]" and "e \<noteq> CHR ''u''"
proof -
  have "escape_ascii CHR 0x22 = [CHR 0x5C, CHR 0x22]" "escape_ascii CHR 0x5C = [CHR 0x5C, CHR 0x5C]"
    "escape_ascii CHR 0x08 = [CHR 0x5C, CHR ''b'']" "escape_ascii CHR 0x0C = [CHR 0x5C, CHR ''f'']"
    "escape_ascii CHR 0x0A = [CHR 0x5C, CHR ''n'']" "escape_ascii CHR 0x0D = [CHR 0x5C, CHR ''r'']"
    "escape_ascii CHR 0x09 = [CHR 0x5C, CHR ''t'']"
    by (simp_all add: escape_ascii_def)
  moreover have "simple_escape CHR 0x22 = Some [CHR 0x22]" "simple_escape CHR 0x5C = Some [CHR 0x5C]"
    "simple_escape CHR ''b'' = Some [CHR 0x08]" "simple_escape CHR ''f'' = Some [CHR 0x0C]"
    "simple_escape CHR ''n'' = Some [CHR 0x0A]" "simple_escape CHR ''r'' = Some [CHR 0x0D]"
    "simple_escape CHR ''t'' = Some [CHR 0x09]"
    by (simp_all add: simple_escape_def)
  ultimately show thesis using assms that by auto
qed

lemma parse_escape_ascii:
  assumes "is_ascii c"
  shows "parse_chars (escape_ascii c @ t) = map_option (\<lambda>(u, rest). (c # u, rest)) (parse_chars t)"
proof -
  define n where "n = (of_char c :: nat)"
  have c: "c = char_of n" by (simp add: n_def)
  have n: "n < 128" using assms by (simp add: is_ascii_def n_def)
  have low: "surrogate_pair n t = ([c], 0)"
    using n by (simp add: surrogate_pair_def encode_rune_def bytes_def c)
  consider "n \<in> {0x22, 0x5C, 0x08, 0x0C, 0x0A, 0x0D, 0x09}"
    | "n < 0x20 \<or> n \<in> {0x26, 0x3C, 0x3E}" "n \<notin> {0x22, 0x5C, 0x08, 0x0C, 0x0A, 0x0D, 0x09}"
    | "0x20 \<le> n" "n \<notin> {0x22, 0x5C, 0x26, 0x3C, 0x3E}"
    by force
  then show ?thesis
  proof cases
    case 1
    then have "c \<in> {CHR 0x22, CHR 0x5C, CHR 0x08, CHR 0x0C, CHR 0x0A, CHR 0x0D, CHR 0x09}"
      unfolding c by (auto simp: simple_codes)
    then obtain e where "escape_ascii c = [CHR 0x5C, e]" "simple_escape e = Some [c]" "e \<noteq> CHR ''u''"
      by (rule escape_simple)
    with parse_escape_simple [OF this(2,3)] show ?thesis by simp
  next
    case 2
    then have "escape_ascii c = CHR 0x5C # CHR ''u'' # CHR ''0'' # CHR ''0'' # [hex_digit (n div 16), hex_digit n]"
      unfolding escape_ascii_def n_def [symmetric] Let_def by auto
    then show ?thesis
      using parse_escape_u [OF parse_u4_low [of n t] low] n by simp
  next
    case 3
    then have "escape_ascii c = [c]" "c \<noteq> CHR 0x22" "c \<noteq> CHR 0x5C"
      unfolding escape_ascii_def n_def [symmetric] Let_def by (auto simp: n_def)
    with 3(1) assms show ?thesis by (simp add: parse_chars_Cons [of c] n_def)
  qed
qed

section \<open>Strings\<close>

lemma rune_len_take:
  assumes "rune_len s \<noteq> 0"
  shows "rune_len (take (rune_len s) s @ t) = rune_len s" and "rune_len s \<le> length s"
proof -
  obtain a b s' where s: "s = a # b # s'" using assms by (cases s rule: rune_len.cases) auto
  show "rune_len (take (rune_len s) s @ t) = rune_len s" "rune_len s \<le> length s"
    using assms unfolding s by (auto split: list.splits if_splits)
qed

lemma parse_escape_rune:
  assumes "\<not> is_ascii c" and "rune_len (c # s) \<noteq> 0" and r: "r = take (rune_len (c # s)) (c # s)"
  shows "parse_chars (escape_rune r @ t) = map_option (\<lambda>(u, rest). (r @ u, rest)) (parse_chars t)"
proof -
  have plain: "parse_chars (r @ t) = map_option (\<lambda>(u, rest). (r @ u, rest)) (parse_chars t)"
  proof -
    obtain r' where r': "r = c # r'" using assms(2) unfolding r by (cases "rune_len (c # s)") auto
    have len: "rune_len (r @ t) = length r"
      using rune_len_take(1) [OF assms(2), of t] rune_len_take(2) [OF assms(2)] by (simp add: r)
    have "c \<noteq> CHR 0x22" "c \<noteq> CHR 0x5C" "\<not> of_char c < (0x20 :: nat)"
      using assms(1) by (auto simp: is_ascii_def)
    with len assms(1) show ?thesis by (simp add: r' parse_chars_Cons [of c])
  qed
  have u: "parse_chars (CHR 0x5C # ''u2028'' @ t) =
      map_option (\<lambda>(u, rest). (bytes [0xE2, 0x80, 0xA8] @ u, rest)) (parse_chars t)"
    "parse_chars (CHR 0x5C # ''u2029'' @ t) =
      map_option (\<lambda>(u, rest). (bytes [0xE2, 0x80, 0xA9] @ u, rest)) (parse_chars t)"
    using parse_escape_u [of "CHR ''2''" "CHR ''0''" "CHR ''2''" "CHR ''8''" t "0x2028"]
      parse_escape_u [of "CHR ''2''" "CHR ''0''" "CHR ''2''" "CHR ''9''" t "0x2029"]
    by (simp_all add: hex_value_def in_range_def surrogate_pair_def encode_rune_def)
  show ?thesis using plain u by (simp add: escape_rune_def)
qed

lemma parse_replacement:
  "parse_chars (CHR 0x5C # ''ufffd'' @ t) = map_option (\<lambda>(u, rest). (replacement @ u, rest)) (parse_chars t)"
  using parse_escape_u [of "CHR ''f''" "CHR ''f''" "CHR ''f''" "CHR ''d''" t "0xFFFD"]
  by (simp add: hex_value_def in_range_def surrogate_pair_def encode_rune_def replacement_def)

lemma parse_chars_escape: "parse_chars (escape s @ CHR 0x22 # rest) = Some (coerce_utf8 s, rest)"
proof (induction s rule: coerce_utf8.induct)
  case 1
  show ?case by (simp add: parse_chars_Cons)
next
  case (2 c s)
  let ?k = "rune_len (c # s)"
  consider "is_ascii c" | "\<not> is_ascii c" "?k = 0" | "\<not> is_ascii c" "?k \<noteq> 0" by blast
  then show ?case
  proof cases
    case 1
    with 2(1) show ?thesis by (simp add: parse_escape_ascii)
  next
    case 2
    with "2.IH"(2) parse_replacement [of "escape s @ CHR 0x22 # rest"] show ?thesis by simp
  next
    case 3
    with "2.IH"(3) parse_escape_rune [OF 3 refl] show ?thesis by simp
  qed
qed

section \<open>Numbers\<close>

text \<open>What may follow a number without being taken for a part of it.\<close>

definition num_end :: "string \<Rightarrow> bool" where
  "num_end s \<longleftrightarrow>
     (case s of [] \<Rightarrow> True
      | c # _ \<Rightarrow> \<not> is_digit c \<and> c \<noteq> CHR ''.'' \<and> c \<noteq> CHR ''e'' \<and> c \<noteq> CHR ''E'')"

lemma num_end_simps [simp]: "num_end []" "num_end (CHR '','' # s)" "num_end (CHR '']'' # s)" "num_end (CHR ''}'' # s)"
  by (simp_all add: num_end_def is_digit_def in_range_def)

lemma digits_append:
  assumes "num_end rest"
  shows "takeWhile is_digit (s @ rest) = takeWhile is_digit s"
    and "dropWhile is_digit (s @ rest) = dropWhile is_digit s @ rest"
  using assms by (induction s) (auto simp: num_end_def split: list.splits)

lemma parse_int_part_append:
  "parse_int_part s = Some (i, t) \<Longrightarrow> num_end rest \<Longrightarrow> parse_int_part (s @ rest) = Some (i, t @ rest)"
  by (auto simp: parse_int_part_def digits_append split: list.splits if_splits)

lemma parse_frac_append:
  "parse_frac s = Some (i, t) \<Longrightarrow> num_end rest \<Longrightarrow> parse_frac (s @ rest) = Some (i, t @ rest)"
  by (cases s) (auto simp: parse_frac_def digits_append num_end_def split: list.splits if_splits)

lemma parse_exp_append:
  assumes "parse_exp s = Some (i, t)" and "num_end rest"
  shows "parse_exp (s @ rest) = Some (i, t @ rest)"
proof (cases s)
  case Nil
  with assms show ?thesis by (auto simp: parse_exp_def num_end_def split: list.splits)
next
  case (Cons c s')
  show ?thesis
  proof (cases s')
    case Nil
    with assms Cons show ?thesis by (auto simp: parse_exp_def split: if_splits)
  next
    case (Cons d s'')
    with assms \<open>s = c # s'\<close> digits_append [OF assms(2), of s'']
      digits_append [OF assms(2), of "d # s''"] show ?thesis
      by (auto simp: parse_exp_def Let_def split: if_splits)
  qed
qed

lemma parse_number_append:
  assumes "parse_number s = Some (i, t)" and "num_end rest"
  shows "parse_number (s @ rest) = Some (i, t @ rest)"
proof (cases s)
  case Nil
  with assms(1) show ?thesis by (simp add: parse_number_def parse_int_part_def)
next
  case (Cons c s')
  define sg where "sg = (if c = CHR ''-'' then [c] else [])"
  have s: "parse_number (s @ r) =
      (case parse_int_part (drop (length sg) s @ r) of
        None \<Rightarrow> None
      | Some (i, s1) \<Rightarrow>
          (case parse_frac s1 of
             None \<Rightarrow> None
           | Some (f, s2) \<Rightarrow>
               (case parse_exp s2 of
                  None \<Rightarrow> None
                | Some (e, s3) \<Rightarrow> Some (sg @ i @ f @ e, s3))))" for r
    by (auto simp: parse_number_def Let_def Cons sg_def split: option.split)
  from assms(1) s [of "[]"] obtain a s1 f s2 e where
    "parse_int_part (drop (length sg) s) = Some (a, s1)" "parse_frac s1 = Some (f, s2)"
    "parse_exp s2 = Some (e, t)" "i = sg @ a @ f @ e"
    by (auto split: option.splits)
  with assms(2) show ?thesis
    by (simp add: s parse_int_part_append parse_frac_append parse_exp_append)
qed

section \<open>Values\<close>

lemma parse_number_head:
  assumes "parse_number s = Some (s, t)"
  obtains c s' where "s = c # s'" and "is_digit c \<or> c = CHR ''-''"
proof (cases s)
  case Nil
  with assms show thesis by (simp add: parse_number_def parse_int_part_def)
next
  case (Cons c s')
  show thesis
  proof (cases "c = CHR ''-'' \<or> is_digit c")
    case True
    with Cons that show thesis by blast
  next
    case False
    then have "c \<noteq> CHR ''0''" by (auto simp: is_digit_def in_range_def)
    with False assms Cons show thesis by (simp add: parse_number_def Let_def parse_int_part_def)
  qed
qed

text \<open>The first character of an encoded value: no space, and no closing bracket.\<close>

definition value_head :: "char \<Rightarrow> bool" where
  "value_head c \<longleftrightarrow> \<not> json_space c \<and> c \<noteq> CHR '']'' \<and> c \<noteq> CHR ''}''"

lemma Marshal_head:
  assumes "wf_json v"
  obtains c s where "Marshal v = c # s" and "value_head c"
proof (cases v)
  case (JNum lit)
  with assms obtain c s where "lit = c # s" "is_digit c \<or> c = CHR ''-''"
    by (auto elim: parse_number_head)
  moreover from this(2) have "value_head c"
    by (auto simp: value_head_def json_space_def is_digit_def in_range_def)
  ultimately show thesis using JNum that by simp
next
  case (JBool b)
  with that show thesis by (cases b) (auto simp: value_head_def json_space_def)
qed (use that in \<open>auto simp: value_head_def json_space_def quote_def\<close>)

lemma skip_space_head [simp]: "value_head c \<Longrightarrow> skip_space (c # s) = c # s"
  by (simp add: skip_space_def value_head_def)

lemma skip_space_marks [simp]:
  "skip_space (CHR '','' # s) = CHR '','' # s" "skip_space (CHR '']'' # s) = CHR '']'' # s"
  "skip_space (CHR ''}'' # s) = CHR ''}'' # s" "skip_space (CHR '':'' # s) = CHR '':'' # s"
  "skip_space (CHR 0x22 # s) = CHR 0x22 # s" "skip_space (CHR ''{'' # s) = CHR ''{'' # s"
  "skip_space (CHR ''['' # s) = CHR ''['' # s" "skip_space [] = []"
  by (simp_all add: skip_space_def json_space_def)

lemma parse_value_number:
  assumes "wf_json (JNum lit)" and "num_end rest"
  shows "parse_value (Suc n) d (lit @ rest) = Some (JNum lit, rest)"
proof -
  from assms(1) obtain c s where lit: "lit = c # s" "is_digit c \<or> c = CHR ''-''"
    by (auto elim: parse_number_head)
  then have c: "value_head c" "c \<notin> {CHR ''{'', CHR ''['', CHR 0x22, CHR ''n'', CHR ''t'', CHR ''f''}"
    by (auto simp: value_head_def json_space_def is_digit_def in_range_def)
  have "parse_number (c # s @ rest) = Some (lit, rest)"
    using parse_number_append [of lit lit "[]" rest] assms lit(1) by simp
  with c lit(1) show ?thesis by auto
qed

definition reads :: "json \<Rightarrow> bool" where
  "reads v \<longleftrightarrow> (\<forall>n d rest. json_fuel v \<le> n \<longrightarrow> json_depth v + d \<le> max_nesting \<longrightarrow> num_end rest \<longrightarrow>
     parse_value n d (Marshal v @ rest) = Some (coerce_json v, rest))"

lemma readsD:
  "reads v \<Longrightarrow> json_fuel v \<le> n \<Longrightarrow> json_depth v + d \<le> max_nesting \<Longrightarrow> num_end rest \<Longrightarrow>
    parse_value n d (Marshal v @ rest) = Some (coerce_json v, rest)"
  by (simp add: reads_def)

lemma foldr_max: "x \<in> set xs \<Longrightarrow> x \<le> foldr max xs (0 :: nat)"
  by (induction xs) auto

lemma separated_Cons: "xs \<noteq> [] \<Longrightarrow> separated (x # xs) = x @ CHR '','' # separated xs"
  by (cases xs) simp_all

lemma parse_elems_separated:
  assumes "vs \<noteq> []" and "\<forall>v \<in> set vs. reads v \<and> json_depth v + d \<le> max_nesting"
    and "sum_list (map (\<lambda>v. Suc (json_fuel v)) vs) \<le> n"
  shows "parse_elems n d (separated (map Marshal vs) @ CHR '']'' # rest) = Some (map coerce_json vs, rest)"
  using assms
proof (induction vs arbitrary: n)
  case (Cons v vs)
  then obtain m where n: "n = Suc m" by (cases n) auto
  have v: "reads v" "json_depth v + d \<le> max_nesting" "json_fuel v \<le> m" using Cons.prems n by auto
  show ?case
  proof (cases "vs = []")
    case True
    with readsD [OF v(1,3,2), of "CHR '']'' # rest"] n show ?thesis by simp
  next
    case False
    have "parse_elems m d (separated (map Marshal vs) @ CHR '']'' # rest) = Some (map coerce_json vs, rest)"
      by (rule Cons.IH [OF False]) (use Cons.prems n in auto)
    with readsD [OF v(1,3,2), of "CHR '','' # separated (map Marshal vs) @ CHR '']'' # rest"] False n
    show ?thesis by (simp add: separated_Cons)
  qed
qed simp

abbreviation coerce_member :: "string \<times> json \<Rightarrow> string \<times> json" where
  "coerce_member \<equiv> \<lambda>(k, v). (coerce_utf8 k, coerce_json v)"

abbreviation Marshal_member :: "string \<times> json \<Rightarrow> string" where
  "Marshal_member \<equiv> \<lambda>(k, v). quote k @ CHR '':'' # Marshal v"

lemma parse_members_separated:
  assumes "fs \<noteq> []" and "\<forall>(k, v) \<in> set fs. reads v \<and> json_depth v + d \<le> max_nesting"
    and "sum_list (map (\<lambda>(k, v). Suc (json_fuel v)) fs) \<le> n"
  shows "parse_members n d (separated (map Marshal_member fs) @ CHR ''}'' # rest) = Some (map coerce_member fs, rest)"
  using assms
proof (induction fs arbitrary: n)
  case (Cons f fs)
  obtain k v where f: "f = (k, v)" by (cases f)
  from Cons.prems f obtain m where n: "n = Suc m" by (cases n) auto
  have v: "reads v" "json_depth v + d \<le> max_nesting" "json_fuel v \<le> m"
    using Cons.prems n f by auto
  show ?case
  proof (cases "fs = []")
    case True
    with readsD [OF v(1,3,2), of "CHR ''}'' # rest"] n f show ?thesis
      by (simp add: quote_def parse_chars_escape)
  next
    case False
    have "parse_members m d (separated (map Marshal_member fs) @ CHR ''}'' # rest) = Some (map coerce_member fs, rest)"
      by (rule Cons.IH [OF False]) (use Cons.prems n f in auto)
    with readsD [OF v(1,3,2), of "CHR '','' # separated (map Marshal_member fs) @ CHR ''}'' # rest"]
      False n f
    show ?thesis by (simp add: separated_Cons quote_def parse_chars_escape)
  qed
qed simp

lemma separated_head:
  assumes "vs \<noteq> []" and "wf_json (hd vs)"
  obtains c s where "separated (map Marshal vs) = c # s" and "value_head c"
proof -
  from assms(2) obtain c s where c: "Marshal (hd vs) = c # s" "value_head c" by (rule Marshal_head)
  with assms(1) that show thesis by (cases vs; cases "tl vs") auto
qed

lemma separated_quote:
  assumes "fs \<noteq> []"
  obtains s where "separated (map Marshal_member fs) = CHR 0x22 # s"
  using assms that by (cases fs; cases "tl fs") (auto simp: quote_def split: prod.splits)

lemma reads_array:
  assumes "\<forall>v \<in> set vs. reads v \<and> wf_json v"
  shows "reads (JArr vs)"
  unfolding reads_def
proof (intro allI impI)
  fix n d rest
  assume fuel: "json_fuel (JArr vs) \<le> n" and depth: "json_depth (JArr vs) + d \<le> max_nesting" and "num_end rest"
  obtain m where n: "n = Suc m" using fuel by (cases n) auto
  show "parse_value n d (Marshal (JArr vs) @ rest) = Some (coerce_json (JArr vs), rest)"
  proof (cases "vs = []")
    case True
    with n depth show ?thesis by simp
  next
    case False
    then have "wf_json (hd vs)" using assms by simp
    with False obtain c s where c: "separated (map Marshal vs) = c # s" "value_head c" by (rule separated_head)
    have "\<forall>v \<in> set vs. reads v \<and> json_depth v + Suc d \<le> max_nesting"
    proof
      fix v assume v: "v \<in> set vs"
      then have "json_depth v \<le> foldr max (map json_depth vs) 0" by (intro foldr_max) simp
      with v depth assms show "reads v \<and> json_depth v + Suc d \<le> max_nesting" by simp
    qed
    from parse_elems_separated [OF False this, of m rest] fuel n c depth show ?thesis
      by (auto simp: value_head_def)
  qed
qed

lemma reads_object:
  assumes "\<forall>(k, v) \<in> set fs. reads v"
  shows "reads (JObj fs)"
  unfolding reads_def
proof (intro allI impI)
  fix n d rest
  assume fuel: "json_fuel (JObj fs) \<le> n" and depth: "json_depth (JObj fs) + d \<le> max_nesting" and "num_end rest"
  obtain m where n: "n = Suc m" using fuel by (cases n) auto
  show "parse_value n d (Marshal (JObj fs) @ rest) = Some (coerce_json (JObj fs), rest)"
  proof (cases "fs = []")
    case True
    with n depth show ?thesis by simp
  next
    case False
    then obtain s where s: "separated (map Marshal_member fs) = CHR 0x22 # s" by (rule separated_quote)
    have "\<forall>(k, v) \<in> set fs. reads v \<and> json_depth v + Suc d \<le> max_nesting"
    proof clarify
      fix k v assume v: "(k, v) \<in> set fs"
      then have "json_depth v \<le> foldr max (map (\<lambda>(k, v). json_depth v) fs) 0" by (intro foldr_max) force
      with v depth assms show "reads v \<and> json_depth v + Suc d \<le> max_nesting" by auto
    qed
    from parse_members_separated [OF False this, of m rest] fuel n s depth show ?thesis by auto
  qed
qed

lemma wf_reads: "wf_json v \<Longrightarrow> reads v"
proof (induction v)
  case (JNum lit)
  show ?case unfolding reads_def
  proof (intro allI impI)
    fix n d rest assume "json_fuel (JNum lit) \<le> n" and "num_end rest"
    with parse_value_number [OF JNum] show "parse_value n d (Marshal (JNum lit) @ rest) = Some (coerce_json (JNum lit), rest)"
      by (cases n) auto
  qed
next
  case (JStr s)
  show ?case unfolding reads_def
  proof (intro allI impI)
    fix n d rest assume "json_fuel (JStr s) \<le> n"
    with JStr show "parse_value n d (Marshal (JStr s) @ rest) = Some (coerce_json (JStr s), rest)"
      by (cases n) (simp_all add: quote_def parse_chars_escape)
  qed
next
  case (JArr vs)
  then show ?case by (intro reads_array) auto
next
  case (JObj fs)
  then have "\<forall>(k, v) \<in> set fs. reads v" by fastforce
  then show ?case by (rule reads_object)
next
  case JNull
  show ?case unfolding reads_def
    by (auto simp: skip_space_def json_space_def Suc_le_eq gr0_conv_Suc)
next
  case (JBool b)
  show ?case unfolding reads_def
    by (auto simp: skip_space_def json_space_def Suc_le_eq gr0_conv_Suc)
qed

text \<open>The fuel the decoder takes is enough.\<close>

lemma Marshal_nonempty: "wf_json v \<Longrightarrow> Marshal v \<noteq> []"
  by (metis Marshal_head list.discI)

lemma length_separated: "length (separated xs) = sum_list (map length xs) + (length xs - 1)"
  by (induction xs rule: separated.induct) auto

lemma fuel_enough: "wf_json v \<Longrightarrow> json_fuel v \<le> 2 * length (Marshal v)"
proof (induction v)
  case (JArr vs)
  then have "Suc (json_fuel v) \<le> 2 * length (Marshal v) + 1" if "v \<in> set vs" for v
    using that by simp
  then have "sum_list (map (\<lambda>v. Suc (json_fuel v)) vs) \<le> sum_list (map (\<lambda>v. 2 * length (Marshal v) + 1) vs)"
    by (intro sum_list_mono) blast
  also have "\<dots> = 2 * sum_list (map length (map Marshal vs)) + length vs"
    by (induction vs) auto
  finally show ?case by (cases vs) (simp_all add: length_separated)
next
  case (JObj fs)
  then have le: "Suc (json_fuel v) \<le> 2 * length (Marshal_member (k, v)) + 1" if "(k, v) \<in> set fs" for k v
    using that by fastforce
  have "sum_list (map (\<lambda>(k, v). Suc (json_fuel v)) fs) \<le> sum_list (map (\<lambda>f. 2 * length (Marshal_member f) + 1) fs)"
    by (intro sum_list_mono) (use le in auto)
  also have "\<dots> = 2 * sum_list (map length (map Marshal_member fs)) + length fs"
    by (induction fs) auto
  finally show ?case by (cases fs) (simp_all add: length_separated)
next
  case (JNum lit)
  with Marshal_nonempty [OF JNum] show ?case by (simp add: Suc_le_eq)
qed (simp_all add: quote_def)

section \<open>Encoding and decoding\<close>

lemma decode_Marshal:
  assumes "wf_json v" and "json_depth v \<le> max_nesting"
  shows "decode_all (Marshal v) = Some (coerce_json v)"
proof -
  have "parse_value (Suc (2 * length (Marshal v))) 0 (Marshal v @ []) = Some (coerce_json v, [])"
    by (rule readsD [OF wf_reads [OF assms(1)]]) (use fuel_enough [OF assms(1)] assms(2) in simp_all)
  then show ?thesis by (simp add: decode_all_def)
qed

section \<open>Decimal numbers\<close>

lemma digit_char:
  assumes "n < 10"
  shows "of_char (char_of (48 + n)) = 48 + (n :: nat)" and "is_digit (char_of (48 + n))"
proof -
  show *: "of_char (char_of (48 + n)) = 48 + n" using assms by (simp add: of_char_of)
  with assms show "is_digit (char_of (48 + n))" by (simp add: is_digit_def in_range_def)
qed

lemma digits_value_append: "digits_value n (s @ t) = digits_value (digits_value n s) t"
  by (induction s arbitrary: n) simp_all

lemma Itoa_nat_digits:
  "list_all is_digit (Itoa_nat n) \<and> Itoa_nat n \<noteq> [] \<and> digits_value 0 (Itoa_nat n) = n \<and>
    (0 < n \<longrightarrow> hd (Itoa_nat n) \<noteq> CHR ''0'')"
proof (induction n rule: Itoa_nat.induct)
  case (1 n)
  show ?case
  proof (cases "n < 10")
    case True
    have "char_of (48 + n) \<noteq> CHR ''0''" if "0 < n"
    proof
      assume "char_of (48 + n) = CHR ''0''"
      with digit_char(1) [OF True] have "of_char CHR ''0'' = 48 + n" by simp
      with that show False by simp
    qed
    with True digit_char [OF True] show ?thesis by (simp add: Itoa_nat.simps [of n])
  next
    case False
    have "n mod 10 < 10" by simp
    with 1 False digit_char [OF this] show ?thesis
      by (simp add: Itoa_nat.simps [of n] digits_value_append)
  qed
qed

lemma parse_digits:
  assumes "list_all is_digit ds" and "ds \<noteq> []" and "ds = ''0'' \<or> hd ds \<noteq> CHR ''0''"
    and "sg \<in> {'''', ''-''}"
  shows "parse_number (sg @ ds) = Some (sg @ ds, [])"
proof -
  obtain c s where ds: "ds = c # s" using assms(2) by (cases ds) auto
  have all: "takeWhile is_digit s = s" "dropWhile is_digit s = []"
    using assms(1) ds by (auto simp: list_all_iff takeWhile_eq_all_conv dropWhile_eq_Nil_conv)
  have "parse_int_part ds = Some (ds, [])"
    using assms(1,3) by (auto simp: parse_int_part_def ds all)
  moreover have "c \<noteq> CHR ''-''" using assms(1) ds by (auto simp: is_digit_def in_range_def)
  ultimately show ?thesis
    using assms(4) ds by (auto simp: parse_number_def parse_frac_def parse_exp_def)
qed

lemma Itoa_zero: "Itoa_nat 0 = ''0''"
  by code_simp

lemma Itoa_nat_form: "Itoa_nat n = ''0'' \<or> hd (Itoa_nat n) \<noteq> CHR ''0''"
  using Itoa_nat_digits [of n] Itoa_zero by (cases "n = 0") auto

lemma wf_Itoa [simp]: "wf_json (JNum (Itoa i))"
proof -
  have "parse_number (sg @ Itoa_nat n) = Some (sg @ Itoa_nat n, [])" if "sg \<in> {'''', ''-''}" for sg n
    by (rule parse_digits [OF _ _ Itoa_nat_form that]) (use Itoa_nat_digits in auto)
  from this [of "''''"] this [of "''-''"] show ?thesis by (simp add: Itoa_def)
qed

lemma parse_int64_Itoa:
  assumes "- (2 ^ 63) \<le> i" and "i < 2 ^ 63"
  shows "parse_int64 (Itoa i) = Some i"
proof (cases "i < 0")
  case True
  with assms Itoa_nat_digits [of "nat (- i)"] show ?thesis by (simp add: parse_int64_def Itoa_def)
next
  case False
  have "hd (Itoa_nat (nat i)) \<noteq> CHR ''-''"
    using Itoa_nat_digits [of "nat i"] by (cases "Itoa_nat (nat i)") (auto simp: is_digit_def in_range_def)
  with False assms Itoa_nat_digits [of "nat i"] show ?thesis
    by (cases "Itoa_nat (nat i)") (auto simp: parse_int64_def Itoa_def Let_def)
qed

section \<open>Objects of scalars\<close>

lemma fold_name_ascii: "list_all is_ascii s \<Longrightarrow> fold_name s = map ascii_upper s"
proof (induction s rule: fold_name.induct)
  case (1 a b c s)
  then have "a \<noteq> char_of (0xC5 :: nat)" "a \<noteq> char_of (0xE2 :: nat)"
    by (auto simp: is_ascii_def of_char_of)
  with 1 show ?case by (simp add: bytes_def)
next
  case (2 a b)
  then have "a \<noteq> char_of (0xC5 :: nat)" by (auto simp: is_ascii_def of_char_of)
  then show ?case by (simp add: bytes_def)
qed simp_all

lemma is_field_ascii:
  "list_all is_ascii name \<Longrightarrow> list_all is_ascii k \<Longrightarrow> is_field name k \<longleftrightarrow> map ascii_upper k = map ascii_upper name"
  by (simp add: is_field_def fold_name_ascii)

fun scalar :: "json \<Rightarrow> bool" where
  "scalar (JArr _) = False"
| "scalar (JObj _) = False"
| "scalar v = wf_json v"

text \<open>
  The members of an object of scalars with ASCII names, no two of which the decoder would
  assign to the field \<open>name\<close>.
\<close>

definition flat_members :: "string \<Rightarrow> (string \<times> json) list \<Rightarrow> bool" where
  "flat_members name fs \<longleftrightarrow> distinct (map fst fs) \<and>
     (\<forall>(k, v) \<in> set fs. list_all is_ascii k \<and> scalar v \<and> (is_field name k \<longrightarrow> k = name))"

lemma scalar_depth: "scalar v \<Longrightarrow> json_depth v = 0 \<and> wf_json v"
  by (cases v) auto

lemma flat_wf: "flat_members name fs \<Longrightarrow> wf_json (JObj fs) \<and> json_depth (JObj fs) = 1"
proof -
  assume "flat_members name fs"
  then have "\<forall>v \<in> snd ` set fs. scalar v" by (auto simp: flat_members_def)
  then have "\<forall>(k, v) \<in> set fs. wf_json v" "foldr max (map (\<lambda>(k, v). json_depth v) fs) 0 = 0"
    by (auto simp: scalar_depth) (induction fs, auto simp: scalar_depth)
  then show ?thesis by simp
qed

lemma string_field_none:
  "(\<forall>k \<in> fst ` set fs. \<not> is_field name k) \<Longrightarrow> string_field name fs x = Some x"
  by (induction fs) auto

lemma string_field_flat:
  assumes "flat_members name fs" and "map_of fs name = Some (JStr s)"
  shows "string_field name fs x = Some s"
  using assms
proof (induction fs arbitrary: x)
  case (Cons f fs)
  obtain k v where f: "f = (k, v)" by (cases f)
  show ?case
  proof (cases "k = name")
    case True
    with Cons.prems f have "v = JStr s" by simp
    moreover have "\<forall>k \<in> fst ` set fs. \<not> is_field name k"
      using Cons.prems(1) True f by (auto simp: flat_members_def)
    ultimately show ?thesis using True f by (simp add: string_field_none is_field_def)
  next
    case False
    with Cons f show ?thesis by (auto simp: flat_members_def)
  qed
qed simp

lemma scalar_coerce: "scalar v \<Longrightarrow> scalar (coerce_json v)"
  by (cases v) auto

lemma string_field_coerce:
  assumes "flat_members name fs" and "map_of fs name = Some (JStr s)" and "list_all is_ascii s"
  shows "string_field name (map coerce_member fs) x = Some s"
proof -
  have keys: "list_all is_ascii k" if "(k, v) \<in> set fs" for k v
    using that assms(1) by (auto simp: flat_members_def)
  have "map coerce_member fs = map (\<lambda>(k, v). (k, coerce_json v)) fs"
    by (rule map_cong) (use keys in auto)
  moreover have "flat_members name (map (\<lambda>(k, v). (k, coerce_json v)) fs)"
    using assms(1) scalar_coerce by (auto simp: flat_members_def comp_def case_prod_unfold)
  moreover have "map_of (map (\<lambda>(k, v). (k, coerce_json v)) fs) name = Some (JStr s)"
    using assms(2,3) by (simp add: map_of_map)
  ultimately show ?thesis by (metis string_field_flat)
qed

end
