(* ===== verification/Http.thy ===== *)
theory Http
  imports Redis Json_Roundtrip
begin

text \<open>
  Requests and responses as the handlers of \<^verbatim>\<open>internal/api\<close> see them: what they use of \<^verbatim>\<open>net/http\<close>, \<^verbatim>\<open>net\<close> and \<^verbatim>\<open>time\<close>, and
  the two helpers of \<^verbatim>\<open>internal/api/json.go\<close>.

  A response is a value that is handed from step to step (\<open>statusRecorder\<close>): the first status that is written counts,
  and headers set after it do not. It also carries the pattern the router noted for the request.
\<close>

section \<open>Header names\<close>

text \<open>\<^verbatim>\<open>textproto.CanonicalMIMEHeaderKey\<close> on the names the program uses, which are all valid.\<close>

fun canonical_from :: "bool \<Rightarrow> string \<Rightarrow> string" where
  "canonical_from up [] = []"
| "canonical_from up (c # s) =
     (if up then ascii_upper c else ascii_lower c) # canonical_from (c = CHR ''-'') s"

definition canonical :: "string \<Rightarrow> string" where
  "canonical k = canonical_from True k"

type_synonym header = "(string \<times> string) list" \<comment> \<open>canonical names, in the order they came\<close>

definition header_Get :: "header \<Rightarrow> string \<Rightarrow> string" where
  "header_Get h k = (case find (\<lambda>p. fst p = canonical k) h of None \<Rightarrow> '''' | Some p \<Rightarrow> snd p)"

definition header_put :: "string \<Rightarrow> string \<Rightarrow> header \<Rightarrow> header" where
  "header_put k v h = filter (\<lambda>p. fst p \<noteq> canonical k) h @ [(canonical k, v)]"

definition header_drop :: "string \<Rightarrow> header \<Rightarrow> header" where
  "header_drop k h = filter (\<lambda>p. fst p \<noteq> canonical k) h"

lemma header_Get_put [simp]:
  "header_Get (header_put k v h) j = (if canonical j = canonical k then v else header_Get h j)"
proof -
  have "find (\<lambda>p. fst p = a) (filter (\<lambda>p. fst p \<noteq> b) h) = (if a = b then None else find (\<lambda>p. fst p = a) h)" for a b
    by (induction h) auto
  then show ?thesis by (simp add: header_Get_def header_put_def find_append split: option.split)
qed

section \<open>Requests\<close>

text \<open>
  A request, with what the router and the middleware put into its context: the parameter \<^verbatim>\<open>id\<close> of the
  route and the claims of the access token. The body is the bytes that can be read of it.
\<close>

record Request =
  req_Method :: string
  req_Path :: string \<comment> \<open>\<^verbatim>\<open>URL.Path\<close>\<close>
  req_RawPath :: string \<comment> \<open>\<^verbatim>\<open>URL.RawPath\<close>, empty unless the path was sent in an unusual encoding\<close>
  req_Header :: header
  req_Cookies :: "(string \<times> string) list"
  req_Body :: string
  req_RemoteAddr :: string
  req_URLParam_id :: string
  req_claims :: "Claims option"

type_synonym url = "string \<times> string"

text \<open>The path of the URL and its raw form, both of which a router may look at.\<close>

definition req_URL :: "Request \<Rightarrow> url" where
  "req_URL r = (req_Path r, req_RawPath r)"

definition req_Cookie :: "Request \<Rightarrow> string \<Rightarrow> string option" where
  "req_Cookie r name = map_option snd (find (\<lambda>p. fst p = name) (req_Cookies r))"

section \<open>Responses\<close>

definition SameSiteLaxMode :: int where
  "SameSiteLaxMode = 2"

record Cookie =
  ck_Name :: string
  ck_Value :: string
  ck_Path :: string
  ck_Expires :: time
  ck_MaxAge :: int
  ck_HttpOnly :: bool
  ck_Secure :: bool
  ck_SameSite :: int

record statusRecorder =
  sr_statusCode :: int \<comment> \<open>the field of the source's type\<close>
  rw_status :: "int option" \<comment> \<open>what has been sent\<close>
  rw_header :: header
  rw_cookies :: "Cookie list"
  rw_body :: string
  rw_pattern :: string \<comment> \<open>\<^verbatim>\<open>chi.RouteContext(r.Context()).RoutePattern()\<close>\<close>

definition WriteHeader :: "int \<Rightarrow> statusRecorder \<Rightarrow> statusRecorder" where
  "WriteHeader code w =
     w\<lparr>sr_statusCode := code,
       rw_status := (case rw_status w of None \<Rightarrow> Some code | Some c \<Rightarrow> Some c)\<rparr>"

text \<open>Writing a body sends the status 200 if none was sent.\<close>

definition Write :: "string \<Rightarrow> statusRecorder \<Rightarrow> statusRecorder" where
  "Write s w =
     w\<lparr>rw_status := (case rw_status w of None \<Rightarrow> Some 200 | Some c \<Rightarrow> Some c), rw_body := rw_body w @ s\<rparr>"

definition header_Set :: "string \<Rightarrow> string \<Rightarrow> statusRecorder \<Rightarrow> statusRecorder" where
  "header_Set k v w = (if rw_status w = None then w\<lparr>rw_header := header_put k v (rw_header w)\<rparr> else w)"

definition SetCookie :: "Cookie \<Rightarrow> statusRecorder \<Rightarrow> statusRecorder" where
  "SetCookie c w = (if rw_status w = None then w\<lparr>rw_cookies := rw_cookies w @ [c]\<rparr> else w)"

definition http_Error :: "string \<Rightarrow> int \<Rightarrow> statusRecorder \<Rightarrow> statusRecorder" where
  "http_Error message code w =
     Write (message @ [CHR 0x0A]) (WriteHeader code
       (header_Set ''X-Content-Type-Options'' ''nosniff'' (header_Set ''Content-Type'' ''text/plain; charset=utf-8''
         (if rw_status w = None then w\<lparr>rw_header := header_drop ''Content-Length'' (rw_header w)\<rparr> else w))))"

section \<open>\<open>json.go\<close>\<close>

definition writeJSON :: "int \<Rightarrow> json \<Rightarrow> statusRecorder \<Rightarrow> statusRecorder" where
  "writeJSON statusCode v w =
     Write (Marshal v @ [CHR 0x0A]) (WriteHeader statusCode (header_Set ''Content-Type'' ''application/json'' w))"

definition errorResponse :: "string \<Rightarrow> json" where
  "errorResponse message = JObj [(''error'', JStr message)]"

definition writeJSONError :: "int \<Rightarrow> string \<Rightarrow> statusRecorder \<Rightarrow> statusRecorder" where
  "writeJSONError statusCode message w = writeJSON statusCode (errorResponse message) w"

text \<open>A response nothing has been sent of yet.\<close>

definition fresh_response :: "statusRecorder \<Rightarrow> bool" where
  "fresh_response w \<longleftrightarrow> rw_status w = None \<and> rw_body w = ''''"

lemma WriteHeader_status [simp]:
  "rw_status (WriteHeader c w) = (case rw_status w of None \<Rightarrow> Some c | Some d \<Rightarrow> Some d)"
  "rw_status (header_Set k v w) = rw_status w" "rw_status (SetCookie ck w) = rw_status w"
  "rw_status (Write s w) = (case rw_status w of None \<Rightarrow> Some 200 | Some d \<Rightarrow> Some d)"
  by (simp_all add: WriteHeader_def header_Set_def SetCookie_def Write_def)

lemma writeJSON_fresh [simp]:
  assumes "rw_status w = None"
  shows "rw_status (writeJSON c v w) = Some c" and "sr_statusCode (writeJSON c v w) = c"
    and "rw_body (writeJSON c v w) = rw_body w @ Marshal v @ [CHR 0x0A]"
    and "rw_cookies (writeJSON c v w) = rw_cookies w"
    and "rw_header (writeJSON c v w) = header_put ''Content-Type'' ''application/json'' (rw_header w)"
  using assms by (simp_all add: writeJSON_def header_Set_def Write_def WriteHeader_def)

section \<open>Addresses\<close>

definition index_of :: "char \<Rightarrow> string \<Rightarrow> nat option" where
  "index_of c s = (if c \<in> set s then Some (length (takeWhile (\<lambda>x. x \<noteq> c) s)) else None)"

definition last_index_of :: "char \<Rightarrow> string \<Rightarrow> nat option" where
  "last_index_of c s = map_option (\<lambda>k. length s - 1 - k) (index_of c (rev s))"

text \<open>\<^verbatim>\<open>net.SplitHostPort\<close>: the host, or nothing where it returns an error.\<close>

definition SplitHostPort :: "string \<Rightarrow> string option" where
  "SplitHostPort hostport =
     (case last_index_of CHR '':'' hostport of
        None \<Rightarrow> None
      | Some i \<Rightarrow>
          let bracket = (hostport ! 0 = CHR ''['');
              close = index_of CHR '']'' hostport;
              split = (if bracket
                then (case close of
                        None \<Rightarrow> None
                      | Some e \<Rightarrow> if e + 1 = i then Some (take (e - 1) (drop 1 hostport), 1, e + 1) else None)
                else if CHR '':'' \<in> set (take i hostport) then None
                else Some (take i hostport, 0, 0))
          in (case split of
                None \<Rightarrow> None
              | Some (host, j, k) \<Rightarrow>
                  if CHR ''['' \<in> set (drop j hostport) \<or> CHR '']'' \<in> set (drop k hostport) then None
                  else Some host))"

section \<open>Times\<close>

text \<open>The day a number of days after 1 January 1970 in the Gregorian calendar: year, month, day.\<close>

definition civil :: "int \<Rightarrow> int \<times> int \<times> int" where
  "civil days =
     (let z = days + 719468;
          era = z div 146097;
          doe = z mod 146097;
          yoe = (doe - doe div 1460 + doe div 36524 - doe div 146096) div 365;
          doy = doe - (365 * yoe + yoe div 4 - yoe div 100);
          mp = (5 * doy + 2) div 153;
          month = (if mp < 10 then mp + 3 else mp - 9)
      in (yoe + era * 400 + (if month \<le> 2 then 1 else 0), month, doy - (153 * mp + 2) div 5 + 1))"

definition padded :: "nat \<Rightarrow> int \<Rightarrow> string" where
  "padded n i = (let s = Itoa i in replicate (n - length s) CHR ''0'' @ s)"

text \<open>The nanoseconds of a second without the zeros at their end.\<close>

definition fraction :: "int \<Rightarrow> string" where
  "fraction ns = (if ns = 0 then '''' else CHR ''.'' # rev (dropWhile (\<lambda>c. c = CHR ''0'') (rev (padded 9 ns))))"

text \<open>\<^verbatim>\<open>t.UTC()\<close> in JSON: RFC 3339 with the zone \<^verbatim>\<open>Z\<close>, for the years 0 to 9999.\<close>

definition utc_text :: "time \<Rightarrow> string" where
  "utc_text t =
     (let secs = t div 1000000000; sod = secs mod 86400 in
      case civil (secs div 86400) of (y, m, d) \<Rightarrow>
        padded 4 y @ ''-'' @ padded 2 m @ ''-'' @ padded 2 d @ ''T'' @
        padded 2 (sod div 3600) @ '':'' @ padded 2 (sod div 60 mod 60) @ '':'' @ padded 2 (sod mod 60) @
        fraction (t mod 1000000000) @ ''Z'')"

text \<open>
  \<^verbatim>\<open>int(d.Seconds())\<close>: the whole seconds, towards zero. The conversion through \<^verbatim>\<open>float64\<close> is exact on
  durations of less than \<open>2 ^ 23\<close> seconds, 97 days.
\<close>

definition int_Seconds :: "time \<Rightarrow> int" where
  "int_Seconds d = (if 0 \<le> d then d div 1000000000 else - ((- d) div 1000000000))"

end
