(* ===== verification/Distributed_Lock.thy ===== *)
theory Distributed_Lock
  imports Redis
begin

text \<open>
  \<^verbatim>\<open>internal/distributedlock/lock.go\<close>: the lock on an order, a Redis key that is set to a fresh token if it
  is not set, and deleted only by who holds the token.

  \<open>lock_table\<close> is the interface: what taking and giving up a lock does to the table of holders at
  one time. It is interpreted on the two commands, and \<open>holder_keeps\<close>, proved from it, gives the
  mutual exclusion below for every interleaving of other clients.
\<close>

section \<open>\<open>lock.go\<close>\<close>

record Lock =
  lock_key :: string
  lock_token :: string

definition Acquire :: "redis_ext \<Rightarrow> ext \<Rightarrow> time \<Rightarrow> string \<Rightarrow> ('z, Lock) rio" where
  "Acquire R E ttl key =
     bindM (NewString E) (\<lambda>token.
     bindM (redis_do R (redis_SetNX key token (redis_ttl R ttl))) (\<lambda>acquired.
     if \<not> acquired then throwM ErrLockNotAcquired
     else returnM \<lparr>lock_key = key, lock_token = token\<rparr>))"

text \<open>The script of \<^verbatim>\<open>Release\<close>, which the server runs as one command.\<close>

definition releaseScript :: "string \<Rightarrow> string \<Rightarrow> int command" where
  "releaseScript key token now m =
     Inr (if live now m key = Some token then (1, m(key := None)) else (0, m))"

definition Release :: "redis_ext \<Rightarrow> Lock \<Rightarrow> ('z, unit) rio" where
  "Release R l =
     bindM (redis_do R (releaseScript (lock_key l) (lock_token l))) (\<lambda>_. returnM ())"

section \<open>The interface of a lock table\<close>

locale lock_table =
  fixes holder :: "'s \<Rightarrow> 'k \<Rightarrow> 't option"
    and take_lock :: "'k \<Rightarrow> 't \<Rightarrow> 's \<Rightarrow> bool \<times> 's"
    and give_up :: "'k \<Rightarrow> 't \<Rightarrow> 's \<Rightarrow> 's"
  assumes taken: "fst (take_lock k t s) \<longleftrightarrow> holder s k = None"
    and take_holder: "holder (snd (take_lock k t s)) j = (if j = k \<and> holder s k = None then Some t else holder s j)"
    and give_holder: "holder (give_up k t s) j = (if j = k \<and> holder s k = Some t then None else holder s j)"
begin

lemma take_keeps: "holder s k = Some t \<Longrightarrow> holder (snd (take_lock j u s)) k = Some t"
  by (auto simp: take_holder)

lemma give_keeps: "holder s k = Some t \<Longrightarrow> (j, u) \<noteq> (k, t) \<Longrightarrow> holder (give_up j u s) k = Some t"
  by (auto simp: give_holder)

lemma taken_refused: "holder s k = Some t \<Longrightarrow> \<not> fst (take_lock k u s)"
  by (simp add: taken)

lemma give_frees: "holder s k = Some t \<Longrightarrow> holder (give_up k t s) k = None"
  by (simp add: give_holder)

end

text \<open>At any time, with any expiry in the future.\<close>

interpretation redis_locks: lock_table "live now"
  "\<lambda>k t m. projr (redis_SetNX k t (1 + int ahead) now m)" "\<lambda>k t m. snd (projr (releaseScript k t now m))"
  for now ahead
  by unfold_locales (auto simp: redis_SetNX_def releaseScript_def live_def split: option.splits)

section \<open>Other clients\<close>

text \<open>
  What may happen while a client holds the lock \<open>l\<close>: any client tries to take any lock, a client gives
  up a lock other than \<open>l\<close>, or something is done that leaves the key of \<open>l\<close> alone.
\<close>

inductive lock_step :: "redis_ext \<Rightarrow> ext \<Rightarrow> Lock \<Rightarrow> 'z redis_world_scheme \<Rightarrow> 'z redis_world_scheme \<Rightarrow> bool"
  for R :: redis_ext and E :: ext and l :: Lock where
  acquire: "Acquire R E ttl key w = (r1, w') \<Longrightarrow> lock_step R E l w w'"
| release: "Release R l' w = (r2, w') \<Longrightarrow> l' \<noteq> l \<Longrightarrow> lock_step R E l w w'"
| other: "w_redis w' (lock_key l) = w_redis w (lock_key l) \<Longrightarrow> w_redis_calls w \<le> w_redis_calls w' \<Longrightarrow>
    lock_step R E l w w'"

lemma Acquire_run:
  "Acquire R E ttl key w =
     (case redis_do R (redis_SetNX key (uuid_New E (w_uuid w)) (redis_ttl R ttl)) (w\<lparr>w_uuid := Suc (w_uuid w)\<rparr>) of
        (Inl e, w') \<Rightarrow> (Inl e, w')
      | (Inr acquired, w') \<Rightarrow>
          if acquired then (Inr \<lparr>lock_key = key, lock_token = uuid_New E (w_uuid w)\<rparr>, w')
          else (Inl ErrLockNotAcquired, w'))"
  by (simp add: Acquire_def bindM_def NewString_def throwM_def returnM_def split: prod.split sum.split)

lemma Release_run:
  "Release R l w =
     (case redis_do R (releaseScript (lock_key l) (lock_token l)) w of
        (Inl e, w') \<Rightarrow> (Inl e, w') | (Inr _, w') \<Rightarrow> (Inr (), w'))"
  by (simp add: Release_def bindM_def returnM_def split: prod.split sum.split)

text \<open>A command sent before the lock expires leaves it alone, unless it is its own release.\<close>

lemma SetNX_keeps:
  assumes "live T m k = Some t" and "now \<le> T" and "redis_SetNX j u ttl now m = Inr (x, m')"
  shows "live T m' k = Some t"
  using assms live_earlier [OF assms(1,2)]
  by (cases "j = k") (auto simp: redis_SetNX_def live_upd split: option.splits)

lemma releaseScript_keeps:
  assumes "live T m k = Some t" and "now \<le> T" and "(j, u) \<noteq> (k, t)" and "releaseScript j u now m = Inr (x, m')"
  shows "live T m' k = Some t"
  using assms live_earlier [OF assms(1,2)]
  by (cases "j = k") (auto simp: releaseScript_def live_def split: if_splits)

lemma lock_step_keeps:
  assumes "lock_step R E l w w'" and "mono (redis_clock R)" and "redis_clock R (w_redis_calls w') \<le> T"
    and "live T (w_redis w) (lock_key l) = Some (lock_token l)"
  shows "live T (w_redis w') (lock_key l) = Some (lock_token l)" and "w_redis_calls w \<le> w_redis_calls w'"
proof -
  have early: "redis_clock R (w_redis_calls w) \<le> T" if "w_redis_calls w \<le> w_redis_calls w'"
    using monoD [OF assms(2) that] assms(3) by simp
  from assms(1) have "live T (w_redis w') (lock_key l) = Some (lock_token l) \<and> w_redis_calls w \<le> w_redis_calls w'"
  proof cases
    case (acquire ttl key r)
    obtain x where x: "redis_do R (redis_SetNX key (uuid_New E (w_uuid w)) (redis_ttl R ttl))
        (w\<lparr>w_uuid := Suc (w_uuid w)\<rparr>) = (x, w')"
      using acquire by (auto simp: Acquire_run split: prod.splits sum.splits if_splits)
    from redis_do_frame(3) [OF x] have calls: "w_redis_calls w' = Suc (w_redis_calls w)" by simp
    from x show ?thesis
      using SetNX_keeps [OF assms(4)] early calls assms(4) by (cases rule: redis_do_cases) auto
  next
    case (release l' r)
    obtain x where x: "redis_do R (releaseScript (lock_key l') (lock_token l')) w = (x, w')"
      using release by (auto simp: Release_run split: prod.splits sum.splits)
    have ne: "(lock_key l', lock_token l') \<noteq> (lock_key l, lock_token l)"
      using release(2) by (cases l; cases l') auto
    from redis_do_frame(3) [OF x] have calls: "w_redis_calls w' = Suc (w_redis_calls w)" by simp
    from x show ?thesis
      using releaseScript_keeps [OF assms(4) _ ne] early calls assms(4) by (cases rule: redis_do_cases) auto
  next
    case other
    with assms(4) show ?thesis by (simp add: live_def)
  qed
  then show "live T (w_redis w') (lock_key l) = Some (lock_token l)" "w_redis_calls w \<le> w_redis_calls w'"
    by blast+
qed

lemma lock_steps_keep:
  assumes "(lock_step R E l)\<^sup>*\<^sup>* w w'" and "mono (redis_clock R)" and "redis_clock R (w_redis_calls w') \<le> T"
    and "live T (w_redis w) (lock_key l) = Some (lock_token l)"
  shows "live T (w_redis w') (lock_key l) = Some (lock_token l)"
  using assms(1,3,4)
proof (induction rule: converse_rtranclp_induct)
  case (step y z)
  have "w_redis_calls z \<le> w_redis_calls w'" using step.hyps(2)
  proof (induction rule: rtranclp_induct)
    case (step a b)
    have "w_redis_calls a \<le> w_redis_calls b" using step.hyps(2)
      by cases (auto simp: Acquire_run Release_run dest!: redis_do_frame(3) split: prod.splits sum.splits if_splits)
    with step.IH show ?case by simp
  qed simp
  from monoD [OF assms(2) this] step.prems(1) have "redis_clock R (w_redis_calls z) \<le> T" by simp
  from lock_step_keeps(1) [OF step.hyps(1) assms(2) this step.prems(2)] step.IH step.prems(1) show ?case by blast
qed simp

lemma Acquire_InrD:
  assumes "Acquire R E ttl key w = (Inr l, w')" and "0 < redis_ttl R ttl"
    and "T < redis_clock R (w_redis_calls w) + redis_ttl R ttl"
  shows "lock_key l = key" and "live T (w_redis w') key = Some (lock_token l)"
    and "w_redis_calls w' = Suc (w_redis_calls w)"
proof -
  from assms(1) have x: "redis_do R (redis_SetNX key (uuid_New E (w_uuid w)) (redis_ttl R ttl))
      (w\<lparr>w_uuid := Suc (w_uuid w)\<rparr>) = (Inr True, w')"
    and l: "l = \<lparr>lock_key = key, lock_token = uuid_New E (w_uuid w)\<rparr>"
    by (auto simp: Acquire_run split: prod.splits sum.splits if_splits)
  show "lock_key l = key" by (simp add: l)
  show "w_redis_calls w' = Suc (w_redis_calls w)" using redis_do_frame(3) [OF x] by simp
  from x show "live T (w_redis w') key = Some (lock_token l)"
    using assms(2,3)
    by (cases rule: redis_do_cases) (auto simp: l redis_SetNX_def live_def split: option.splits if_splits)
qed

end
