(* ===== verification/Auth.thy ===== *)
theory Auth
  imports Store
begin

text \<open>
  \<^verbatim>\<open>internal/auth/\<close> (access tokens, passwords, refresh tokens) and
  \<^verbatim>\<open>internal/service/auth_service.go\<close>.

  bcrypt, SHA-256, the JWT library and the random source are members of \<open>ext\<close>; what the
  program relies on of them is \<open>bcrypt_laws\<close> and \<open>jwt_laws\<close>. \<open>auth_step\<close> is the specification
  of the service on the database: a user is added, a session is opened, a session is revoked.
\<close>

section \<open>\<open>refresh_token.go\<close>\<close>

definition base64_digit :: "nat \<Rightarrow> char" where
  "base64_digit n =
     ''ABCDEFGHIJKLMNOPQRSTUVWXYZabcdefghijklmnopqrstuvwxyz0123456789-_'' ! (n mod 64)"

fun RawURLEncoding :: "string \<Rightarrow> string" where
  "RawURLEncoding (a # b # c # s) =
     (let n = 65536 * of_char a + 256 * of_char b + of_char c :: nat in
      base64_digit (n div 262144) # base64_digit (n div 4096) # base64_digit (n div 64) #
      base64_digit n # RawURLEncoding s)"
| "RawURLEncoding [a, b] =
     (let n = 1024 * of_char a + 4 * of_char b :: nat in
      [base64_digit (n div 4096), base64_digit (n div 64), base64_digit n])"
| "RawURLEncoding [a] =
     (let n = 16 * of_char a :: nat in [base64_digit (n div 64), base64_digit n])"
| "RawURLEncoding [] = []"

text \<open>The random source and bcrypt's salts are numbered by one counter.\<close>

definition rand_bytes :: "ext \<Rightarrow> ('z, string) io" where
  "rand_bytes E = (\<lambda>w. (rand_Read E (w_rand w), w\<lparr>w_rand := Suc (w_rand w)\<rparr>))"

definition GenerateRefreshToken :: "ext \<Rightarrow> ('z, string) io" where
  "GenerateRefreshToken E = bindM (rand_bytes E) (\<lambda>b. returnM (RawURLEncoding b))"

definition HashRefreshToken :: "ext \<Rightarrow> string \<Rightarrow> string" where
  "HashRefreshToken E token = hex_EncodeToString (sha256_Sum256 E token)"

section \<open>\<open>password.go\<close>\<close>

definition HashPassword :: "ext \<Rightarrow> string \<Rightarrow> ('z, string) io" where
  "HashPassword E password =
     (\<lambda>w. (bcrypt_Generate E (w_rand w) password, w\<lparr>w_rand := Suc (w_rand w)\<rparr>))"

definition CheckPasswordHash :: "ext \<Rightarrow> string \<Rightarrow> string \<Rightarrow> bool" where
  "CheckPasswordHash E password passwordHash = bcrypt_Compare E passwordHash password"

definition bcrypt_laws :: "ext \<Rightarrow> bool" where
  "bcrypt_laws E \<longleftrightarrow> (\<forall>n p h. bcrypt_Generate E n p = Inr h \<longrightarrow> bcrypt_Compare E h p)"

section \<open>\<open>jwt.go\<close>\<close>

record TokenManager =
  tm_secret :: string
  tm_ttl :: time

definition GenerateAccessToken ::
    "ext \<Rightarrow> TokenManager \<Rightarrow> string \<Rightarrow> string \<Rightarrow> string \<Rightarrow> ('z, string) io" where
  "GenerateAccessToken E m userID email role =
     bindM (Now E) (\<lambda>now.
     liftM (jwt_Sign E (tm_secret m)
       \<lparr>Claims_UserID = userID, Claims_Email = email, Claims_Role = role, Claims_Subject = userID,
        Claims_IssuedAt = jwt_NumericDate E now,
        Claims_ExpiresAt = jwt_NumericDate E (now + tm_ttl m)\<rparr>))"

text \<open>
  \<^verbatim>\<open>jwt.ParseWithClaims\<close>: the token is taken apart, the key function looks at its algorithm, the
  signature is verified, then the claims are validated at the present time.
\<close>

definition ParseAccessToken :: "ext \<Rightarrow> TokenManager \<Rightarrow> string \<Rightarrow> ('z, Claims) io" where
  "ParseAccessToken E m tokenString =
     (case jwt_Unverified E tokenString of
        None \<Rightarrow> throwM ErrInvalidToken
      | Some (alg, claims) \<Rightarrow>
          if alg \<noteq> ''HS256'' then throwM ErrInvalidToken
          else if \<not> jwt_Verify E alg (tm_secret m) tokenString then throwM ErrInvalidToken
          else
            bindM (Now E) (\<lambda>now.
            if \<not> jwt_Validate E now claims then throwM ErrInvalidToken
            else if Claims_UserID claims = '''' \<or> Claims_Email claims = '''' \<or> Claims_Role claims = ''''
            then throwM ErrInvalidToken
            else returnM claims))"

text \<open>
  What a token made with a key says: its algorithm and claims are read back, the signature
  verifies under the key, and the claims are valid until they expire. Claims are read back as
  they were when their texts are ASCII and their times whole seconds, to which
  \<^verbatim>\<open>jwt.NewNumericDate\<close> cuts a time.
\<close>

definition plain_claims :: "ext \<Rightarrow> Claims \<Rightarrow> bool" where
  "plain_claims E c \<longleftrightarrow>
     list_all is_ascii (Claims_UserID c) \<and> list_all is_ascii (Claims_Email c) \<and>
     list_all is_ascii (Claims_Role c) \<and> list_all is_ascii (Claims_Subject c) \<and>
     jwt_NumericDate E (Claims_IssuedAt c) = Claims_IssuedAt c \<and>
     jwt_NumericDate E (Claims_ExpiresAt c) = Claims_ExpiresAt c"

definition jwt_laws :: "ext \<Rightarrow> bool" where
  "jwt_laws E \<longleftrightarrow>
     (\<forall>t. jwt_NumericDate E (jwt_NumericDate E t) = jwt_NumericDate E t) \<and>
     (\<forall>k c t. jwt_Sign E k c = Inr t \<longrightarrow> plain_claims E c \<longrightarrow>
        jwt_Unverified E t = Some (''HS256'', c) \<and> jwt_Verify E ''HS256'' k t) \<and>
     (\<forall>now c. jwt_Validate E now c \<longleftrightarrow> now < Claims_ExpiresAt c)"

section \<open>\<open>auth_service.go\<close>\<close>

record AuthService =
  as_tokenManager :: TokenManager
  as_refreshTokenTTL :: time

record RegisterUserParams =
  rup_Email :: string
  rup_Password :: string
  rup_Role :: string

record LoginParams =
  lp_Email :: string
  lp_Password :: string

record LoginResult =
  lr_User :: User
  lr_AccessToken :: string
  lr_RefreshToken :: string
  lr_RefreshTokenExpiresAt :: time

record RefreshAccessTokenResult =
  rat_User :: User
  rat_AccessToken :: string

text \<open>\<^verbatim>\<open>errors.As\<close> finds the driver's error through wrapping.\<close>

fun isUniqueViolation :: "error \<Rightarrow> bool" where
  "isUniqueViolation (PgError code _) = (code = ''23505'')"
| "isUniqueViolation (Wrapf _ e) = isUniqueViolation e"
| "isUniqueViolation (Wrapped e _) = isUniqueViolation e"
| "isUniqueViolation _ = False"

definition normal_email :: "ext \<Rightarrow> string \<Rightarrow> string" where
  "normal_email E s = TrimSpace (ToLower (unicode_lower E) s)"

definition RegisterUser :: "ext \<Rightarrow> RegisterUserParams \<Rightarrow> ('z, User) io" where
  "RegisterUser E params =
     (let email = normal_email E (rup_Email params) in
      if email = '''' \<or> rup_Password params = '''' then throwM ErrInvalidInput
      else
        let role = (if rup_Role params = '''' then ''customer'' else rup_Role params) in
        if role \<noteq> ''customer'' \<and> role \<noteq> ''admin'' then throwM ErrInvalidInput
        else
          bindM (HashPassword E (rup_Password params)) (\<lambda>passwordHash.
          bindM (NewString E) (\<lambda>i.
          mapErrM (\<lambda>err. if isUniqueViolation err then ErrEmailAlreadyExists else err)
            (store_CreateUser E \<lparr>scu_ID = i, scu_Email = email, scu_PasswordHash = passwordHash,
              scu_Role = role\<rparr>))))"

definition Login :: "ext \<Rightarrow> AuthService \<Rightarrow> LoginParams \<Rightarrow> ('z, LoginResult) io" where
  "Login E s params =
     (let email = normal_email E (lp_Email params) in
      if email = '''' \<or> lp_Password params = '''' then throwM ErrInvalidInput
      else
        bindM (mapErrM (\<lambda>_. ErrInvalidCredentials) (store_GetUserByEmail E email)) (\<lambda>user.
        if \<not> CheckPasswordHash E (lp_Password params) (User_PasswordHash user)
        then throwM ErrInvalidCredentials
        else
          bindM (GenerateAccessToken E (as_tokenManager s) (uuid_String E (User_ID user))
            (User_Email user) (User_Role user)) (\<lambda>accessToken.
          bindM (GenerateRefreshToken E) (\<lambda>refreshToken.
          bindM (Now E) (\<lambda>now.
          let refreshTokenExpiresAt = now + as_refreshTokenTTL s in
          bindM (NewString E) (\<lambda>i.
          bindM (store_CreateRefreshToken E
            \<lparr>scr_ID = i, scr_UserID = uuid_String E (User_ID user),
             scr_TokenHash = HashRefreshToken E refreshToken, scr_ExpiresAt = refreshTokenExpiresAt\<rparr>) (\<lambda>_.
          returnM \<lparr>lr_User = user, lr_AccessToken = accessToken, lr_RefreshToken = refreshToken,
            lr_RefreshTokenExpiresAt = refreshTokenExpiresAt\<rparr>)))))))"

definition RefreshAccessToken ::
    "ext \<Rightarrow> AuthService \<Rightarrow> string \<Rightarrow> ('z, RefreshAccessTokenResult) io" where
  "RefreshAccessToken E s refreshToken =
     (if refreshToken = '''' then throwM ErrInvalidRefreshToken
      else
        bindM (mapErrM (\<lambda>_. ErrInvalidRefreshToken)
          (store_GetRefreshTokenByHash E (HashRefreshToken E refreshToken))) (\<lambda>storedToken.
        if RefreshToken_RevokedAt storedToken \<noteq> None then throwM ErrInvalidRefreshToken
        else
          bindM (Now E) (\<lambda>now.
          if now > RefreshToken_ExpiresAt storedToken then throwM ErrInvalidRefreshToken
          else
            bindM (mapErrM (\<lambda>_. ErrInvalidRefreshToken)
              (store_GetUser E (uuid_String E (RefreshToken_UserID storedToken)))) (\<lambda>user.
            bindM (GenerateAccessToken E (as_tokenManager s) (uuid_String E (User_ID user))
              (User_Email user) (User_Role user)) (\<lambda>accessToken.
            returnM \<lparr>rat_User = user, rat_AccessToken = accessToken\<rparr>)))))"

definition Logout :: "ext \<Rightarrow> string \<Rightarrow> ('z, unit) io" where
  "Logout E refreshToken =
     (if refreshToken = '''' then throwM ErrInvalidRefreshToken
      else
        bindM (mapErrM (\<lambda>_. ErrInvalidRefreshToken)
          (store_GetRefreshTokenByHash E (HashRefreshToken E refreshToken))) (\<lambda>storedToken.
        bindM (mapErrM (\<lambda>_. ErrInvalidRefreshToken)
          (store_RevokeRefreshToken E (uuid_String E (RefreshToken_ID storedToken)))) (\<lambda>_.
        returnM ())))"

definition auth_GetUser :: "ext \<Rightarrow> string \<Rightarrow> ('z, User) io" where
  "auth_GetUser E i = store_GetUser E i"

section \<open>The specification\<close>

inductive auth_step :: "db \<Rightarrow> db \<Rightarrow> bool" where
  registered: "\<lbrakk>User_ID u \<notin> User_ID ` set (tbl_users d); User_Email u \<notin> User_Email ` set (tbl_users d);
     user_check (User_Role u); TrimSpace (User_Email u) = User_Email u; User_Email u \<noteq> ''''\<rbrakk> \<Longrightarrow>
     auth_step d (d\<lparr>tbl_users := tbl_users d @ [u]\<rparr>)"
| logged_in: "\<lbrakk>RefreshToken_ID t \<notin> RefreshToken_ID ` set (tbl_refresh_tokens d);
     RefreshToken_TokenHash t \<notin> RefreshToken_TokenHash ` set (tbl_refresh_tokens d);
     RefreshToken_UserID t \<in> User_ID ` set (tbl_users d); RefreshToken_RevokedAt t = None\<rbrakk> \<Longrightarrow>
     auth_step d (d\<lparr>tbl_refresh_tokens := tbl_refresh_tokens d @ [t]\<rparr>)"
| revoked: "auth_step d (d\<lparr>tbl_refresh_tokens :=
     update_where (\<lambda>r. RefreshToken_ID r = i \<and> RefreshToken_RevokedAt r = None)
       (\<lambda>r. r\<lparr>RefreshToken_RevokedAt := Some now\<rparr>) (tbl_refresh_tokens d)\<rparr>)"

section \<open>The service refines the specification\<close>

lemma db_step_exec:
  "(\<And>t d x d'. q t d = Inr (x, d') \<Longrightarrow> P d d') \<Longrightarrow> keeps (db_step P) (exec E q)"
  by (rule keepsI) (auto simp: db_step_def dest: exec_effect)

lemma keeps_same_db_helpers [keeps_rules]:
  "keeps same_db (HashPassword E p)" "keeps same_db (rand_bytes E)" "keeps same_db (Now E)"
  by (auto intro!: keepsI simp: HashPassword_def rand_bytes_def same_db_def run_iff)

lemma keeps_same_db_tokens [keeps_rules]:
  "keeps same_db (GenerateAccessToken E m u e r)" "keeps same_db (GenerateRefreshToken E)"
  unfolding GenerateAccessToken_def GenerateRefreshToken_def
  by (intro keeps_rules same_db_rules)+

lemma normal_email_trim: "TrimSpace (normal_email E s) = normal_email E s"
  by (simp add: normal_email_def)

lemma RegisterUser_refines: "keeps (db_step auth_step) (RegisterUser E params)"
proof -
  have create: "keeps (db_step auth_step) (store_CreateUser E \<lparr>scu_ID = i,
      scu_Email = normal_email E s, scu_PasswordHash = h, scu_Role = r\<rparr>)"
    if "normal_email E s \<noteq> ''''" for i s h r
    unfolding store_CreateUser_def
    by (rule db_step_after_reads [OF keeps_Scan], rule db_step_exec)
      (use that in \<open>auto simp: Let_def normal_email_trim intro: auth_step.intros split: if_splits\<close>)
  show ?thesis
    unfolding RegisterUser_def Let_def
    by (auto intro!: same_db_db_step [OF keeps_throwM] reflp_same_db keeps_mapErrM create
        db_step_after_reads [OF keeps_same_db_helpers(1)] db_step_after_reads [OF keeps_NewString])
qed

lemma Login_refines: "keeps (db_step auth_step) (Login E s params)"
proof -
  have create: "keeps (db_step auth_step) (store_CreateRefreshToken E p)" for p
    unfolding store_CreateRefreshToken_def
    by (intro db_step_after_reads [OF keeps_Scan] db_step_exec)
      (auto simp: Let_def intro!: logged_in split: if_splits)
  show ?thesis
    unfolding Login_def Let_def
    by (intro keeps_if same_db_db_step [OF keeps_throwM] reflp_same_db db_step_after_reads
        db_step_before_reads [OF create] keeps_rules same_db_rules)
qed

lemma RefreshAccessToken_refines: "keeps same_db (RefreshAccessToken E s token)"
  unfolding RefreshAccessToken_def by (intro keeps_rules same_db_rules)

lemma Logout_refines: "keeps (db_step auth_step) (Logout E token)"
proof -
  have revoke: "keeps (db_step auth_step) (store_RevokeRefreshToken E i)" for i
    unfolding store_RevokeRefreshToken_def
    by (intro db_step_after_reads [OF keeps_Scan] db_step_exec)
      (auto simp: sql_RevokeRefreshToken_def intro!: revoked split: option.splits)
  show ?thesis
    unfolding Logout_def
    by (intro keeps_if same_db_db_step [OF keeps_throwM] reflp_same_db db_step_after_reads
        db_step_before_reads [OF keeps_mapErrM [OF revoke]] keeps_rules same_db_rules)
qed

section \<open>What the steps keep\<close>

lemma auth_step_schema: "auth_step d d' \<Longrightarrow> schema_ok d \<Longrightarrow> schema_ok d'"
proof (induction rule: auth_step.induct)
  case (revoked d i now)
  let ?p = "\<lambda>r. RefreshToken_ID r = i \<and> RefreshToken_RevokedAt r = None"
  let ?f = "\<lambda>r. r\<lparr>RefreshToken_RevokedAt := Some now\<rparr>"
  have "RefreshToken_UserID ` set (update_where ?p ?f (tbl_refresh_tokens d)) =
      RefreshToken_UserID ` set (tbl_refresh_tokens d)"
    using map_update_where [of "tbl_refresh_tokens d" ?p RefreshToken_UserID ?f]
    by (metis (no_types, lifting) RefreshToken.select_convs(2) RefreshToken.surjective
        RefreshToken.update_convs(5) list.set_map)
  with revoked show ?case by (simp add: schema_defs map_update_where)
qed (auto simp: schema_defs)

lemma auth_step_tables:
  "auth_step d d' \<Longrightarrow> tbl_orders d' = tbl_orders d \<and> tbl_payments d' = tbl_payments d \<and>
    tbl_idempotency_keys d' = tbl_idempotency_keys d \<and> tbl_outbox_events d' = tbl_outbox_events d \<and>
    tbl_processed_events d' = tbl_processed_events d \<and>
    tbl_notification_deliveries d' = tbl_notification_deliveries d \<and>
    set (tbl_users d) \<subseteq> set (tbl_users d')"
  by (induction rule: auth_step.induct) auto

text \<open>Sessions are never deleted, and a revoked one stays revoked.\<close>

definition same_session :: "RefreshToken \<Rightarrow> RefreshToken \<Rightarrow> bool" where
  "same_session t t' \<longleftrightarrow>
     RefreshToken_ID t' = RefreshToken_ID t \<and> RefreshToken_UserID t' = RefreshToken_UserID t \<and>
     RefreshToken_TokenHash t' = RefreshToken_TokenHash t \<and>
     RefreshToken_ExpiresAt t' = RefreshToken_ExpiresAt t \<and>
     (RefreshToken_RevokedAt t \<noteq> None \<longrightarrow> RefreshToken_RevokedAt t' = RefreshToken_RevokedAt t)"

definition sessions_grow :: "db \<Rightarrow> db \<Rightarrow> bool" where
  "sessions_grow d d' \<longleftrightarrow>
     (\<forall>t \<in> set (tbl_refresh_tokens d). \<exists>t' \<in> set (tbl_refresh_tokens d'). same_session t t')"

lemma same_session_refl [simp]: "same_session t t"
  by (simp add: same_session_def)

lemma sessions_grow_same: "tbl_refresh_tokens d' = tbl_refresh_tokens d \<Longrightarrow> sessions_grow d d'"
  by (auto simp: sessions_grow_def intro: same_session_refl)

lemma sessions_grow_trans: "sessions_grow a b \<Longrightarrow> sessions_grow b c \<Longrightarrow> sessions_grow a c"
  unfolding sessions_grow_def same_session_def by metis

lemma auth_step_sessions: "auth_step d d' \<Longrightarrow> sessions_grow d d'"
proof (induction rule: auth_step.induct)
  case (revoked d i now)
  have "\<exists>t' \<in> set (update_where (\<lambda>r. RefreshToken_ID r = i \<and> RefreshToken_RevokedAt r = None)
      (\<lambda>r. r\<lparr>RefreshToken_RevokedAt := Some now\<rparr>) (tbl_refresh_tokens d)). same_session t t'"
    if "t \<in> set (tbl_refresh_tokens d)" for t
    by (rule bexI [of _ "if RefreshToken_ID t = i \<and> RefreshToken_RevokedAt t = None
          then t\<lparr>RefreshToken_RevokedAt := Some now\<rparr> else t"])
      (use that in \<open>auto simp: update_where_def same_session_def\<close>)
  then show ?case by (simp add: sessions_grow_def)
qed (auto simp: sessions_grow_def intro: same_session_refl)

section \<open>Sessions\<close>

lemma refresh_revoked:
  assumes "keys_ok (w_db w)" and "t \<in> set (tbl_refresh_tokens (w_db w))"
    and "RefreshToken_TokenHash t = HashRefreshToken E token" and "RefreshToken_RevokedAt t \<noteq> None"
  shows "fst (RefreshAccessToken E s token w) = Inl ErrInvalidRefreshToken"
proof -
  have found: "t' = t" if "store_GetRefreshTokenByHash E (HashRefreshToken E token) w = (Inr t', w')" for t' w'
  proof -
    from that have "t' \<in> set (tbl_refresh_tokens (w_db w))" "RefreshToken_TokenHash t' = HashRefreshToken E token"
      by (auto simp: store_GetRefreshTokenByHash_def dest!: exec_InrD(1) refresh_tokens_by_hash.sel_InrD)
    with assms(1-3) show ?thesis by (auto simp: keys_ok_def intro: distinct_key_eq)
  qed
  obtain v w1 where v: "store_GetRefreshTokenByHash E (HashRefreshToken E token) w = (v, w1)"
    by (metis surj_pair)
  with found assms(4) show ?thesis
    by (cases v) (auto simp: RefreshAccessToken_def run_forward throwM_def bindM_def mapErrM_def)
qed

lemma Logout_revokes:
  assumes "Logout E token w = (Inr (), w')" and "keys_ok (w_db w)" and "uuid_laws E"
  obtains t where "t \<in> set (tbl_refresh_tokens (w_db w'))"
    and "RefreshToken_TokenHash t = HashRefreshToken E token" and "RefreshToken_RevokedAt t \<noteq> None"
proof -
  from assms(1) obtain t w1 x where
    get: "store_GetRefreshTokenByHash E (HashRefreshToken E token) w = (Inr t, w1)"
    and rev: "store_RevokeRefreshToken E (uuid_String E (RefreshToken_ID t)) w1 = (Inr x, w')"
    by (auto simp: Logout_def run_iff split: if_splits)
  from get have t: "t \<in> set (tbl_refresh_tokens (w_db w))"
      "RefreshToken_TokenHash t = HashRefreshToken E token" "w_db w1 = w_db w"
    by (auto simp: store_GetRefreshTokenByHash_def dest!: exec_InrD(1) refresh_tokens_by_hash.sel_InrD)
  from rev assms(3) have "sql_RevokeRefreshToken (RefreshToken_ID t) (stmt_time E w1) (w_db w) = Inr (x, w_db w')"
    by (auto simp: store_RevokeRefreshToken_def run_iff t(3) dest!: exec_InrD(1))
  then obtain t0 where t0: "t0 \<in> set (tbl_refresh_tokens (w_db w))" "RefreshToken_ID t0 = RefreshToken_ID t"
      "RefreshToken_RevokedAt t0 = None"
    and d': "w_db w' = (w_db w)\<lparr>tbl_refresh_tokens :=
      update_where (\<lambda>r. RefreshToken_ID r = RefreshToken_ID t \<and> RefreshToken_RevokedAt r = None)
        (\<lambda>r. r\<lparr>RefreshToken_RevokedAt := Some (stmt_time E w1)\<rparr>) (tbl_refresh_tokens (w_db w))\<rparr>"
    by (auto simp: sql_RevokeRefreshToken_def split: option.splits dest: find_SomeD)
  from assms(2) t(1) t0(1,2) have "t0 = t" by (auto simp: keys_ok_def intro: distinct_key_eq)
  with t0 have "t\<lparr>RefreshToken_RevokedAt := Some (stmt_time E w1)\<rparr> \<in> set (tbl_refresh_tokens (w_db w'))"
    by (auto simp: d' set_update_where)
  then show thesis by (rule that) (simp_all add: t(2))
qed

section \<open>Registration, login, access\<close>

lemma RegisterUser_InrD:
  assumes "RegisterUser E params w = (Inr u, w')"
  shows "w_db w' = (w_db w)\<lparr>tbl_users := tbl_users (w_db w) @ [u]\<rparr>"
    and "User_Email u = normal_email E (rup_Email params)" and "User_Email u \<noteq> ''''"
    and "User_Role u = (if rup_Role params = '''' then ''customer'' else rup_Role params)"
    and "bcrypt_Generate E (w_rand w) (rup_Password params) = Inr (User_PasswordHash u)"
    and "User_Email u \<notin> User_Email ` set (tbl_users (w_db w))"
  using assms
  by (auto simp: RegisterUser_def Let_def run_iff HashPassword_def store_CreateUser_def
      dest!: exec_InrD(1) split: if_splits)

lemma RegisterUser_taken:
  assumes "normal_email E (rup_Email params) \<in> User_Email ` set (tbl_users (w_db w))"
    and "rup_Password params \<noteq> ''''" and "normal_email E (rup_Email params) \<noteq> ''''"
    and "rup_Role params \<in> {'''', ''customer'', ''admin''}"
    and "sql_fault E (w_stmt w) = NoFault" and "bcrypt_Generate E (w_rand w) (rup_Password params) = Inr h"
    and "uuid_Scan E (uuid_New E (w_uuid w)) = Some i"
  shows "\<exists>w'. RegisterUser E params w = (Inl ErrEmailAlreadyExists, w') \<and> w_db w' = w_db w"
proof -
  have role: "user_check r" if "r \<in> {''customer'', ''admin''}" for r using that by (auto simp: user_check_def)
  show ?thesis
    using assms role
    by (auto simp: RegisterUser_def Let_def bindM_def HashPassword_def NewString_def mapErrM_def
        store_CreateUser_def Scan_def returnM_def exec_NoFault unique_violation_def check_violation_def)
qed

text \<open>The access token of a user is read back as the user's identity until it expires.\<close>

lemma GenerateAccessToken_InrD:
  assumes "GenerateAccessToken E m u e r w = (Inr t, w')"
  shows "jwt_Sign E (tm_secret m) \<lparr>Claims_UserID = u, Claims_Email = e, Claims_Role = r,
    Claims_Subject = u, Claims_IssuedAt = jwt_NumericDate E (time_Now E (w_clock w)),
    Claims_ExpiresAt = jwt_NumericDate E (time_Now E (w_clock w) + tm_ttl m)\<rparr> = Inr t"
  using assms by (auto simp: GenerateAccessToken_def run_iff)

lemma access_token_roundtrip:
  assumes "jwt_laws E" and "GenerateAccessToken E m u e r w = (Inr t, w')"
    and "list_all is_ascii u" "list_all is_ascii e" "list_all is_ascii r" and "u \<noteq> ''''" "e \<noteq> ''''" "r \<noteq> ''''"
  shows "ParseAccessToken E m t w2 =
    (if time_Now E (w_clock w2) < jwt_NumericDate E (time_Now E (w_clock w) + tm_ttl m)
     then Inr \<lparr>Claims_UserID = u, Claims_Email = e, Claims_Role = r,
       Claims_Subject = u, Claims_IssuedAt = jwt_NumericDate E (time_Now E (w_clock w)),
       Claims_ExpiresAt = jwt_NumericDate E (time_Now E (w_clock w) + tm_ttl m)\<rparr>
     else Inl ErrInvalidToken, w2\<lparr>w_clock := Suc (w_clock w2)\<rparr>)"
proof -
  let ?c = "\<lparr>Claims_UserID = u, Claims_Email = e, Claims_Role = r,
       Claims_Subject = u, Claims_IssuedAt = jwt_NumericDate E (time_Now E (w_clock w)),
       Claims_ExpiresAt = jwt_NumericDate E (time_Now E (w_clock w) + tm_ttl m)\<rparr>"
  have "plain_claims E ?c" using assms by (simp add: plain_claims_def jwt_laws_def)
  with GenerateAccessToken_InrD [OF assms(2)] assms(1)
  have t: "jwt_Unverified E t = Some (''HS256'', ?c)" "jwt_Verify E ''HS256'' (tm_secret m) t"
    "\<And>now c. jwt_Validate E now c \<longleftrightarrow> now < Claims_ExpiresAt c"
    unfolding jwt_laws_def by blast+
  show ?thesis
    using assms(6-8)
    by (simp add: ParseAccessToken_def t bindM_def Now_def throwM_def returnM_def)
qed

text \<open>A forged token is refused: another algorithm, a signature that does not verify, or expired claims.\<close>

lemma ParseAccessToken_InrD:
  assumes "ParseAccessToken E m t w = (Inr c, w')"
  shows "jwt_Unverified E t = Some (''HS256'', c)" and "jwt_Verify E ''HS256'' (tm_secret m) t"
    and "jwt_Validate E (time_Now E (w_clock w)) c"
    and "Claims_UserID c \<noteq> ''''" and "Claims_Email c \<noteq> ''''" and "Claims_Role c \<noteq> ''''"
  using assms by (auto simp: ParseAccessToken_def run_iff split: option.splits if_splits)

lemma Login_InrD:
  fixes w :: "'z world_scheme"
  assumes "Login E s params w = (Inr res, w')" and "uuid_laws E"
  obtains t and w1 w2 :: "'z world_scheme" where "lr_User res \<in> set (tbl_users (w_db w))"
    and "User_Email (lr_User res) = normal_email E (lp_Email params)"
    and "bcrypt_Compare E (User_PasswordHash (lr_User res)) (lp_Password params)"
    and "GenerateAccessToken E (as_tokenManager s) (uuid_String E (User_ID (lr_User res)))
      (User_Email (lr_User res)) (User_Role (lr_User res)) w1 = (Inr (lr_AccessToken res), w2)"
    and "w_db w' = (w_db w)\<lparr>tbl_refresh_tokens := tbl_refresh_tokens (w_db w) @ [t]\<rparr>"
    and "RefreshToken_TokenHash t = HashRefreshToken E (lr_RefreshToken res)"
    and "RefreshToken_UserID t = User_ID (lr_User res)" and "RefreshToken_RevokedAt t = None"
    and "RefreshToken_ExpiresAt t = pg_timestamp E (lr_RefreshTokenExpiresAt res)"
    and "w_clock w1 = w_clock w"
proof -
  from assms(1) obtain u w1 where u: "store_GetUserByEmail E (normal_email E (lp_Email params)) w = (Inr u, w1)"
    "bcrypt_Compare E (User_PasswordHash u) (lp_Password params)"
    by (auto simp: Login_def Let_def run_iff CheckPasswordHash_def split: if_splits)
  with assms(1) obtain at w2 rt w3 t w4 where
    a: "GenerateAccessToken E (as_tokenManager s) (uuid_String E (User_ID u)) (User_Email u) (User_Role u) w1 = (Inr at, w2)"
    and r: "GenerateRefreshToken E w2 = (Inr rt, w3)"
    and t: "store_CreateRefreshToken E \<lparr>scr_ID = uuid_New E (w_uuid w3), scr_UserID = uuid_String E (User_ID u),
      scr_TokenHash = HashRefreshToken E rt, scr_ExpiresAt = time_Now E (w_clock w3) + as_refreshTokenTTL s\<rparr>
      (w3\<lparr>w_clock := Suc (w_clock w3), w_uuid := Suc (w_uuid w3)\<rparr>) = (Inr t, w4)"
    and res: "w' = w4" "res = \<lparr>lr_User = u, lr_AccessToken = at, lr_RefreshToken = rt,
      lr_RefreshTokenExpiresAt = time_Now E (w_clock w3) + as_refreshTokenTTL s\<rparr>"
    by (auto simp: Login_def Let_def run_iff CheckPasswordHash_def split: if_splits)
  from u(1) have user: "u \<in> set (tbl_users (w_db w))" "User_Email u = normal_email E (lp_Email params)"
      "w_db w1 = w_db w" "w_clock w1 = w_clock w"
    using exec_frame [of E "sql_GetUserByEmail (normal_email E (lp_Email params))" w "Inr u" w1]
    by (auto simp: store_GetUserByEmail_def dest!: exec_InrD(1) users_by_email.sel_InrD)
  have db: "w_db w3 = w_db w"
    using same_dbD [OF keeps_same_db_tokens(1) a] same_dbD [OF keeps_same_db_tokens(2) r] user(3) by simp
  from t assms(2) db have "w_db w4 = (w_db w)\<lparr>tbl_refresh_tokens := tbl_refresh_tokens (w_db w) @ [t]\<rparr> \<and>
      RefreshToken_TokenHash t = HashRefreshToken E rt \<and> RefreshToken_UserID t = User_ID u \<and>
      RefreshToken_RevokedAt t = None \<and>
      RefreshToken_ExpiresAt t = pg_timestamp E (time_Now E (w_clock w3) + as_refreshTokenTTL s)"
    by (auto simp: store_CreateRefreshToken_def run_iff Let_def dest!: exec_InrD(1) split: if_splits)
  with user u(2) a res show thesis by (intro that [of w1 w2 t]) simp_all
qed

end
