(* ===== verification/Order_Service.thy ===== *)
theory Order_Service
  imports Store
begin

text \<open>
  \<^verbatim>\<open>internal/service/order_service.go\<close> and \<^verbatim>\<open>internal/service/idempotency.go\<close>: creating, listing, reading,
  paying and cancelling orders. Each operation is one definition with the code's order of
  checks; the closure an operation hands to \<^verbatim>\<open>WithTx\<close> is a definition of its own
  (\<open>CreateOrder_tx\<close>, \<open>PayOrder_tx\<close>, \<open>CancelOrder_tx\<close>), and so is the answer from a stored
  idempotency key (\<open>CreateOrder_replay\<close>, \<open>PayOrder_replay\<close>). That separates the look at the
  idempotency key from the transaction, between which other requests can run.

  \<open>order_step\<close> is the specification of what these operations may do to the database: create
  an order, record one payment attempt, cancel. The refinement lemmas (\<open>CreateOrder_refines\<close>,
  \<open>PayOrder_refines\<close>, \<open>CancelOrder_refines\<close>) say that whatever an operation returns, and
  whatever faults occur, the database is unchanged or has made one such step.
\<close>

section \<open>Constants and parameters\<close>

abbreviation OrderStatusPendingPayment :: string where
  "OrderStatusPendingPayment \<equiv> ''pending_payment''"

abbreviation OrderStatusPaid :: string where
  "OrderStatusPaid \<equiv> ''paid''"

abbreviation OrderStatusPaymentFailed :: string where
  "OrderStatusPaymentFailed \<equiv> ''payment_failed''"

abbreviation OrderStatusCancelled :: string where
  "OrderStatusCancelled \<equiv> ''cancelled''"

abbreviation PaymentStatusSucceeded :: string where
  "PaymentStatusSucceeded \<equiv> ''succeeded''"

abbreviation PaymentStatusFailed :: string where
  "PaymentStatusFailed \<equiv> ''failed''"

abbreviation PaymentProviderMock :: string where
  "PaymentProviderMock \<equiv> ''mock''"

abbreviation AggregateTypeOrder :: string where
  "AggregateTypeOrder \<equiv> ''order''"

abbreviation AggregateTypePayment :: string where
  "AggregateTypePayment \<equiv> ''payment''"

abbreviation EventTypeOrderCreated :: string where
  "EventTypeOrderCreated \<equiv> ''order.created''"

abbreviation EventTypeOrderCancelled :: string where
  "EventTypeOrderCancelled \<equiv> ''order.cancelled''"

abbreviation EventTypePaymentSucceeded :: string where
  "EventTypePaymentSucceeded \<equiv> ''payment.succeeded''"

abbreviation EventTypePaymentFailed :: string where
  "EventTypePaymentFailed \<equiv> ''payment.failed''"


abbreviation StatusOK :: int where
  "StatusOK \<equiv> 200"

abbreviation StatusCreated :: int where
  "StatusCreated \<equiv> 201"


record CreateOrderParams =
  cop_UserID :: string
  cop_IdempotencyKey :: string
  cop_Method :: string
  cop_Path :: string
  cop_AmountCents :: int
  cop_Currency :: string
  cop_Description :: string

record CreateOrderResult =
  cor_Order :: Order
  cor_StatusCode :: int
  cor_Cached :: bool

record ListOrdersParams =
  lop_UserID :: string
  lop_Role :: string

record GetOrderParams =
  gop_UserID :: string
  gop_Role :: string
  gop_OrderID :: string

record PayOrderParams =
  pop_UserID :: string
  pop_Role :: string
  pop_OrderID :: string
  pop_IdempotencyKey :: string
  pop_Method :: string
  pop_Path :: string

record PayOrderResult =
  por_Order :: Order
  por_Payment :: Payment
  por_StatusCode :: int
  por_Cached :: bool

record CancelOrderParams =
  xop_UserID :: string
  xop_Role :: string
  xop_OrderID :: string

section \<open>JSON bodies\<close>

definition HashRequestBody :: "ext \<Rightarrow> json \<Rightarrow> string" where
  "HashRequestBody E value = hex_EncodeToString (sha256_Sum256 E (Marshal value))"

definition createOrder_body :: "int \<Rightarrow> string \<Rightarrow> string \<Rightarrow> json" where
  "createOrder_body amount currency description =
     JObj [(''amount_cents'', JNum (Itoa amount)), (''currency'', JStr currency),
       (''description'', JStr description)]"

definition payOrder_body :: "string \<Rightarrow> json" where
  "payOrder_body orderID = JObj [(''order_id'', JStr orderID)]"

definition orderCreatedEventPayload ::
    "string \<Rightarrow> string \<Rightarrow> string \<Rightarrow> int \<Rightarrow> string \<Rightarrow> string \<Rightarrow> json" where
  "orderCreatedEventPayload orderID userID status amount currency description =
     JObj [(''order_id'', JStr orderID), (''user_id'', JStr userID), (''status'', JStr status),
       (''amount_cents'', JNum (Itoa amount)), (''currency'', JStr currency),
       (''description'', JStr description)]"

text \<open>\<^verbatim>\<open>omitempty\<close>: a member that is left out when the field is empty.\<close>

definition omitempty :: "string \<Rightarrow> string \<Rightarrow> (string \<times> json) list" where
  "omitempty k s = (if s = '''' then [] else [(k, JStr s)])"

definition paymentEventPayload ::
    "string \<Rightarrow> string \<Rightarrow> string \<Rightarrow> string \<Rightarrow> int \<Rightarrow> string \<Rightarrow> string \<Rightarrow> string \<Rightarrow> string \<Rightarrow> json" where
  "paymentEventPayload paymentID orderID userID status amount currency provider providerRef
       failureReason =
     JObj ([(''payment_id'', JStr paymentID), (''order_id'', JStr orderID),
       (''user_id'', JStr userID), (''status'', JStr status),
       (''amount_cents'', JNum (Itoa amount)), (''currency'', JStr currency),
       (''provider'', JStr provider)] @
       omitempty ''provider_ref'' providerRef @ omitempty ''failure_reason'' failureReason)"

definition orderCancelledEventPayload :: "string \<Rightarrow> string \<Rightarrow> string \<Rightarrow> json" where
  "orderCancelledEventPayload orderID userID status =
     JObj [(''order_id'', JStr orderID), (''user_id'', JStr userID), (''status'', JStr status)]"

text \<open>\<^verbatim>\<open>json.Marshal\<close> of a row: UUIDs and times as strings, null texts as null.\<close>

definition json_text :: "string option \<Rightarrow> json" where
  "json_text t = (case t of None \<Rightarrow> JNull | Some s \<Rightarrow> JStr s)"

definition json_Order :: "ext \<Rightarrow> Order \<Rightarrow> json" where
  "json_Order E r = JObj [(''id'', JStr (uuid_String E (Order_ID r))),
     (''user_id'', JStr (uuid_String E (Order_UserID r))), (''status'', JStr (Order_Status r)),
     (''amount_cents'', JNum (Itoa (Order_AmountCents r))), (''currency'', JStr (Order_Currency r)),
     (''description'', json_text (Order_Description r)),
     (''created_at'', JStr (time_MarshalJSON E (Order_CreatedAt r))),
     (''updated_at'', JStr (time_MarshalJSON E (Order_UpdatedAt r)))]"

definition json_Payment :: "ext \<Rightarrow> Payment \<Rightarrow> json" where
  "json_Payment E r = JObj [(''id'', JStr (uuid_String E (Payment_ID r))),
     (''order_id'', JStr (uuid_String E (Payment_OrderID r))), (''status'', JStr (Payment_Status r)),
     (''amount_cents'', JNum (Itoa (Payment_AmountCents r))), (''provider'', JStr (Payment_Provider r)),
     (''provider_ref'', json_text (Payment_ProviderRef r)),
     (''failure_reason'', json_text (Payment_FailureReason r)),
     (''created_at'', JStr (time_MarshalJSON E (Payment_CreatedAt r))),
     (''updated_at'', JStr (time_MarshalJSON E (Payment_UpdatedAt r)))]"

text \<open>\<^verbatim>\<open>String()\<close> of a nullable UUID: the empty text when it is null.\<close>

definition uuid_StringOpt :: "ext \<Rightarrow> uuid option \<Rightarrow> string" where
  "uuid_StringOpt E v = (case v of None \<Rightarrow> '''' | Some u \<Rightarrow> uuid_String E u)"

section \<open>CreateOrder\<close>

definition CreateOrder_replay ::
    "ext \<Rightarrow> CreateOrderParams \<Rightarrow> string \<Rightarrow> IdempotencyKey \<Rightarrow> ('z, CreateOrderResult) io" where
  "CreateOrder_replay E params requestHash existing =
     (if IdempotencyKey_Method existing \<noteq> cop_Method params \<or>
         IdempotencyKey_Path existing \<noteq> cop_Path params \<or>
         IdempotencyKey_RequestHash existing \<noteq> requestHash
      then throwM ErrIdempotencyConflict
      else
        bindM (store_GetOrder E (uuid_StringOpt E (IdempotencyKey_ResourceID existing))) (\<lambda>order.
        let statusCode = int4_Int32 (IdempotencyKey_StatusCode existing) in
        returnM \<lparr>cor_Order = order,
          cor_StatusCode = (if statusCode = 0 then StatusOK else statusCode), cor_Cached = True\<rparr>))"

definition CreateOrder_tx ::
    "ext \<Rightarrow> CreateOrderParams \<Rightarrow> string \<Rightarrow> string \<Rightarrow> string \<Rightarrow> string \<Rightarrow> ('z, Order) io" where
  "CreateOrder_tx E params idempotencyKey currency description requestHash =
     bindM (NewString E) (\<lambda>orderID.
     bindM (store_CreateOrder E
       \<lparr>sco_ID = orderID, sco_UserID = cop_UserID params, sco_Status = OrderStatusPendingPayment,
        sco_AmountCents = cop_AmountCents params, sco_Currency = currency,
        sco_Description = description\<rparr>) (\<lambda>order.
     bindM (NewString E) (\<lambda>eventID.
     bindM (store_CreateOutboxEvent E
       \<lparr>sce_ID = eventID, sce_AggregateType = AggregateTypeOrder,
        sce_AggregateID = uuid_String E (Order_ID order),
        sce_PartitionKey = uuid_String E (Order_ID order),
        sce_EventType = EventTypeOrderCreated,
        sce_Payload = orderCreatedEventPayload orderID (cop_UserID params)
          OrderStatusPendingPayment (cop_AmountCents params) currency description\<rparr>) (\<lambda>_.
     bindM (NewString E) (\<lambda>keyID.
     bindM (store_CreateIdempotencyKey E
       \<lparr>sci_ID = keyID, sci_UserID = cop_UserID params, sci_Key = idempotencyKey,
        sci_Method = cop_Method params, sci_Path = cop_Path params, sci_RequestHash = requestHash,
        sci_ResponseBody = json_Order E order, sci_StatusCode = StatusCreated,
        sci_ResourceType = ''order'', sci_ResourceID = uuid_String E (Order_ID order)\<rparr>) (\<lambda>_.
     returnM order))))))"

definition CreateOrder :: "ext \<Rightarrow> CreateOrderParams \<Rightarrow> ('z, CreateOrderResult) io" where
  "CreateOrder E params =
     (let idempotencyKey = TrimSpace (cop_IdempotencyKey params) in
      if idempotencyKey = '''' then throwM ErrIdempotencyKeyRequired
      else
        let currency = TrimSpace (ToUpper (unicode_upper E) (cop_Currency params));
            description = TrimSpace (cop_Description params) in
        if cop_UserID params = '''' \<or> cop_AmountCents params \<le> 0 \<or> currency = ''''
        then throwM ErrInvalidInput
        else
          let requestHash = HashRequestBody E
                (createOrder_body (cop_AmountCents params) currency description) in
          bindM (tryM (store_GetIdempotencyKey E (cop_UserID params) idempotencyKey)) (\<lambda>found.
          case found of
            Inr existing \<Rightarrow> CreateOrder_replay E params requestHash existing
          | Inl _ \<Rightarrow>
              bindM (WithTx E (CreateOrder_tx E params idempotencyKey currency description requestHash)) (\<lambda>createdOrder.
              bindM (Inc ''order_service_orders_created_total'' []) (\<lambda>_.
              returnM \<lparr>cor_Order = createdOrder, cor_StatusCode = StatusCreated, cor_Cached = False\<rparr>))))"

section \<open>ListOrders and GetOrder\<close>

definition ListOrders :: "ext \<Rightarrow> ListOrdersParams \<Rightarrow> ('z, Order list) io" where
  "ListOrders E params =
     (if lop_Role params = ''admin'' then store_ListOrders E
      else store_ListOrdersByUser E (lop_UserID params))"

definition GetOrder :: "ext \<Rightarrow> GetOrderParams \<Rightarrow> ('z, Order) io" where
  "GetOrder E params =
     bindM (mapErrM (\<lambda>_. ErrOrderNotFound) (store_GetOrder E (gop_OrderID params))) (\<lambda>order.
     if gop_Role params \<noteq> ''admin'' \<and> uuid_String E (Order_UserID order) \<noteq> gop_UserID params
     then throwM ErrOrderForbidden
     else returnM order)"

section \<open>PayOrder\<close>

definition mockPayment :: "string \<Rightarrow> string \<times> string \<times> string" where
  "mockPayment paymentID =
     (if HasSuffix paymentID ''0'' \<or> HasSuffix paymentID ''f''
      then (PaymentStatusFailed, '''', ''mock payment declined'')
      else (PaymentStatusSucceeded, ''mock_'' @ paymentID, ''''))"

definition PayOrder_replay ::
    "ext \<Rightarrow> PayOrderParams \<Rightarrow> string \<Rightarrow> IdempotencyKey \<Rightarrow> ('z, PayOrderResult) io" where
  "PayOrder_replay E params requestHash existing =
     (if IdempotencyKey_Method existing \<noteq> pop_Method params \<or>
         IdempotencyKey_Path existing \<noteq> pop_Path params \<or>
         IdempotencyKey_RequestHash existing \<noteq> requestHash
      then throwM ErrIdempotencyConflict
      else
        bindM (store_GetPayment E (uuid_StringOpt E (IdempotencyKey_ResourceID existing))) (\<lambda>payment.
        bindM (store_GetOrder E (uuid_String E (Payment_OrderID payment))) (\<lambda>order.
        let statusCode = int4_Int32 (IdempotencyKey_StatusCode existing) in
        returnM \<lparr>por_Order = order, por_Payment = payment,
          por_StatusCode = (if statusCode = 0 then StatusOK else statusCode), por_Cached = True\<rparr>)))"

definition PayOrder_tx ::
    "ext \<Rightarrow> PayOrderParams \<Rightarrow> string \<Rightarrow> string \<Rightarrow> ('z, PayOrderResult) io" where
  "PayOrder_tx E params idempotencyKey requestHash =
     bindM (mapErrM (\<lambda>_. ErrOrderNotFound) (store_GetOrderForUpdate E (pop_OrderID params))) (\<lambda>order.
     if pop_Role params \<noteq> ''admin'' \<and> uuid_String E (Order_UserID order) \<noteq> pop_UserID params
     then throwM ErrOrderForbidden
     else if Order_Status order \<noteq> OrderStatusPendingPayment \<and>
             Order_Status order \<noteq> OrderStatusPaymentFailed
     then throwM ErrOrderInvalidStatus
     else
       bindM (NewString E) (\<lambda>paymentID.
       case mockPayment paymentID of (paymentStatus, providerRef, failureReason) \<Rightarrow>
       let nextOrderStatus =
             (if paymentStatus = PaymentStatusFailed then OrderStatusPaymentFailed else OrderStatusPaid);
           eventType =
             (if paymentStatus = PaymentStatusFailed then EventTypePaymentFailed
              else EventTypePaymentSucceeded) in
       bindM (store_CreatePayment E
         \<lparr>scp_ID = paymentID, scp_OrderID = uuid_String E (Order_ID order),
          scp_Status = paymentStatus, scp_AmountCents = Order_AmountCents order,
          scp_Provider = PaymentProviderMock, scp_ProviderRef = providerRef,
          scp_FailureReason = failureReason\<rparr>) (\<lambda>payment.
       bindM (store_UpdateOrderStatus E (uuid_String E (Order_ID order)) nextOrderStatus) (\<lambda>updatedOrder.
       bindM (NewString E) (\<lambda>eventID.
       bindM (store_CreateOutboxEvent E
         \<lparr>sce_ID = eventID, sce_AggregateType = AggregateTypePayment,
          sce_AggregateID = uuid_String E (Payment_ID payment),
          sce_PartitionKey = uuid_String E (Order_ID order), sce_EventType = eventType,
          sce_Payload = paymentEventPayload (uuid_String E (Payment_ID payment))
            (uuid_String E (Order_ID order)) (uuid_String E (Order_UserID order))
            (Payment_Status payment) (Payment_AmountCents payment) (Order_Currency order)
            (Payment_Provider payment) providerRef failureReason\<rparr>) (\<lambda>_.
       bindM (NewString E) (\<lambda>keyID.
       bindM (store_CreateIdempotencyKey E
         \<lparr>sci_ID = keyID, sci_UserID = pop_UserID params, sci_Key = idempotencyKey,
          sci_Method = pop_Method params, sci_Path = pop_Path params,
          sci_RequestHash = requestHash, sci_ResponseBody = json_Payment E payment,
          sci_StatusCode = StatusOK, sci_ResourceType = ''payment'',
          sci_ResourceID = uuid_String E (Payment_ID payment)\<rparr>) (\<lambda>_.
       returnM \<lparr>por_Order = updatedOrder, por_Payment = payment, por_StatusCode = StatusOK,
         por_Cached = False\<rparr>))))))))"

definition PayOrder :: "ext \<Rightarrow> PayOrderParams \<Rightarrow> ('z, PayOrderResult) io" where
  "PayOrder E params =
     (if pop_UserID params = '''' \<or> pop_OrderID params = '''' then throwM ErrInvalidInput
      else
        let idempotencyKey = TrimSpace (pop_IdempotencyKey params) in
        if idempotencyKey = '''' then throwM ErrIdempotencyKeyRequired
        else
          let requestHash = HashRequestBody E (payOrder_body (pop_OrderID params)) in
          bindM (tryM (store_GetIdempotencyKey E (pop_UserID params) idempotencyKey)) (\<lambda>found.
          case found of
            Inr existing \<Rightarrow> PayOrder_replay E params requestHash existing
          | Inl _ \<Rightarrow>
              bindM (WithTx E (PayOrder_tx E params idempotencyKey requestHash)) (\<lambda>result.
              bindM (Inc ''order_service_payments_total'' [Payment_Status (por_Payment result)]) (\<lambda>_.
              returnM result))))"

section \<open>CancelOrder\<close>

definition CancelOrder_tx :: "ext \<Rightarrow> CancelOrderParams \<Rightarrow> ('z, Order) io" where
  "CancelOrder_tx E params =
     bindM (mapErrM (\<lambda>_. ErrOrderNotFound) (store_GetOrderForUpdate E (xop_OrderID params))) (\<lambda>order.
     if xop_Role params \<noteq> ''admin'' \<and> uuid_String E (Order_UserID order) \<noteq> xop_UserID params
     then throwM ErrOrderForbidden
     else if Order_Status order \<noteq> OrderStatusPendingPayment \<and>
             Order_Status order \<noteq> OrderStatusPaymentFailed
     then throwM ErrOrderInvalidStatus
     else
       bindM (store_UpdateOrderStatus E (uuid_String E (Order_ID order)) OrderStatusCancelled) (\<lambda>updatedOrder.
       bindM (NewString E) (\<lambda>eventID.
       bindM (store_CreateOutboxEvent E
         \<lparr>sce_ID = eventID, sce_AggregateType = AggregateTypeOrder,
          sce_AggregateID = uuid_String E (Order_ID updatedOrder),
          sce_PartitionKey = uuid_String E (Order_ID updatedOrder),
          sce_EventType = EventTypeOrderCancelled,
          sce_Payload = orderCancelledEventPayload (uuid_String E (Order_ID updatedOrder))
            (uuid_String E (Order_UserID updatedOrder)) (Order_Status updatedOrder)\<rparr>) (\<lambda>_.
       returnM updatedOrder))))"

definition CancelOrder :: "ext \<Rightarrow> CancelOrderParams \<Rightarrow> ('z, Order) io" where
  "CancelOrder E params =
     (if xop_UserID params = '''' \<or> xop_OrderID params = '''' then throwM ErrInvalidInput
      else WithTx E (CancelOrder_tx E params))"

end
