(* ===== verification/Order_Refinement.thy ===== *)
theory Order_Refinement
  imports Order_Service Json_Roundtrip
begin

text \<open>
  The specification of the order service as a step relation on the database, and the proof
  that the code refines it.

  \<open>order_step E d d'\<close> has one rule per thing the service may do: create an order, record a
  payment attempt, cancel an order. Each rule says which rows are added and which order
  changes, and nothing else changes. The refinement lemmas hold for every sequence of faults
  and random identifiers.
\<close>

section \<open>The specification\<close>

text \<open>A fresh outbox row about an order: its key, type and the owner named in its payload.\<close>

definition payload_user :: "ext \<Rightarrow> json \<Rightarrow> uuid \<Rightarrow> bool" where
  "payload_user E v u \<longleftrightarrow>
     (\<exists>fs s. v = jsonb E (JObj fs) \<and> flat_members ''user_id'' fs \<and>
        map_of fs ''user_id'' = Some (JStr s) \<and> uuid_Scan E s = Some u)"

definition new_event ::
    "ext \<Rightarrow> db \<Rightarrow> OutboxEvent \<Rightarrow> string \<Rightarrow> uuid \<Rightarrow> string \<Rightarrow> Order \<Rightarrow> bool" where
  "new_event E d e aggregate aggregate_id type r \<longleftrightarrow>
     OutboxEvent_ID e \<notin> OutboxEvent_ID ` set (tbl_outbox_events d) \<and>
     OutboxEvent_AggregateType e = aggregate \<and> OutboxEvent_AggregateID e = aggregate_id \<and>
     OutboxEvent_EventType e = type \<and> OutboxEvent_PartitionKey e = Order_ID r \<and>
     OutboxEvent_PublishedAt e = None \<and> OutboxEvent_Attempt e = 0 \<and>
     payload_user E (OutboxEvent_Payload e) (Order_UserID r)"

definition new_key :: "db \<Rightarrow> IdempotencyKey \<Rightarrow> string \<Rightarrow> uuid \<Rightarrow> int \<Rightarrow> bool" where
  "new_key d k rtype rid code \<longleftrightarrow>
     IdempotencyKey_ID k \<notin> IdempotencyKey_ID ` set (tbl_idempotency_keys d) \<and>
     idem_key k \<notin> idem_key ` set (tbl_idempotency_keys d) \<and>
     IdempotencyKey_UserID k \<in> User_ID ` set (tbl_users d) \<and>
     IdempotencyKey_ResourceType k = Some rtype \<and> IdempotencyKey_ResourceID k = Some rid \<and>
     IdempotencyKey_StatusCode k = Some code"

definition payable :: "Order \<Rightarrow> bool" where
  "payable r \<longleftrightarrow> Order_Status r \<in> {OrderStatusPendingPayment, OrderStatusPaymentFailed}"

definition set_order :: "uuid \<Rightarrow> string \<Rightarrow> time \<Rightarrow> Order list \<Rightarrow> Order list" where
  "set_order i s t = update_where (\<lambda>r. Order_ID r = i) (set_status s t)"

definition add_created :: "Order \<Rightarrow> OutboxEvent \<Rightarrow> IdempotencyKey \<Rightarrow> db \<Rightarrow> db" where
  "add_created r e k d = d\<lparr>tbl_orders := tbl_orders d @ [r],
     tbl_outbox_events := tbl_outbox_events d @ [e],
     tbl_idempotency_keys := tbl_idempotency_keys d @ [k]\<rparr>"

definition add_payment ::
    "Payment \<Rightarrow> string \<Rightarrow> time \<Rightarrow> OutboxEvent \<Rightarrow> IdempotencyKey \<Rightarrow> db \<Rightarrow> db" where
  "add_payment p s t e k d = d\<lparr>tbl_payments := tbl_payments d @ [p],
     tbl_orders := set_order (Payment_OrderID p) s t (tbl_orders d),
     tbl_outbox_events := tbl_outbox_events d @ [e],
     tbl_idempotency_keys := tbl_idempotency_keys d @ [k]\<rparr>"

definition add_cancelled :: "uuid \<Rightarrow> time \<Rightarrow> OutboxEvent \<Rightarrow> db \<Rightarrow> db" where
  "add_cancelled i t e d = d\<lparr>tbl_orders := set_order i OrderStatusCancelled t (tbl_orders d),
     tbl_outbox_events := tbl_outbox_events d @ [e]\<rparr>"

definition new_payment :: "db \<Rightarrow> Payment \<Rightarrow> Order \<Rightarrow> string \<Rightarrow> bool" where
  "new_payment d p r status \<longleftrightarrow>
     Payment_ID p \<notin> Payment_ID ` set (tbl_payments d) \<and> Payment_OrderID p = Order_ID r \<and>
     Payment_Status p = status \<and> Payment_AmountCents p = Order_AmountCents r"

inductive order_step :: "ext \<Rightarrow> db \<Rightarrow> db \<Rightarrow> bool" for E :: ext where
  created: "\<lbrakk>Order_ID r \<notin> Order_ID ` set (tbl_orders d); Order_UserID r \<in> User_ID ` set (tbl_users d);
     Order_Status r = OrderStatusPendingPayment; 0 < Order_AmountCents r;
     new_event E d e AggregateTypeOrder (Order_ID r) EventTypeOrderCreated r;
     new_key d k ''order'' (Order_ID r) StatusCreated\<rbrakk> \<Longrightarrow>
     order_step E d (add_created r e k d)"
| payment_succeeded: "\<lbrakk>r \<in> set (tbl_orders d); payable r;
     new_payment d p r PaymentStatusSucceeded;
     new_event E d e AggregateTypePayment (Payment_ID p) EventTypePaymentSucceeded r;
     new_key d k ''payment'' (Payment_ID p) StatusOK\<rbrakk> \<Longrightarrow>
     order_step E d (add_payment p OrderStatusPaid t e k d)"
| payment_failed: "\<lbrakk>r \<in> set (tbl_orders d); payable r;
     new_payment d p r PaymentStatusFailed;
     new_event E d e AggregateTypePayment (Payment_ID p) EventTypePaymentFailed r;
     new_key d k ''payment'' (Payment_ID p) StatusOK\<rbrakk> \<Longrightarrow>
     order_step E d (add_payment p OrderStatusPaymentFailed t e k d)"
| cancelled: "\<lbrakk>r \<in> set (tbl_orders d); payable r;
     new_event E d e AggregateTypeOrder (Order_ID r) EventTypeOrderCancelled r\<rbrakk> \<Longrightarrow>
     order_step E d (add_cancelled (Order_ID r) t e d)"

section \<open>What the statements of the transactions did\<close>

lemma ran_CreateOrder:
  assumes "ran E (sql_CreateOrder (i, u, s, a, c, desc)) w r w'"
  shows "w_db w' = (w_db w)\<lparr>tbl_orders := tbl_orders (w_db w) @ [r]\<rparr>"
    and "r = \<lparr>Order_ID = i, Order_UserID = u, Order_Status = s, Order_AmountCents = a,
      Order_Currency = c, Order_Description = desc, Order_CreatedAt = stmt_time E w,
      Order_UpdatedAt = stmt_time E w\<rparr>"
    and "i \<notin> Order_ID ` set (tbl_orders (w_db w))" and "u \<in> User_ID ` set (tbl_users (w_db w))"
    and "order_check s a"
  using assms by (auto simp: ran_def Let_def split: if_splits)

lemma ran_CreatePayment:
  assumes "ran E (sql_CreatePayment (i, v, s, a, prov, ref, reason)) w r w'"
  shows "w_db w' = (w_db w)\<lparr>tbl_payments := tbl_payments (w_db w) @ [r]\<rparr>"
    and "r = \<lparr>Payment_ID = i, Payment_OrderID = v, Payment_Status = s, Payment_AmountCents = a,
      Payment_Provider = prov, Payment_ProviderRef = ref, Payment_FailureReason = reason,
      Payment_CreatedAt = stmt_time E w, Payment_UpdatedAt = stmt_time E w\<rparr>"
    and "i \<notin> Payment_ID ` set (tbl_payments (w_db w))"
  using assms by (auto simp: ran_def Let_def split: if_splits)

lemma ran_UpdateOrderStatus:
  assumes "ran E (sql_UpdateOrderStatus i s) w r w'"
  shows "w_db w' = (w_db w)\<lparr>tbl_orders := set_order i s (stmt_time E w) (tbl_orders (w_db w))\<rparr>"
    and "\<exists>r0. find (\<lambda>x. Order_ID x = i) (tbl_orders (w_db w)) = Some r0 \<and>
      r = set_status s (stmt_time E w) r0"
  using assms
  by (auto simp: ran_def sql_UpdateOrderStatus_def set_order_def split: if_splits option.splits)

lemma ran_CreateOutboxEvent:
  assumes "ran E (sql_CreateOutboxEvent E (i, ty, a, k, ev, v)) w r w'"
  shows "w_db w' = (w_db w)\<lparr>tbl_outbox_events := tbl_outbox_events (w_db w) @ [r]\<rparr>"
    and "r = \<lparr>OutboxEvent_ID = i, OutboxEvent_AggregateType = ty, OutboxEvent_AggregateID = a,
      OutboxEvent_EventType = ev, OutboxEvent_Payload = jsonb E v, OutboxEvent_PublishedAt = None,
      OutboxEvent_Attempt = 0, OutboxEvent_LastError = None,
      OutboxEvent_CreatedAt = stmt_time E w, OutboxEvent_PartitionKey = k\<rparr>"
    and "i \<notin> OutboxEvent_ID ` set (tbl_outbox_events (w_db w))"
  using assms by (auto simp: ran_def Let_def split: if_splits)

lemma ran_CreateIdempotencyKey:
  assumes "ran E (sql_CreateIdempotencyKey E (i, u, k, m, pa, h, b, c, rt, ri)) w r w'"
  shows "w_db w' = (w_db w)\<lparr>tbl_idempotency_keys := tbl_idempotency_keys (w_db w) @ [r]\<rparr>"
    and "r = \<lparr>IdempotencyKey_ID = i, IdempotencyKey_UserID = u, IdempotencyKey_Key = k,
      IdempotencyKey_Method = m, IdempotencyKey_Path = pa, IdempotencyKey_RequestHash = h,
      IdempotencyKey_ResponseBody = jsonb E b, IdempotencyKey_StatusCode = c,
      IdempotencyKey_ResourceType = rt, IdempotencyKey_ResourceID = ri,
      IdempotencyKey_CreatedAt = stmt_time E w\<rparr>"
    and "i \<notin> IdempotencyKey_ID ` set (tbl_idempotency_keys (w_db w))"
    and "(u, k) \<notin> idem_key ` set (tbl_idempotency_keys (w_db w))"
    and "u \<in> User_ID ` set (tbl_users (w_db w))"
  using assms by (auto simp: ran_def Let_def split: if_splits)

lemmas ran_rows = ran_CreateOrder ran_CreatePayment ran_UpdateOrderStatus ran_CreateOutboxEvent
  ran_CreateIdempotencyKey

section \<open>The transactions refine the specification\<close>

lemma payload_userI:
  "flat_members ''user_id'' fs \<Longrightarrow> map_of fs ''user_id'' = Some (JStr s) \<Longrightarrow> uuid_Scan E s = Some u \<Longrightarrow>
    payload_user E (jsonb E (JObj fs)) u"
  by (auto simp: payload_user_def)

lemma payload_ascii:
  "list_all is_ascii ''order_id''" "list_all is_ascii ''status''" "list_all is_ascii ''amount_cents''"
  "list_all is_ascii ''currency''" "list_all is_ascii ''description''" "list_all is_ascii ''payment_id''"
  "list_all is_ascii ''provider''" "list_all is_ascii ''provider_ref''" "list_all is_ascii ''failure_reason''"
  "list_all is_ascii ''user_id''"
  by (simp_all add: is_ascii_def)

lemma payload_names:
  "\<not> is_field ''user_id'' ''order_id''" "\<not> is_field ''user_id'' ''status''" "\<not> is_field ''user_id'' ''amount_cents''"
  "\<not> is_field ''user_id'' ''currency''" "\<not> is_field ''user_id'' ''description''" "\<not> is_field ''user_id'' ''payment_id''"
  "\<not> is_field ''user_id'' ''provider''" "\<not> is_field ''user_id'' ''provider_ref''"
  "\<not> is_field ''user_id'' ''failure_reason''"
  by (simp_all only: is_field_ascii payload_ascii) (simp_all add: ascii_upper_def)

lemmas payload_flat = flat_members_def payload_names is_ascii_def wf_Itoa [unfolded wf_json.simps] omitempty_def

lemma payload_user_created:
  "uuid_Scan E s = Some u \<Longrightarrow> payload_user E (jsonb E (orderCreatedEventPayload i s st a c ds)) u"
  unfolding orderCreatedEventPayload_def
  by (rule payload_userI) (simp_all add: payload_flat)

lemma payload_user_payment:
  "uuid_Scan E s = Some u \<Longrightarrow>
    payload_user E (jsonb E (paymentEventPayload p i s st a c pr ref reason)) u"
  unfolding paymentEventPayload_def
  by (rule payload_userI) (auto simp: payload_flat)

lemma payload_user_cancelled:
  "uuid_Scan E s = Some u \<Longrightarrow> payload_user E (jsonb E (orderCancelledEventPayload i s st)) u"
  unfolding orderCancelledEventPayload_def
  by (rule payload_userI) (simp_all add: payload_flat)

text \<open>The rows a successful \<open>CreateOrder_tx\<close> has added.\<close>

definition created_key ::
    "CreateOrderParams \<Rightarrow> string \<Rightarrow> string \<Rightarrow> Order \<Rightarrow> IdempotencyKey \<Rightarrow> bool" where
  "created_key params key hash r k \<longleftrightarrow>
     idem_key k = (Order_UserID r, key) \<and> IdempotencyKey_Method k = cop_Method params \<and>
     IdempotencyKey_Path k = cop_Path params \<and> IdempotencyKey_RequestHash k = hash"

lemma CreateOrder_tx_spec:
  assumes run: "CreateOrder_tx E params key cur ds hash w = (Inr r, w')" and laws: "uuid_laws E"
  obtains e k where "w_db w' = add_created r e k (w_db w)"
    and "Order_ID r \<notin> Order_ID ` set (tbl_orders (w_db w))"
    and "uuid_Scan E (cop_UserID params) = Some (Order_UserID r)"
    and "Order_UserID r \<in> User_ID ` set (tbl_users (w_db w))"
    and "Order_Status r = OrderStatusPendingPayment"
    and "Order_AmountCents r = cop_AmountCents params" and "0 < Order_AmountCents r"
    and "Order_Currency r = cur" and "Order_Description r = pg_Text ds"
    and "new_event E (w_db w) e AggregateTypeOrder (Order_ID r) EventTypeOrderCreated r"
    and "new_key (w_db w) k ''order'' (Order_ID r) StatusCreated"
    and "created_key params key hash r k"
proof -
  from run obtain w1 w2 e w3 k where
    o: "store_CreateOrder E \<lparr>sco_ID = uuid_New E (w_uuid w), sco_UserID = cop_UserID params,
        sco_Status = OrderStatusPendingPayment, sco_AmountCents = cop_AmountCents params,
        sco_Currency = cur, sco_Description = ds\<rparr> (w\<lparr>w_uuid := Suc (w_uuid w)\<rparr>) = (Inr r, w1)"
    and ev: "store_CreateOutboxEvent E \<lparr>sce_ID = uuid_New E (w_uuid w1),
        sce_AggregateType = AggregateTypeOrder, sce_AggregateID = uuid_String E (Order_ID r),
        sce_PartitionKey = uuid_String E (Order_ID r), sce_EventType = EventTypeOrderCreated,
        sce_Payload = orderCreatedEventPayload (uuid_New E (w_uuid w)) (cop_UserID params)
          OrderStatusPendingPayment (cop_AmountCents params) cur ds\<rparr>
        (w1\<lparr>w_uuid := Suc (w_uuid w1)\<rparr>) = (Inr e, w2)"
    and ke: "store_CreateIdempotencyKey E \<lparr>sci_ID = uuid_New E (w_uuid w2),
        sci_UserID = cop_UserID params, sci_Key = key, sci_Method = cop_Method params,
        sci_Path = cop_Path params, sci_RequestHash = hash, sci_ResponseBody = json_Order E r,
        sci_StatusCode = StatusCreated, sci_ResourceType = ''order'',
        sci_ResourceID = uuid_String E (Order_ID r)\<rparr> (w2\<lparr>w_uuid := Suc (w_uuid w2)\<rparr>) = (Inr k, w3)"
    and w': "w' = w3"
    by (auto simp: CreateOrder_tx_def run_iff)
  from o obtain i u where o1: "uuid_Scan E (cop_UserID params) = Some u"
    and o2: "ran E (sql_CreateOrder (i, u, OrderStatusPendingPayment, cop_AmountCents params, cur,
        pg_Text ds)) (w\<lparr>w_uuid := Suc (w_uuid w)\<rparr>) r w1"
    by (auto elim!: store_CreateOrder_InrD)
  note o3 = ran_CreateOrder [OF o2, simplified]
  from ev laws obtain i' where
    "ran E (sql_CreateOutboxEvent E (i', AggregateTypeOrder, Order_ID r, Order_ID r,
        EventTypeOrderCreated, orderCreatedEventPayload (uuid_New E (w_uuid w)) (cop_UserID params)
          OrderStatusPendingPayment (cop_AmountCents params) cur ds))
        (w1\<lparr>w_uuid := Suc (w_uuid w1)\<rparr>) e w2"
    by (auto elim!: store_CreateOutboxEvent_InrD)
  note e3 = ran_CreateOutboxEvent [OF this, simplified]
  from ke laws o1 obtain i'' where
    "ran E (sql_CreateIdempotencyKey E (i'', u, key, cop_Method params, cop_Path params, hash,
        json_Order E r, pg_Int4 StatusCreated, pg_Text ''order'', Some (Order_ID r)))
        (w2\<lparr>w_uuid := Suc (w_uuid w2)\<rparr>) k w3"
    by (auto elim!: store_CreateIdempotencyKey_InrD)
  note k3 = ran_CreateIdempotencyKey [OF this, simplified]
  have u: "Order_UserID r = u" using o3(2) by simp
  have "w_db w' = add_created r e k (w_db w)"
    using w' o3(1) e3(1) k3(1) by (simp add: add_created_def)
  moreover have "new_event E (w_db w) e AggregateTypeOrder (Order_ID r) EventTypeOrderCreated r"
    unfolding new_event_def u using e3 o3(1) payload_user_created [OF o1] by simp
  moreover have "new_key (w_db w) k ''order'' (Order_ID r) StatusCreated"
    unfolding new_key_def using k3 e3(1) o3(1) by (simp add: pg_Int4_def pg_Text_def)
  moreover have "created_key params key hash r k"
    unfolding created_key_def u using k3(2) by simp
  ultimately show thesis
    using that [of e k] o1 o3 u by (simp add: order_check_def)
qed

text \<open>Who may act on an order: an admin, or the user it belongs to.\<close>

definition may_act :: "ext \<Rightarrow> string \<Rightarrow> string \<Rightarrow> Order \<Rightarrow> bool" where
  "may_act E role user r \<longleftrightarrow> role = ''admin'' \<or> uuid_String E (Order_UserID r) = user"

definition paid_key :: "ext \<Rightarrow> PayOrderParams \<Rightarrow> string \<Rightarrow> string \<Rightarrow> IdempotencyKey \<Rightarrow> bool" where
  "paid_key E params key hash k \<longleftrightarrow>
     uuid_Scan E (pop_UserID params) = Some (IdempotencyKey_UserID k) \<and>
     IdempotencyKey_Key k = key \<and> IdempotencyKey_Method k = pop_Method params \<and>
     IdempotencyKey_Path k = pop_Path params \<and> IdempotencyKey_RequestHash k = hash"

text \<open>What a payment attempt with this status makes of the order, and the event it sends.\<close>

definition order_status_after :: "string \<Rightarrow> string" where
  "order_status_after ps =
     (if ps = PaymentStatusFailed then OrderStatusPaymentFailed else OrderStatusPaid)"

definition payment_event_type :: "string \<Rightarrow> string" where
  "payment_event_type ps =
     (if ps = PaymentStatusFailed then EventTypePaymentFailed else EventTypePaymentSucceeded)"

lemma mockPayment_status: "fst (mockPayment i) \<in> {PaymentStatusSucceeded, PaymentStatusFailed}"
  by (simp add: mockPayment_def)

lemma PayOrder_tx_spec:
  assumes run: "PayOrder_tx E params key hash w = (Inr res, w')" and laws: "uuid_laws E"
    and tx: "w_tx w \<noteq> None"
  obtains r p e k where "r \<in> set (tbl_orders (w_db w))"
    and "uuid_Scan E (pop_OrderID params) = Some (Order_ID r)"
    and "may_act E (pop_Role params) (pop_UserID params) r" and "payable r"
    and "w_db w' = add_payment p (order_status_after (Payment_Status p)) (stmt_time E w) e k (w_db w)"
    and "new_payment (w_db w) p r (Payment_Status p)"
    and "Payment_Status p = fst (mockPayment (uuid_New E (w_uuid w)))"
    and "new_event E (w_db w) e AggregateTypePayment (Payment_ID p)
      (payment_event_type (Payment_Status p)) r"
    and "new_key (w_db w) k ''payment'' (Payment_ID p) StatusOK" and "paid_key E params key hash k"
    and "res = \<lparr>por_Order = set_status (order_status_after (Payment_Status p)) (stmt_time E w) r,
      por_Payment = p, por_StatusCode = StatusOK, por_Cached = False\<rparr>"
proof -
  obtain ps ref reason where mock: "mockPayment (uuid_New E (w_uuid w)) = (ps, ref, reason)"
    by (cases "mockPayment (uuid_New E (w_uuid w))")
  from run obtain r w1 where r: "store_GetOrderForUpdate E (pop_OrderID params) w = (Inr r, w1)"
    and rest: "\<not> (pop_Role params \<noteq> ''admin'' \<and> uuid_String E (Order_UserID r) \<noteq> pop_UserID params)"
      "\<not> (Order_Status r \<noteq> OrderStatusPendingPayment \<and> Order_Status r \<noteq> OrderStatusPaymentFailed)"
    by (auto simp: PayOrder_tx_def run_iff split: if_splits)
  note r3 = store_GetOrderForUpdate_InrD [OF r]
  from run r r3 rest mock obtain p w2 q w3 e w4 k w5 where
    p: "store_CreatePayment E \<lparr>scp_ID = uuid_New E (w_uuid w),
        scp_OrderID = uuid_String E (Order_ID r), scp_Status = ps,
        scp_AmountCents = Order_AmountCents r, scp_Provider = PaymentProviderMock,
        scp_ProviderRef = ref, scp_FailureReason = reason\<rparr> (w1\<lparr>w_uuid := Suc (w_uuid w1)\<rparr>) = (Inr p, w2)"
    and q: "store_UpdateOrderStatus E (uuid_String E (Order_ID r)) (order_status_after ps) w2 = (Inr q, w3)"
    and ev: "store_CreateOutboxEvent E \<lparr>sce_ID = uuid_New E (w_uuid w3),
        sce_AggregateType = AggregateTypePayment, sce_AggregateID = uuid_String E (Payment_ID p),
        sce_PartitionKey = uuid_String E (Order_ID r), sce_EventType = payment_event_type ps,
        sce_Payload = paymentEventPayload (uuid_String E (Payment_ID p)) (uuid_String E (Order_ID r))
          (uuid_String E (Order_UserID r)) (Payment_Status p) (Payment_AmountCents p)
          (Order_Currency r) (Payment_Provider p) ref reason\<rparr> (w3\<lparr>w_uuid := Suc (w_uuid w3)\<rparr>) = (Inr e, w4)"
    and ke: "store_CreateIdempotencyKey E \<lparr>sci_ID = uuid_New E (w_uuid w4),
        sci_UserID = pop_UserID params, sci_Key = key, sci_Method = pop_Method params,
        sci_Path = pop_Path params, sci_RequestHash = hash, sci_ResponseBody = json_Payment E p,
        sci_StatusCode = StatusOK, sci_ResourceType = ''payment'',
        sci_ResourceID = uuid_String E (Payment_ID p)\<rparr> (w4\<lparr>w_uuid := Suc (w_uuid w4)\<rparr>) = (Inr k, w5)"
    and w': "w' = w5"
    and res: "res = \<lparr>por_Order = q, por_Payment = p, por_StatusCode = StatusOK, por_Cached = False\<rparr>"
    by (auto simp: PayOrder_tx_def run_iff Let_def order_status_after_def payment_event_type_def)
  from p laws obtain i where p1: "ran E (sql_CreatePayment (i, Order_ID r, ps, Order_AmountCents r,
      PaymentProviderMock, pg_Text ref, pg_Text reason)) (w1\<lparr>w_uuid := Suc (w_uuid w1)\<rparr>) p w2"
    by (auto elim!: store_CreatePayment_InrD)
  note p3 = ran_CreatePayment [OF p1, simplified]
  from q laws have q1: "ran E (sql_UpdateOrderStatus (Order_ID r) (order_status_after ps)) w2 q w3"
    by (auto elim!: store_UpdateOrderStatus_InrD)
  note q3 = ran_UpdateOrderStatus [OF q1]
  from ev laws obtain i' where e1: "ran E (sql_CreateOutboxEvent E (i', AggregateTypePayment, Payment_ID p,
      Order_ID r, payment_event_type ps, paymentEventPayload (uuid_String E (Payment_ID p))
        (uuid_String E (Order_ID r)) (uuid_String E (Order_UserID r)) (Payment_Status p)
        (Payment_AmountCents p) (Order_Currency r) (Payment_Provider p) ref reason))
      (w3\<lparr>w_uuid := Suc (w_uuid w3)\<rparr>) e w4"
    by (auto elim!: store_CreateOutboxEvent_InrD)
  note e3 = ran_CreateOutboxEvent [OF e1, simplified]
  from ke laws obtain i'' v where v: "uuid_Scan E (pop_UserID params) = Some v"
    and k1: "ran E (sql_CreateIdempotencyKey E (i'', v, key, pop_Method params, pop_Path params, hash,
        json_Payment E p, pg_Int4 StatusOK, pg_Text ''payment'', Some (Payment_ID p)))
        (w4\<lparr>w_uuid := Suc (w_uuid w4)\<rparr>) k w5"
    by (auto elim!: store_CreateIdempotencyKey_InrD)
  note k3 = ran_CreateIdempotencyKey [OF k1, simplified]
  have time: "stmt_time E w2 = stmt_time E w"
    using tx p1 r3 by (auto simp: stmt_time_def ran_def)
  have ps: "Payment_Status p = ps" "Payment_OrderID p = Order_ID r"
    "Payment_AmountCents p = Order_AmountCents r" using p3(2) by simp_all
  have "w_db w' = add_payment p (order_status_after ps) (stmt_time E w) e k (w_db w)"
    using w' r3 p3(1) q3(1) e3(1) k3(1) ps by (simp add: add_payment_def time)
  moreover have "new_payment (w_db w) p r ps"
    unfolding new_payment_def using ps p3 r3 by simp
  moreover have "new_event E (w_db w) e AggregateTypePayment (Payment_ID p) (payment_event_type ps) r"
    unfolding new_event_def using e3 r3 p3(1) q3(1) payload_user_payment [OF uuid_lawsD(1) [OF laws]]
    by simp
  moreover have "new_key (w_db w) k ''payment'' (Payment_ID p) StatusOK"
    unfolding new_key_def using k3 e3(1) r3 p3(1) q3(1) by (simp add: pg_Int4_def pg_Text_def)
  moreover have "paid_key E params key hash k"
    unfolding paid_key_def using k3(2) v by simp
  moreover have "q = set_status (order_status_after ps) (stmt_time E w) r"
    using q3(2) p3(1) r3 by (auto simp: time)
  ultimately show thesis
    using that [of r p e k] r3 rest res ps mock by (auto simp: may_act_def payable_def)
qed

lemma CancelOrder_tx_spec:
  assumes run: "CancelOrder_tx E params w = (Inr q, w')" and laws: "uuid_laws E"
    and tx: "w_tx w \<noteq> None"
  obtains r e where "r \<in> set (tbl_orders (w_db w))"
    and "uuid_Scan E (xop_OrderID params) = Some (Order_ID r)"
    and "may_act E (xop_Role params) (xop_UserID params) r" and "payable r"
    and "w_db w' = add_cancelled (Order_ID r) (stmt_time E w) e (w_db w)"
    and "new_event E (w_db w) e AggregateTypeOrder (Order_ID r) EventTypeOrderCancelled r"
    and "q = set_status OrderStatusCancelled (stmt_time E w) r"
proof -
  from run obtain r w1 where r: "store_GetOrderForUpdate E (xop_OrderID params) w = (Inr r, w1)"
    and rest: "\<not> (xop_Role params \<noteq> ''admin'' \<and> uuid_String E (Order_UserID r) \<noteq> xop_UserID params)"
      "\<not> (Order_Status r \<noteq> OrderStatusPendingPayment \<and> Order_Status r \<noteq> OrderStatusPaymentFailed)"
    by (auto simp: CancelOrder_tx_def run_iff split: if_splits)
  note r3 = store_GetOrderForUpdate_InrD [OF r]
  from run r rest obtain w2 e w3 where
    q: "store_UpdateOrderStatus E (uuid_String E (Order_ID r)) OrderStatusCancelled w1 = (Inr q, w2)"
    and ev: "store_CreateOutboxEvent E \<lparr>sce_ID = uuid_New E (w_uuid w2),
        sce_AggregateType = AggregateTypeOrder, sce_AggregateID = uuid_String E (Order_ID q),
        sce_PartitionKey = uuid_String E (Order_ID q), sce_EventType = EventTypeOrderCancelled,
        sce_Payload = orderCancelledEventPayload (uuid_String E (Order_ID q))
          (uuid_String E (Order_UserID q)) (Order_Status q)\<rparr> (w2\<lparr>w_uuid := Suc (w_uuid w2)\<rparr>) = (Inr e, w3)"
    and w': "w' = w3"
    by (auto simp: CancelOrder_tx_def run_iff)
  from q laws have q1: "ran E (sql_UpdateOrderStatus (Order_ID r) OrderStatusCancelled) w1 q w2"
    by (auto elim!: store_UpdateOrderStatus_InrD)
  note q3 = ran_UpdateOrderStatus [OF q1]
  have time: "stmt_time E w1 = stmt_time E w"
    using tx r3 by (auto simp: stmt_time_def)
  have q4: "q = set_status OrderStatusCancelled (stmt_time E w) r"
    using q3(2) r3 by (auto simp: time)
  from ev laws obtain i' where e1: "ran E (sql_CreateOutboxEvent E (i', AggregateTypeOrder, Order_ID q,
      Order_ID q, EventTypeOrderCancelled, orderCancelledEventPayload (uuid_String E (Order_ID q))
        (uuid_String E (Order_UserID q)) (Order_Status q))) (w2\<lparr>w_uuid := Suc (w_uuid w2)\<rparr>) e w3"
    by (auto elim!: store_CreateOutboxEvent_InrD)
  note e3 = ran_CreateOutboxEvent [OF e1, simplified]
  have "w_db w' = add_cancelled (Order_ID r) (stmt_time E w) e (w_db w)"
    using w' r3 q3(1) e3(1) by (simp add: add_cancelled_def time)
  moreover have "new_event E (w_db w) e AggregateTypeOrder (Order_ID r) EventTypeOrderCancelled r"
    unfolding new_event_def
    using e3 r3 q3(1) q4 payload_user_cancelled [OF uuid_lawsD(1) [OF laws]] by simp
  ultimately show thesis
    using that [of r e] r3 rest q4 by (auto simp: may_act_def payable_def)
qed

section \<open>The operations refine the specification\<close>

lemma CreateOrder_tx_step:
  assumes "CreateOrder_tx E params key cur ds hash w = (Inr r, w')" and "uuid_laws E"
  shows "order_step E (w_db w) (w_db w')"
  using assms by (rule CreateOrder_tx_spec) (auto intro: order_step.created)

lemma PayOrder_tx_step:
  assumes "PayOrder_tx E params key hash w = (Inr res, w')" and "uuid_laws E" and "w_tx w \<noteq> None"
  shows "order_step E (w_db w) (w_db w')"
proof (rule PayOrder_tx_spec [OF assms])
  fix r p e k
  assume *: "r \<in> set (tbl_orders (w_db w))" "payable r"
    "w_db w' = add_payment p (order_status_after (Payment_Status p)) (stmt_time E w) e k (w_db w)"
    "new_payment (w_db w) p r (Payment_Status p)"
    "Payment_Status p = fst (mockPayment (uuid_New E (w_uuid w)))"
    "new_event E (w_db w) e AggregateTypePayment (Payment_ID p) (payment_event_type (Payment_Status p)) r"
    "new_key (w_db w) k ''payment'' (Payment_ID p) StatusOK"
  then consider "Payment_Status p = PaymentStatusSucceeded" | "Payment_Status p = PaymentStatusFailed"
    using mockPayment_status [of "uuid_New E (w_uuid w)"] by auto
  then show ?thesis
    using *(1-4,6,7) by cases (auto simp: order_status_after_def payment_event_type_def
      intro: order_step.payment_succeeded order_step.payment_failed)
qed

lemma CancelOrder_tx_step:
  assumes "CancelOrder_tx E params w = (Inr q, w')" and "uuid_laws E" and "w_tx w \<noteq> None"
  shows "order_step E (w_db w) (w_db w')"
  using assms by (rule CancelOrder_tx_spec) (auto intro: order_step.cancelled)


lemma keeps_replay [keeps_rules]:
  "keeps same_db (CreateOrder_replay E params h k)" "keeps same_db (PayOrder_replay E pp h k)"
  by (auto simp: CreateOrder_replay_def PayOrder_replay_def Let_def
      intro!: keeps_rules same_db_rules)

text \<open>The shape of an idempotent operation: look for the key, answer from it or run the transaction.\<close>

lemma db_step_idempotent:
  assumes "keeps same_db m" and "\<And>k. keeps same_db (replay k)" and "\<And>x. keeps same_db (post x)"
    and "\<And>w1 w2 x. w_tx w1 \<noteq> None \<Longrightarrow> tx w1 = (Inr x, w2) \<Longrightarrow> P (w_db w1) (w_db w2)"
  shows "keeps (db_step P) (bindM (tryM m) (\<lambda>found.
    case found of Inr k \<Rightarrow> replay k | Inl _ \<Rightarrow> bindM (WithTx E tx) post))"
proof (rule db_step_after_reads)
  show "keeps same_db (tryM m)" by (rule keeps_tryM [OF assms(1)])
  fix found :: "error + 'b"
  have "keeps (db_step P) (bindM (WithTx E tx) post)"
    by (rule db_step_before_reads [OF db_step_WithTx assms(3)]) (rule assms(4))
  then show "keeps (db_step P) (case found of Inr k \<Rightarrow> replay k | Inl _ \<Rightarrow> bindM (WithTx E tx) post)"
    using same_db_db_step [OF assms(2)] by (auto split: sum.splits)
qed

lemma CreateOrder_refines:
  assumes "uuid_laws E" shows "keeps (db_step (order_step E)) (CreateOrder E params)"
  unfolding CreateOrder_def Let_def
  by (intro keeps_if db_step_idempotent same_db_db_step [OF keeps_throwM] keeps_rules same_db_rules)
    (rule CreateOrder_tx_step [OF _ assms])

lemma PayOrder_refines:
  assumes "uuid_laws E" shows "keeps (db_step (order_step E)) (PayOrder E params)"
  unfolding PayOrder_def Let_def
  by (intro keeps_if db_step_idempotent same_db_db_step [OF keeps_throwM] keeps_rules same_db_rules)
    (rule PayOrder_tx_step [OF _ assms])

lemma CancelOrder_refines:
  assumes "uuid_laws E" shows "keeps (db_step (order_step E)) (CancelOrder E params)"
  unfolding CancelOrder_def
  by (intro keeps_if db_step_WithTx same_db_db_step [OF keeps_throwM] same_db_rules)
    (rule CancelOrder_tx_step [OF _ assms])

end
