(* ===== verification/Order_Invariants.thy ===== *)
theory Order_Invariants
  imports Order_Refinement
begin

text \<open>
  What the steps of the order service keep: the constraints of the schema, the agreement
  between the status of an order and its payments (\<open>ledger\<close>), the agreement between the orders
  and payments and the outbox rows that announce them (\<open>outbox_complete\<close>), and the agreement
  between idempotency keys and the rows they stand for (\<open>keys_complete\<close>). \<open>grows\<close> is what no
  step takes back: rows are never deleted, and only the status of an order changes.
\<close>

section \<open>The invariants\<close>

definition payments_of :: "db \<Rightarrow> uuid \<Rightarrow> Payment list" where
  "payments_of d i = filter (\<lambda>p. Payment_OrderID p = i) (tbl_payments d)"

definition succeeded :: "db \<Rightarrow> uuid \<Rightarrow> Payment list" where
  "succeeded d i = filter (\<lambda>p. Payment_Status p = PaymentStatusSucceeded) (payments_of d i)"

definition ledger_row :: "db \<Rightarrow> Order \<Rightarrow> bool" where
  "ledger_row d r \<longleftrightarrow>
     length (succeeded d (Order_ID r)) = (if Order_Status r = OrderStatusPaid then 1 else 0) \<and>
     (Order_Status r = OrderStatusPendingPayment \<longrightarrow> payments_of d (Order_ID r) = []) \<and>
     (Order_Status r = OrderStatusPaymentFailed \<longrightarrow> payments_of d (Order_ID r) \<noteq> []) \<and>
     (\<forall>p \<in> set (payments_of d (Order_ID r)). Payment_AmountCents p = Order_AmountCents r)"

definition ledger :: "db \<Rightarrow> bool" where
  "ledger d \<longleftrightarrow> (\<forall>r \<in> set (tbl_orders d). ledger_row d r)"

text \<open>The outbox rows of one type about one row.\<close>

definition events_of :: "db \<Rightarrow> string \<Rightarrow> uuid \<Rightarrow> OutboxEvent list" where
  "events_of d type i =
     filter (\<lambda>e. OutboxEvent_EventType e = type \<and> OutboxEvent_AggregateID e = i) (tbl_outbox_events d)"

definition announced_order :: "db \<Rightarrow> Order \<Rightarrow> bool" where
  "announced_order d r \<longleftrightarrow>
     length (events_of d EventTypeOrderCreated (Order_ID r)) = 1 \<and>
     length (events_of d EventTypeOrderCancelled (Order_ID r)) =
       (if Order_Status r = OrderStatusCancelled then 1 else 0)"

definition announced_payment :: "db \<Rightarrow> Payment \<Rightarrow> bool" where
  "announced_payment d p \<longleftrightarrow>
     length (events_of d EventTypePaymentSucceeded (Payment_ID p)) =
       (if Payment_Status p = PaymentStatusSucceeded then 1 else 0) \<and>
     length (events_of d EventTypePaymentFailed (Payment_ID p)) =
       (if Payment_Status p = PaymentStatusFailed then 1 else 0)"

text \<open>Every outbox row is about an order that exists, is keyed by it and names its owner.\<close>

definition event_grounded :: "ext \<Rightarrow> db \<Rightarrow> OutboxEvent \<Rightarrow> bool" where
  "event_grounded E d e \<longleftrightarrow>
     (\<exists>r \<in> set (tbl_orders d). OutboxEvent_PartitionKey e = Order_ID r \<and>
        payload_user E (OutboxEvent_Payload e) (Order_UserID r) \<and>
        (OutboxEvent_AggregateType e = AggregateTypeOrder \<longrightarrow> OutboxEvent_AggregateID e = Order_ID r) \<and>
        (OutboxEvent_AggregateType e = AggregateTypePayment \<longrightarrow>
           (\<exists>p \<in> set (tbl_payments d). Payment_ID p = OutboxEvent_AggregateID e \<and>
              Payment_OrderID p = Order_ID r)))"

definition outbox_complete :: "ext \<Rightarrow> db \<Rightarrow> bool" where
  "outbox_complete E d \<longleftrightarrow>
     (\<forall>r \<in> set (tbl_orders d). announced_order d r) \<and>
     (\<forall>p \<in> set (tbl_payments d). announced_payment d p) \<and>
     (\<forall>e \<in> set (tbl_outbox_events d). event_grounded E d e)"

text \<open>An idempotency key stands for an order that was created or a payment that was made.\<close>

definition key_grounded :: "db \<Rightarrow> IdempotencyKey \<Rightarrow> bool" where
  "key_grounded d k \<longleftrightarrow>
     (\<exists>i \<in> Order_ID ` set (tbl_orders d). IdempotencyKey_ResourceType k = Some ''order'' \<and>
        IdempotencyKey_ResourceID k = Some i \<and> IdempotencyKey_StatusCode k = Some StatusCreated) \<or>
     (\<exists>i \<in> Payment_ID ` set (tbl_payments d). IdempotencyKey_ResourceType k = Some ''payment'' \<and>
        IdempotencyKey_ResourceID k = Some i \<and> IdempotencyKey_StatusCode k = Some StatusOK)"

definition keys_complete :: "db \<Rightarrow> bool" where
  "keys_complete d \<longleftrightarrow> (\<forall>k \<in> set (tbl_idempotency_keys d). key_grounded d k)"

text \<open>What is never taken back.\<close>

definition same_order :: "Order \<Rightarrow> Order \<Rightarrow> bool" where
  "same_order r r' \<longleftrightarrow>
     Order_ID r' = Order_ID r \<and> Order_UserID r' = Order_UserID r \<and>
     Order_AmountCents r' = Order_AmountCents r \<and> Order_Currency r' = Order_Currency r \<and>
     Order_Description r' = Order_Description r \<and> Order_CreatedAt r' = Order_CreatedAt r"

definition grows :: "db \<Rightarrow> db \<Rightarrow> bool" where
  "grows d d' \<longleftrightarrow>
     set (tbl_users d) \<subseteq> set (tbl_users d') \<and>
     set (tbl_payments d) \<subseteq> set (tbl_payments d') \<and>
     set (tbl_idempotency_keys d) \<subseteq> set (tbl_idempotency_keys d') \<and>
     (\<forall>r \<in> set (tbl_orders d). \<exists>r' \<in> set (tbl_orders d'). same_order r r')"

section \<open>Rows before and after\<close>

lemma set_order_ids [simp]: "map Order_ID (set_order i s t rs) = map Order_ID rs"
  by (simp add: set_order_def map_update_where)

lemma set_order_ids_image [simp]: "Order_ID ` set (set_order i s t rs) = Order_ID ` set rs"
  by (metis set_order_ids list.set_map)

lemma set_order_users [simp]: "Order_UserID ` set (set_order i s t rs) = Order_UserID ` set rs"
proof -
  have "map Order_UserID (set_order i s t rs) = map Order_UserID rs"
    by (simp add: set_order_def map_update_where)
  then show ?thesis by (metis list.set_map)
qed

lemma mem_set_order:
  "r' \<in> set (set_order i s t rs) \<longleftrightarrow>
     (\<exists>r \<in> set rs. r' = (if Order_ID r = i then set_status s t r else r))"
  by (simp only: set_order_def update_where_def set_map image_iff)

lemma set_order_memI: "r \<in> set rs \<Longrightarrow> (if Order_ID r = i then set_status s t r else r) \<in> set (set_order i s t rs)"
  by (auto simp: mem_set_order)

lemma add_created_tables [simp]:
  "tbl_users (add_created r e k d) = tbl_users d"
  "tbl_orders (add_created r e k d) = tbl_orders d @ [r]"
  "tbl_payments (add_created r e k d) = tbl_payments d"
  "tbl_outbox_events (add_created r e k d) = tbl_outbox_events d @ [e]"
  "tbl_idempotency_keys (add_created r e k d) = tbl_idempotency_keys d @ [k]"
  "tbl_refresh_tokens (add_created r e k d) = tbl_refresh_tokens d"
  "tbl_processed_events (add_created r e k d) = tbl_processed_events d"
  "tbl_notification_deliveries (add_created r e k d) = tbl_notification_deliveries d"
  by (simp_all add: add_created_def)

lemma add_payment_tables [simp]:
  "tbl_users (add_payment p s t e k d) = tbl_users d"
  "tbl_orders (add_payment p s t e k d) = set_order (Payment_OrderID p) s t (tbl_orders d)"
  "tbl_payments (add_payment p s t e k d) = tbl_payments d @ [p]"
  "tbl_outbox_events (add_payment p s t e k d) = tbl_outbox_events d @ [e]"
  "tbl_idempotency_keys (add_payment p s t e k d) = tbl_idempotency_keys d @ [k]"
  "tbl_refresh_tokens (add_payment p s t e k d) = tbl_refresh_tokens d"
  "tbl_processed_events (add_payment p s t e k d) = tbl_processed_events d"
  "tbl_notification_deliveries (add_payment p s t e k d) = tbl_notification_deliveries d"
  by (simp_all add: add_payment_def)

lemma add_cancelled_tables [simp]:
  "tbl_users (add_cancelled i t e d) = tbl_users d"
  "tbl_orders (add_cancelled i t e d) = set_order i OrderStatusCancelled t (tbl_orders d)"
  "tbl_payments (add_cancelled i t e d) = tbl_payments d"
  "tbl_outbox_events (add_cancelled i t e d) = tbl_outbox_events d @ [e]"
  "tbl_idempotency_keys (add_cancelled i t e d) = tbl_idempotency_keys d"
  "tbl_refresh_tokens (add_cancelled i t e d) = tbl_refresh_tokens d"
  "tbl_processed_events (add_cancelled i t e d) = tbl_processed_events d"
  "tbl_notification_deliveries (add_cancelled i t e d) = tbl_notification_deliveries d"
  by (simp_all add: add_cancelled_def)

section \<open>The schema\<close>

lemma order_step_keys: "order_step E d d' \<Longrightarrow> keys_ok d \<Longrightarrow> keys_ok d'"
  by (induction rule: order_step.induct)
    (auto simp: keys_ok_def new_event_def new_key_def new_payment_def)

lemma order_step_refs: "order_step E d d' \<Longrightarrow> refs_ok d \<Longrightarrow> refs_ok d'"
  by (induction rule: order_step.induct)
    (auto simp: refs_ok_def new_event_def new_key_def new_payment_def)

lemma order_check_simps [simp]:
  "order_check OrderStatusPendingPayment a \<longleftrightarrow> 0 < a" "order_check OrderStatusPaid a \<longleftrightarrow> 0 < a"
  "order_check OrderStatusPaymentFailed a \<longleftrightarrow> 0 < a" "order_check OrderStatusCancelled a \<longleftrightarrow> 0 < a"
  "payment_check PaymentStatusSucceeded a \<longleftrightarrow> 0 < a" "payment_check PaymentStatusFailed a \<longleftrightarrow> 0 < a"
  by (simp_all add: order_check_def payment_check_def)

lemma checks_ok_amount: "checks_ok d \<Longrightarrow> r \<in> set (tbl_orders d) \<Longrightarrow> 0 < Order_AmountCents r"
  by (auto simp: checks_ok_def order_check_def)

lemma outbox_check_types [simp]:
  "outbox_check AggregateTypeOrder EventTypeOrderCreated"
  "outbox_check AggregateTypeOrder EventTypeOrderCancelled"
  "outbox_check AggregateTypePayment EventTypePaymentSucceeded"
  "outbox_check AggregateTypePayment EventTypePaymentFailed"
  by (simp_all add: outbox_check_def)

lemma order_step_checks:
  assumes "order_step E d d'" and ok: "checks_ok d"
  shows "checks_ok d'"
proof -
  note pos = checks_ok_amount [OF ok]
  from assms show ?thesis
    by cases (auto simp: checks_ok_def new_event_def new_payment_def mem_set_order pos)
qed

lemma order_step_schema: "order_step E d d' \<Longrightarrow> schema_ok d \<Longrightarrow> schema_ok d'"
  by (simp add: schema_ok_def order_step_keys order_step_refs order_step_checks)

section \<open>The ledger\<close>

lemma payments_of_add:
  "payments_of (add_payment p s t e k d) i =
     payments_of d i @ (if Payment_OrderID p = i then [p] else [])"
  by (simp add: payments_of_def)

lemma succeeded_add:
  "succeeded (add_payment p s t e k d) i = succeeded d i @
     (if Payment_OrderID p = i \<and> Payment_Status p = PaymentStatusSucceeded then [p] else [])"
  by (simp add: succeeded_def payments_of_add)

lemma payments_of_other [simp]:
  "payments_of (add_created r e k d) i = payments_of d i"
  "payments_of (add_cancelled j t e d) i = payments_of d i"
  by (simp_all add: payments_of_def)

lemma succeeded_other [simp]:
  "succeeded (add_created r e k d) i = succeeded d i"
  "succeeded (add_cancelled j t e d) i = succeeded d i"
  by (simp_all add: succeeded_def)

lemma payments_of_new_order:
  assumes "refs_ok d" and "i \<notin> Order_ID ` set (tbl_orders d)"
  shows "payments_of d i = []"
  using assms by (force simp: refs_ok_def payments_of_def filter_empty_conv)

lemma ledger_created:
  assumes "refs_ok d" and "ledger d" and "Order_ID r \<notin> Order_ID ` set (tbl_orders d)"
    and "Order_Status r = OrderStatusPendingPayment"
  shows "ledger (add_created r e k d)"
  using assms payments_of_new_order [OF assms(1,3)]
  by (auto simp: ledger_def ledger_row_def succeeded_def)

lemma ledger_payment:
  assumes "keys_ok d" and "ledger d" and "r \<in> set (tbl_orders d)" and "payable r"
    and "new_payment d p r ps" and "ps \<in> {PaymentStatusSucceeded, PaymentStatusFailed}"
  shows "ledger (add_payment p (order_status_after ps) t e k d)"
  unfolding ledger_def
proof
  fix q' assume "q' \<in> set (tbl_orders (add_payment p (order_status_after ps) t e k d))"
  then obtain q where q: "q \<in> set (tbl_orders d)"
    and q': "q' = (if Order_ID q = Payment_OrderID p then set_status (order_status_after ps) t q else q)"
    by (auto simp: mem_set_order)
  from assms(2) q have row: "ledger_row d q" by (simp add: ledger_def)
  show "ledger_row (add_payment p (order_status_after ps) t e k d) q'"
  proof (cases "Order_ID q = Payment_OrderID p")
    case False
    with row q' show ?thesis
      by (auto simp: ledger_row_def succeeded_add payments_of_add)
  next
    case True
    with assms(1,3,5) q have "q = r"
      by (auto simp: keys_ok_def new_payment_def intro: distinct_key_eq)
    with True row q' assms(4-6) show ?thesis
      by (auto simp: ledger_row_def succeeded_add payments_of_add new_payment_def payable_def
          order_status_after_def)
  qed
qed

lemma ledger_cancelled:
  assumes "keys_ok d" and "ledger d" and "r \<in> set (tbl_orders d)" and "payable r"
  shows "ledger (add_cancelled (Order_ID r) t e d)"
  unfolding ledger_def
proof
  fix q' assume "q' \<in> set (tbl_orders (add_cancelled (Order_ID r) t e d))"
  then obtain q where q: "q \<in> set (tbl_orders d)"
    and q': "q' = (if Order_ID q = Order_ID r then set_status OrderStatusCancelled t q else q)"
    by (auto simp: mem_set_order)
  have "Order_ID q = Order_ID r \<Longrightarrow> q = r"
    using assms(1,3) q by (auto simp: keys_ok_def intro: distinct_key_eq)
  with assms(2,4) q q' show "ledger_row (add_cancelled (Order_ID r) t e d) q'"
    by (auto simp: ledger_def ledger_row_def payable_def)
qed

lemma order_step_ledger:
  assumes "order_step E d d'" and "schema_ok d" and "ledger d"
  shows "ledger d'"
  using assms
  by (induction rule: order_step.induct)
    (auto simp: schema_ok_def intro: ledger_created ledger_cancelled
      dest: ledger_payment [where ps = PaymentStatusSucceeded]
        ledger_payment [where ps = PaymentStatusFailed] simp: order_status_after_def)

section \<open>The outbox\<close>

definition matches :: "OutboxEvent \<Rightarrow> string \<Rightarrow> uuid \<Rightarrow> bool" where
  "matches e type i \<longleftrightarrow> OutboxEvent_EventType e = type \<and> OutboxEvent_AggregateID e = i"

lemma events_of_snoc:
  assumes "tbl_outbox_events d' = tbl_outbox_events d @ [e]"
  shows "events_of d' type i = events_of d type i @ (if matches e type i then [e] else [])"
  using assms by (simp add: events_of_def matches_def)

text \<open>
  The events about an identifier that is not in use: none, since every event is about a row
  that exists.
\<close>

lemma outbox_check_aggregate:
  "outbox_check a t \<Longrightarrow> t \<in> {EventTypeOrderCreated, EventTypeOrderCancelled} \<Longrightarrow> a = AggregateTypeOrder"
  "outbox_check a t \<Longrightarrow> t \<in> {EventTypePaymentSucceeded, EventTypePaymentFailed} \<Longrightarrow>
    a = AggregateTypePayment"
  by (auto simp: outbox_check_def)

lemma event_grounded_aggregate:
  "event_grounded E d e \<Longrightarrow> OutboxEvent_AggregateType e = AggregateTypeOrder \<Longrightarrow>
    OutboxEvent_AggregateID e \<in> Order_ID ` set (tbl_orders d)"
  "event_grounded E d e \<Longrightarrow> OutboxEvent_AggregateType e = AggregateTypePayment \<Longrightarrow>
    OutboxEvent_AggregateID e \<in> Payment_ID ` set (tbl_payments d)"
  by (auto simp: event_grounded_def intro: rev_image_eqI)

lemma no_events_order:
  assumes "\<forall>e \<in> set (tbl_outbox_events d). event_grounded E d e" and "checks_ok d"
    and "i \<notin> Order_ID ` set (tbl_orders d)" and "type \<in> {EventTypeOrderCreated, EventTypeOrderCancelled}"
  shows "events_of d type i = []"
proof -
  have "OutboxEvent_AggregateID e \<noteq> i"
    if "e \<in> set (tbl_outbox_events d)" and "OutboxEvent_EventType e = type" for e
    using that assms event_grounded_aggregate(1) [of E d e] outbox_check_aggregate(1)
    by (auto simp: checks_ok_def)
  then show ?thesis by (auto simp: events_of_def filter_empty_conv)
qed

lemma no_events_payment:
  assumes "\<forall>e \<in> set (tbl_outbox_events d). event_grounded E d e" and "checks_ok d"
    and "i \<notin> Payment_ID ` set (tbl_payments d)"
    and "type \<in> {EventTypePaymentSucceeded, EventTypePaymentFailed}"
  shows "events_of d type i = []"
proof -
  have "OutboxEvent_AggregateID e \<noteq> i"
    if "e \<in> set (tbl_outbox_events d)" and "OutboxEvent_EventType e = type" for e
    using that assms event_grounded_aggregate(2) [of E d e] outbox_check_aggregate(2)
    by (auto simp: checks_ok_def)
  then show ?thesis by (auto simp: events_of_def filter_empty_conv)
qed

text \<open>Rows are never deleted, and of an order only the status and its time change.\<close>

lemma same_order_refl [simp]: "same_order r r"
  by (simp add: same_order_def set_status_def)

lemma same_order_set_status [simp]: "same_order r (set_status s t r)"
  by (simp add: same_order_def set_status_def)

lemma same_order_trans: "same_order a b \<Longrightarrow> same_order b c \<Longrightarrow> same_order a c"
  by (simp add: same_order_def)

lemma same_orderD:
  assumes "same_order r r'"
  shows "Order_ID r' = Order_ID r" "Order_UserID r' = Order_UserID r"
    "Order_AmountCents r' = Order_AmountCents r" "Order_Currency r' = Order_Currency r"
  using assms by (simp_all add: same_order_def)

lemma set_order_same: "r \<in> set rs \<Longrightarrow> \<exists>r' \<in> set (set_order i s t rs). same_order r r'"
  by (rule bexI [OF _ set_order_memI]) auto

lemma grows_refl [simp]: "grows d d"
  by (auto simp: grows_def intro: same_order_refl)

lemma order_step_grows: "order_step E d d' \<Longrightarrow> grows d d'"
  by (induction rule: order_step.induct)
    (auto simp: grows_def intro: set_order_same same_order_refl)

lemma grows_trans: "grows a b \<Longrightarrow> grows b c \<Longrightarrow> grows a c"
  unfolding grows_def by (meson same_order_trans subset_trans)

lemma event_grounded_grows:
  assumes "grows d d'" and "event_grounded E d e"
  shows "event_grounded E d' e"
proof -
  from assms(2) obtain r where r: "r \<in> set (tbl_orders d)" "OutboxEvent_PartitionKey e = Order_ID r"
    "payload_user E (OutboxEvent_Payload e) (Order_UserID r)"
    "OutboxEvent_AggregateType e = AggregateTypeOrder \<longrightarrow> OutboxEvent_AggregateID e = Order_ID r"
    "OutboxEvent_AggregateType e = AggregateTypePayment \<longrightarrow> (\<exists>p \<in> set (tbl_payments d).
       Payment_ID p = OutboxEvent_AggregateID e \<and> Payment_OrderID p = Order_ID r)"
    by (auto simp: event_grounded_def)
  from assms(1) r(1) obtain r' where r': "r' \<in> set (tbl_orders d')" "same_order r r'"
    by (auto simp: grows_def)
  from assms(1) have "set (tbl_payments d) \<subseteq> set (tbl_payments d')" by (simp add: grows_def)
  with r r' show ?thesis unfolding event_grounded_def
    by (intro bexI [of _ r']) (auto simp: same_orderD)
qed

lemma new_event_grounded:
  assumes "new_event E d e aggregate i type r" and "same_order r r'" and "r' \<in> set (tbl_orders d')"
    and "aggregate = AggregateTypeOrder \<and> i = Order_ID r \<or>
      aggregate = AggregateTypePayment \<and>
      (\<exists>p \<in> set (tbl_payments d'). Payment_ID p = i \<and> Payment_OrderID p = Order_ID r)"
  shows "event_grounded E d' e"
  unfolding event_grounded_def
  using assms by (intro bexI [of _ r']) (auto simp: new_event_def same_orderD)

lemma order_step_grounded:
  assumes "order_step E d d'" and "\<forall>e \<in> set (tbl_outbox_events d). event_grounded E d e"
  shows "\<forall>e \<in> set (tbl_outbox_events d'). event_grounded E d' e"
proof -
  note old = event_grounded_grows [OF order_step_grows [OF assms(1)]]
  from assms(1) show ?thesis
  proof cases
    case (created r e k)
    then have "event_grounded E d' e" by (auto intro: new_event_grounded [OF _ same_order_refl])
    with created assms(2) old show ?thesis by auto
  next
    case (payment_succeeded r p e k t)
    then obtain r' where "r' \<in> set (tbl_orders d')" "same_order r r'"
      by (metis add_payment_tables(2) set_order_same)
    with payment_succeeded have "event_grounded E d' e"
      by (auto simp: new_payment_def intro: new_event_grounded)
    with payment_succeeded assms(2) old show ?thesis by auto
  next
    case (payment_failed r p e k t)
    then obtain r' where "r' \<in> set (tbl_orders d')" "same_order r r'"
      by (metis add_payment_tables(2) set_order_same)
    with payment_failed have "event_grounded E d' e"
      by (auto simp: new_payment_def intro: new_event_grounded)
    with payment_failed assms(2) old show ?thesis by auto
  next
    case (cancelled r e t)
    then obtain r' where "r' \<in> set (tbl_orders d')" "same_order r r'"
      by (metis add_cancelled_tables(2) set_order_same)
    with cancelled have "event_grounded E d' e" by (auto intro: new_event_grounded)
    with cancelled assms(2) old show ?thesis by auto
  qed
qed

text \<open>Which of the counts a new event changes.\<close>

lemma new_event_matches:
  "new_event E d e aggregate i type r \<Longrightarrow> matches e type' j \<longleftrightarrow> type' = type \<and> j = i"
  by (auto simp: new_event_def matches_def)

lemma announced_created:
  assumes "schema_ok d" and "outbox_complete E d" and "Order_ID r \<notin> Order_ID ` set (tbl_orders d)"
    and "Order_Status r = OrderStatusPendingPayment"
    and "new_event E d e AggregateTypeOrder (Order_ID r) EventTypeOrderCreated r"
  shows "\<forall>q \<in> set (tbl_orders (add_created r e k d)). announced_order (add_created r e k d) q"
    and "\<forall>p \<in> set (tbl_payments (add_created r e k d)). announced_payment (add_created r e k d) p"
proof -
  note snoc = events_of_snoc [OF add_created_tables(4), of r e k d]
  note m = new_event_matches [OF assms(5)]
  have "events_of d EventTypeOrderCreated (Order_ID r) = []"
    "events_of d EventTypeOrderCancelled (Order_ID r) = []"
    using assms by (auto simp: outbox_complete_def schema_ok_def intro!: no_events_order)
  with assms(2,3,4) show "\<forall>q \<in> set (tbl_orders (add_created r e k d)). announced_order (add_created r e k d) q"
    by (auto simp: outbox_complete_def announced_order_def snoc m)
  show "\<forall>p \<in> set (tbl_payments (add_created r e k d)). announced_payment (add_created r e k d) p"
    using assms(2) by (auto simp: outbox_complete_def announced_payment_def snoc m)
qed

lemma announced_paid:
  assumes "schema_ok d" and "outbox_complete E d" and "r \<in> set (tbl_orders d)" and "payable r"
    and "new_payment d p r ps" and "ps \<in> {PaymentStatusSucceeded, PaymentStatusFailed}"
    and "new_event E d e AggregateTypePayment (Payment_ID p) (payment_event_type ps) r"
    and d': "d' = add_payment p (order_status_after ps) t e k d"
  shows "\<forall>q \<in> set (tbl_orders d'). announced_order d' q"
    and "\<forall>q \<in> set (tbl_payments d'). announced_payment d' q"
proof -
  note snoc = events_of_snoc [OF add_payment_tables(4), of p "order_status_after ps" t e k d]
  note m = new_event_matches [OF assms(7)]
  have none: "events_of d EventTypePaymentSucceeded (Payment_ID p) = []"
    "events_of d EventTypePaymentFailed (Payment_ID p) = []"
    using assms by (auto simp: outbox_complete_def schema_ok_def new_payment_def intro!: no_events_payment)
  have other: "Payment_ID q \<noteq> Payment_ID p" if "q \<in> set (tbl_payments d)" for q
    using that assms(5) by (metis image_eqI new_payment_def)
  from none other assms(2,5,6) show "\<forall>q \<in> set (tbl_payments d'). announced_payment d' q"
    by (auto simp: d' outbox_complete_def announced_payment_def snoc m new_payment_def payment_event_type_def)
  have ev: "events_of d' EventTypeOrderCreated i = events_of d EventTypeOrderCreated i"
    "events_of d' EventTypeOrderCancelled i = events_of d EventTypeOrderCancelled i" for i
    by (simp_all add: d' snoc m payment_event_type_def)
  have row: "announced_order d' (if Order_ID q = Payment_OrderID p
      then set_status (order_status_after ps) t q else q)" if q: "q \<in> set (tbl_orders d)" for q
  proof (cases "Order_ID q = Payment_OrderID p")
    case True
    with q assms(1,3,5) have "q = r"
      by (auto simp: schema_ok_def keys_ok_def new_payment_def intro: distinct_key_eq)
    with True assms(2,3,4) show ?thesis
      by (auto simp: outbox_complete_def announced_order_def ev payable_def order_status_after_def)
  next
    case False
    with q assms(2) show ?thesis by (simp add: outbox_complete_def announced_order_def ev)
  qed
  show "\<forall>q \<in> set (tbl_orders d'). announced_order d' q"
    unfolding d' add_payment_tables mem_set_order Ball_def by (auto simp only: row [unfolded d'])
qed

lemma announced_cancelled:
  assumes "schema_ok d" and "outbox_complete E d" and "r \<in> set (tbl_orders d)" and "payable r"
    and "new_event E d e AggregateTypeOrder (Order_ID r) EventTypeOrderCancelled r"
    and d': "d' = add_cancelled (Order_ID r) t e d"
  shows "\<forall>q \<in> set (tbl_orders d'). announced_order d' q"
    and "\<forall>q \<in> set (tbl_payments d'). announced_payment d' q"
proof -
  note snoc = events_of_snoc [OF add_cancelled_tables(4), of "Order_ID r" t e d]
  note m = new_event_matches [OF assms(5)]
  have row: "announced_order d' (if Order_ID q = Order_ID r
      then set_status OrderStatusCancelled t q else q)" if q: "q \<in> set (tbl_orders d)" for q
  proof (cases "Order_ID q = Order_ID r")
    case True
    with q assms(1,3) have "q = r"
      by (auto simp: schema_ok_def keys_ok_def intro: distinct_key_eq)
    with assms(2,3,4) show ?thesis
      by (auto simp: d' outbox_complete_def announced_order_def snoc m payable_def)
  next
    case False
    with q assms(2) show ?thesis by (simp add: d' outbox_complete_def announced_order_def snoc m)
  qed
  show "\<forall>q \<in> set (tbl_orders d'). announced_order d' q"
    unfolding d' add_cancelled_tables mem_set_order Ball_def by (auto simp only: row [unfolded d'])
  from assms(2) show "\<forall>q \<in> set (tbl_payments d'). announced_payment d' q"
    by (auto simp: d' outbox_complete_def announced_payment_def snoc m)
qed

lemma order_step_outbox:
  assumes "order_step E d d'" and "schema_ok d" and "outbox_complete E d"
  shows "outbox_complete E d'"
proof -
  have "\<forall>e \<in> set (tbl_outbox_events d'). event_grounded E d' e"
    using order_step_grounded [OF assms(1)] assms(3) by (simp add: outbox_complete_def)
  moreover have "(\<forall>q \<in> set (tbl_orders d'). announced_order d' q) \<and>
    (\<forall>q \<in> set (tbl_payments d'). announced_payment d' q)"
    using assms(1)
  proof cases
    case (created r e k)
    then show ?thesis using announced_created [OF assms(2,3)] by simp
  next
    case (payment_succeeded r p e k t)
    then show ?thesis
      using announced_paid [OF assms(2,3), where ps = PaymentStatusSucceeded]
      by (simp add: order_status_after_def payment_event_type_def)
  next
    case (payment_failed r p e k t)
    then show ?thesis
      using announced_paid [OF assms(2,3), where ps = PaymentStatusFailed]
      by (simp add: order_status_after_def payment_event_type_def)
  next
    case (cancelled r e t)
    then show ?thesis using announced_cancelled [OF assms(2,3)] by simp
  qed
  ultimately show ?thesis by (simp add: outbox_complete_def)
qed

section \<open>Idempotency keys\<close>

lemma grows_ids:
  assumes "grows d d'"
  shows "Order_ID ` set (tbl_orders d) \<subseteq> Order_ID ` set (tbl_orders d')"
    and "Payment_ID ` set (tbl_payments d) \<subseteq> Payment_ID ` set (tbl_payments d')"
    and "User_ID ` set (tbl_users d) \<subseteq> User_ID ` set (tbl_users d')"
proof -
  show "Order_ID ` set (tbl_orders d) \<subseteq> Order_ID ` set (tbl_orders d')"
  proof
    fix i assume "i \<in> Order_ID ` set (tbl_orders d)"
    then obtain r where "r \<in> set (tbl_orders d)" "i = Order_ID r" by auto
    with assms obtain r' where "r' \<in> set (tbl_orders d')" "Order_ID r' = i"
      by (auto simp: grows_def dest!: bspec same_orderD(1))
    then show "i \<in> Order_ID ` set (tbl_orders d')" by auto
  qed
qed (use assms in \<open>auto simp: grows_def\<close>)

lemma key_grounded_grows: "grows d d' \<Longrightarrow> key_grounded d k \<Longrightarrow> key_grounded d' k"
  unfolding key_grounded_def using grows_ids(1,2) [of d d'] by blast

lemma order_step_keys_complete:
  assumes "order_step E d d'" and "keys_complete d"
  shows "keys_complete d'"
proof -
  have old: "\<forall>k \<in> set (tbl_idempotency_keys d). key_grounded d' k"
    using assms(2) key_grounded_grows [OF order_step_grows [OF assms(1)]]
    by (simp add: keys_complete_def)
  from assms(1) show ?thesis
    by cases (use old in \<open>auto simp: keys_complete_def key_grounded_def new_key_def new_payment_def\<close>)
qed

section \<open>What the invariants depend on\<close>

lemma ledger_cong:
  "tbl_orders d' = tbl_orders d \<Longrightarrow> tbl_payments d' = tbl_payments d \<Longrightarrow> ledger d' = ledger d"
  by (simp add: ledger_def ledger_row_def succeeded_def payments_of_def)

lemma keys_complete_cong:
  "tbl_orders d' = tbl_orders d \<Longrightarrow> tbl_payments d' = tbl_payments d \<Longrightarrow>
   tbl_idempotency_keys d' = tbl_idempotency_keys d \<Longrightarrow> keys_complete d' = keys_complete d"
  by (simp add: keys_complete_def key_grounded_def)

lemma event_grounded_cong:
  "tbl_orders d' = tbl_orders d \<Longrightarrow> tbl_payments d' = tbl_payments d \<Longrightarrow>
   event_grounded E d' e = event_grounded E d e"
  by (simp add: event_grounded_def)

lemma outbox_complete_cong:
  assumes "tbl_orders d' = tbl_orders d" and "tbl_payments d' = tbl_payments d"
    and "tbl_outbox_events d' = tbl_outbox_events d"
  shows "outbox_complete E d' = outbox_complete E d"
  unfolding outbox_complete_def announced_order_def announced_payment_def events_of_def
    event_grounded_cong [OF assms(1,2)] assms ..

end
