(* ===== verification/Publisher.thy ===== *)
theory Publisher
  imports Order_Invariants
begin

text \<open>
  \<^verbatim>\<open>internal/publisher/outbox_publisher.go\<close> and \<^verbatim>\<open>internal/kafka/producer.go\<close>: the process that
  takes unpublished outbox rows, sends them to Kafka and marks them.

  One batch is one transaction. A message is sent before its row is marked, so what was sent
  stays sent when the transaction is rolled back: the row is sent again by a later batch
  (delivery at least once). \<open>publishes\<close> is what a batch can do to the outbox and the topic
  whatever fails; \<open>settle\<close> is exactly what it does when no statement fails.
\<close>

section \<open>producer.go\<close>

text \<open>What a call of \<^verbatim>\<open>Produce\<close> came to: the error \<^verbatim>\<open>Publish\<close> returns, and whether the broker has the message.\<close>

definition produce_error :: "produce_outcome \<Rightarrow> error option" where
  "produce_error x =
     (case x of
        EnqueueFailed e \<Rightarrow> Some (Wrapf ''enqueue kafka message: '' e)
      | ContextDone _ \<Rightarrow> Some ErrContext
      | UnexpectedEvent t _ \<Rightarrow> Some (ErrLib (''unexpected kafka delivery event: '' @ t))
      | DeliveryFailed e _ \<Rightarrow> Some (Wrapf ''deliver kafka message: '' e)
      | Delivered \<Rightarrow> None)"

definition produce_appends :: "produce_outcome \<Rightarrow> bool" where
  "produce_appends x =
     (case x of
        EnqueueFailed _ \<Rightarrow> False
      | ContextDone b \<Rightarrow> b
      | UnexpectedEvent _ b \<Rightarrow> b
      | DeliveryFailed _ b \<Rightarrow> b
      | Delivered \<Rightarrow> True)"

definition Publish :: "ext \<Rightarrow> string \<Rightarrow> string \<Rightarrow> string \<Rightarrow> ('z, unit) io" where
  "Publish E topic key payload =
     (if topic = '''' then throwM (ErrLib ''kafka topic must not be empty'')
      else if key = '''' then throwM (ErrLib ''kafka message key must not be empty'')
      else (\<lambda>w.
        let x = kafka_Produce E (w_produce w);
            w' = w\<lparr>w_produce := Suc (w_produce w),
                   w_log := w_log w @ (if produce_appends x then [(topic, key, payload)] else [])\<rparr>
        in case produce_error x of None \<Rightarrow> (Inr (), w') | Some e \<Rightarrow> (Inl e, w')))"

section \<open>\<open>outbox_publisher.go\<close>\<close>

record publisher_Config =
  pub_Topic :: string
  pub_BatchSize :: int
  pub_PollInterval :: time

definition OutboxMessage_json :: "ext \<Rightarrow> OutboxEvent \<Rightarrow> json" where
  "OutboxMessage_json E event = JObj
     [(''id'', JStr (uuid_String E (OutboxEvent_ID event))),
      (''aggregate_type'', JStr (OutboxEvent_AggregateType event)),
      (''aggregate_id'', JStr (uuid_String E (OutboxEvent_AggregateID event))),
      (''event_type'', JStr (OutboxEvent_EventType event)),
      (''payload'', OutboxEvent_Payload event)]"

text \<open>The record one outbox row becomes: topic, key and value.\<close>

definition event_message :: "ext \<Rightarrow> string \<Rightarrow> OutboxEvent \<Rightarrow> message" where
  "event_message E topic event =
     (topic, uuid_String E (OutboxEvent_PartitionKey event), Marshal (OutboxMessage_json E event))"

definition publish_event :: "ext \<Rightarrow> string \<Rightarrow> OutboxEvent \<Rightarrow> ('z, unit) io" where
  "publish_event E topic event =
     bindM (tryM (Publish E topic (uuid_String E (OutboxEvent_PartitionKey event))
       (Marshal (OutboxMessage_json E event)))) (\<lambda>sent.
     case sent of
       Inl err \<Rightarrow>
         bindM (store_MarkOutboxEventFailed E (uuid_String E (OutboxEvent_ID event)) (error_text err)) (\<lambda>_.
         Inc ''order_service_outbox_events_failed_total'' [OutboxEvent_EventType event])
     | Inr _ \<Rightarrow>
         bindM (store_MarkOutboxEventPublished E (uuid_String E (OutboxEvent_ID event))) (\<lambda>_.
         Inc ''order_service_outbox_events_published_total'' [OutboxEvent_EventType event]))"

fun publish_events :: "ext \<Rightarrow> string \<Rightarrow> OutboxEvent list \<Rightarrow> ('z, unit) io" where
  "publish_events E topic [] = returnM ()"
| "publish_events E topic (event # events) =
     bindM (publish_event E topic event) (\<lambda>_. publish_events E topic events)"

definition PublishBatch :: "ext \<Rightarrow> publisher_Config \<Rightarrow> ('z, unit) io" where
  "PublishBatch E cfg =
     WithTx E (bindM (store_ClaimOutboxEvents E (pub_BatchSize cfg)) (publish_events E (pub_Topic cfg)))"

text \<open>
  \<^verbatim>\<open>Run\<close> calls \<^verbatim>\<open>PublishBatch\<close> at every tick until its context is done; the error of a batch is
  logged and nothing more. The number of ticks before the context is done is the argument.
\<close>

fun publisher_Run :: "ext \<Rightarrow> publisher_Config \<Rightarrow> nat \<Rightarrow> 'z world_scheme \<Rightarrow> 'z world_scheme" where
  "publisher_Run E cfg 0 w = snd (PublishBatch E cfg w)"
| "publisher_Run E cfg (Suc ticks) w = publisher_Run E cfg ticks (snd (PublishBatch E cfg w))"

section \<open>What a batch can do\<close>

text \<open>Two versions of a row: only the delivery columns may differ.\<close>

definition same_event :: "OutboxEvent \<Rightarrow> OutboxEvent \<Rightarrow> bool" where
  "same_event e e' \<longleftrightarrow>
     OutboxEvent_ID e' = OutboxEvent_ID e \<and>
     OutboxEvent_AggregateType e' = OutboxEvent_AggregateType e \<and>
     OutboxEvent_AggregateID e' = OutboxEvent_AggregateID e \<and>
     OutboxEvent_EventType e' = OutboxEvent_EventType e \<and>
     OutboxEvent_Payload e' = OutboxEvent_Payload e \<and>
     OutboxEvent_CreatedAt e' = OutboxEvent_CreatedAt e \<and>
     OutboxEvent_PartitionKey e' = OutboxEvent_PartitionKey e"

lemma same_event_refl [simp]: "same_event e e"
  by (simp add: same_event_def)

lemma same_event_trans: "same_event a b \<Longrightarrow> same_event b c \<Longrightarrow> same_event a c"
  by (simp add: same_event_def)

lemma same_event_marks [simp]: "same_event e (mark_published t e)" "same_event e (mark_failed x e)"
  by (simp_all add: same_event_def)

lemma same_event_message: "same_event e e' \<Longrightarrow> event_message E topic e' = event_message E topic e"
  by (simp add: same_event_def event_message_def OutboxMessage_json_def)

text \<open>
  One row before and after, given the messages that were sent meanwhile: it may have become
  published only if its message is among them, and never the other way round.
\<close>

definition row_step :: "ext \<Rightarrow> string \<Rightarrow> message list \<Rightarrow> OutboxEvent \<Rightarrow> OutboxEvent \<Rightarrow> bool" where
  "row_step E topic ms e e' \<longleftrightarrow> same_event e e' \<and>
     OutboxEvent_Attempt e \<le> OutboxEvent_Attempt e' \<and>
     (OutboxEvent_PublishedAt e' = OutboxEvent_PublishedAt e \<or>
      OutboxEvent_PublishedAt e' \<noteq> None \<and> event_message E topic e \<in> set ms)"

definition publishes :: "ext \<Rightarrow> string \<Rightarrow> 'z world_scheme \<Rightarrow> 'z world_scheme \<Rightarrow> bool" where
  "publishes E topic w w' \<longleftrightarrow>
     (\<exists>rows ms. w_db w' = (w_db w)\<lparr>tbl_outbox_events := rows\<rparr> \<and> w_log w' = w_log w @ ms \<and>
        set ms \<subseteq> event_message E topic ` set (tbl_outbox_events (w_db w)) \<and>
        list_all2 (row_step E topic ms) (tbl_outbox_events (w_db w)) rows)"

lemma row_step_refl [simp]: "row_step E topic ms e e"
  by (simp add: row_step_def)

lemma row_step_trans:
  "row_step E topic ms a b \<Longrightarrow> row_step E topic ms' b c \<Longrightarrow> row_step E topic (ms @ ms') a c"
  by (auto simp: row_step_def same_event_message elim: same_event_trans)

lemma list_all2_same_event:
  assumes "list_all2 (row_step E topic ms) xs ys"
  shows "event_message E topic ` set ys = event_message E topic ` set xs"
    and "map OutboxEvent_ID ys = map OutboxEvent_ID xs"
  using assms
  by (induction rule: list_all2_induct)
    (auto simp: row_step_def same_event_message same_event_def [of _ _, THEN iffD1, THEN conjunct1])

lemma publishes_sent_only:
  assumes "w_db w' = w_db w" and "w_log w' = w_log w @ ms"
    and "set ms \<subseteq> event_message E topic ` set (tbl_outbox_events (w_db w))"
  shows "publishes E topic w w'"
  unfolding publishes_def using assms
  by (intro exI [of _ "tbl_outbox_events (w_db w)"] exI [of _ ms]) (simp add: list_all2_same)

lemma publishes_same: "w_db w' = w_db w \<Longrightarrow> w_log w' = w_log w \<Longrightarrow> publishes E topic w w'"
  by (rule publishes_sent_only [of _ _ "[]"]) simp_all

lemma publishes_rollback:
  assumes "publishes E topic w w2" and "w_log w' = w_log w2" and "w_db w' = w_db w \<or> w_db w' = w_db w2"
  shows "publishes E topic w w'"
  using assms(3)
proof
  assume "w_db w' = w_db w"
  with assms(1,2) show ?thesis by (auto simp: publishes_def [of _ _ w w2] intro: publishes_sent_only)
next
  assume "w_db w' = w_db w2"
  with assms(1,2) show ?thesis by (simp add: publishes_def)
qed

lemma publishes_trans:
  assumes "publishes E topic w1 w2" and "publishes E topic w2 w3"
  shows "publishes E topic w1 w3"
proof -
  from assms(1) obtain r2 m2 where 2: "w_db w2 = (w_db w1)\<lparr>tbl_outbox_events := r2\<rparr>"
    "w_log w2 = w_log w1 @ m2" "set m2 \<subseteq> event_message E topic ` set (tbl_outbox_events (w_db w1))"
    "list_all2 (row_step E topic m2) (tbl_outbox_events (w_db w1)) r2"
    by (auto simp: publishes_def)
  from assms(2) 2(1) obtain r3 m3 where 3: "w_db w3 = (w_db w1)\<lparr>tbl_outbox_events := r3\<rparr>"
    "w_log w3 = w_log w2 @ m3" "set m3 \<subseteq> event_message E topic ` set r2"
    "list_all2 (row_step E topic m3) r2 r3"
    by (auto simp: publishes_def)
  have "list_all2 (row_step E topic (m2 @ m3)) (tbl_outbox_events (w_db w1)) r3"
    by (rule list_all2_trans [OF _ 2(4) 3(4)]) (rule row_step_trans)
  moreover have "set (m2 @ m3) \<subseteq> event_message E topic ` set (tbl_outbox_events (w_db w1))"
    using 2(3) 3(3) list_all2_same_event(1) [OF 2(4)] by auto
  ultimately show ?thesis
    unfolding publishes_def using 2(2) 3(1,2) by (intro exI [of _ r3] exI [of _ "m2 @ m3"]) simp
qed

lemma Publish_effect:
  assumes "Publish E topic key payload w = (r, w')"
  shows "w_db w' = w_db w" and "w_tx w' = w_tx w" and "w_stmt w' = w_stmt w"
    and "\<exists>ms. w_log w' = w_log w @ ms \<and> set ms \<subseteq> {(topic, key, payload)} \<and>
      (\<forall>u. r = Inr u \<longrightarrow> ms = [(topic, key, payload)])"
  using assms
  by (auto simp: Publish_def run_iff Let_def produce_error_def produce_appends_def
      split: if_splits produce_outcome.splits)

text \<open>A batch works on rows that are in the outbox, whose identifiers are distinct.\<close>

definition in_outbox :: "'z world_scheme \<Rightarrow> OutboxEvent \<Rightarrow> bool" where
  "in_outbox w e \<longleftrightarrow> (\<exists>e0 \<in> set (tbl_outbox_events (w_db w)). same_event e0 e)"

abbreviation outbox_ids :: "'z world_scheme \<Rightarrow> uuid list" where
  "outbox_ids w \<equiv> map OutboxEvent_ID (tbl_outbox_events (w_db w))"

lemma publishes_ids: "publishes E topic w w' \<Longrightarrow> outbox_ids w' = outbox_ids w"
  by (auto simp: publishes_def dest: list_all2_same_event(2))

lemma publishes_in_outbox:
  assumes "publishes E topic w w'" and "in_outbox w e"
  shows "in_outbox w' e"
proof -
  from assms(1) obtain rows ms where rows: "tbl_outbox_events (w_db w') = rows"
    "list_all2 (row_step E topic ms) (tbl_outbox_events (w_db w)) rows"
    by (auto simp: publishes_def)
  from assms(2) obtain i where i: "i < length (tbl_outbox_events (w_db w))"
    "same_event (tbl_outbox_events (w_db w) ! i) e"
    by (auto simp: in_outbox_def in_set_conv_nth)
  with rows(2) have "i < length rows" "row_step E topic ms (tbl_outbox_events (w_db w) ! i) (rows ! i)"
    by (auto simp: list_all2_conv_all_nth)
  with i(2) have "same_event (rows ! i) e" by (simp add: row_step_def same_event_def)
  with rows(1) \<open>i < length rows\<close> show ?thesis by (auto simp: in_outbox_def)
qed

lemma in_outbox_message:
  assumes "in_outbox w e"
  shows "event_message E topic e \<in> event_message E topic ` set (tbl_outbox_events (w_db w))"
proof -
  from assms obtain e0 where "e0 \<in> set (tbl_outbox_events (w_db w))" "same_event e0 e"
    by (auto simp: in_outbox_def)
  then show ?thesis by (intro image_eqI [of _ _ e0]) (simp_all add: same_event_message)
qed

lemma publishes_update:
  assumes "in_outbox w e" and "distinct (outbox_ids w)"
    and "w_db w' = (w_db w)\<lparr>tbl_outbox_events :=
      update_where (\<lambda>r. OutboxEvent_ID r = OutboxEvent_ID e) f (tbl_outbox_events (w_db w))\<rparr>"
    and "w_log w' = w_log w @ ms" and "set ms \<subseteq> {event_message E topic e}"
    and "\<And>r. same_event r e \<Longrightarrow> row_step E topic ms r (f r)"
  shows "publishes E topic w w'"
proof -
  from assms(1) obtain e0 where e0: "e0 \<in> set (tbl_outbox_events (w_db w))" "same_event e0 e"
    by (auto simp: in_outbox_def)
  have "row_step E topic ms r (if OutboxEvent_ID r = OutboxEvent_ID e then f r else r)"
    if "r \<in> set (tbl_outbox_events (w_db w))" for r
  proof (cases "OutboxEvent_ID r = OutboxEvent_ID e")
    case True
    with e0 have "r = e0"
      by (intro distinct_key_eq [OF assms(2) that]) (auto simp: same_event_def)
    with e0 assms(6) True show ?thesis by simp
  qed simp
  then have "list_all2 (row_step E topic ms) (tbl_outbox_events (w_db w))
    (update_where (\<lambda>r. OutboxEvent_ID r = OutboxEvent_ID e) f (tbl_outbox_events (w_db w)))"
    by (simp add: update_where_def list_all2_conv_all_nth)
  moreover have "set ms \<subseteq> event_message E topic ` set (tbl_outbox_events (w_db w))"
    using assms(5) in_outbox_message [OF assms(1)] by blast
  ultimately show ?thesis
    unfolding publishes_def using assms(3,4) by blast
qed

lemma mark_effect:
  assumes "uuid_laws E"
  shows "store_MarkOutboxEventFailed E (uuid_String E i) x w = (r, w') \<Longrightarrow>
      w_log w' = w_log w \<and> (w_db w' = w_db w \<or> w_db w' = (w_db w)\<lparr>tbl_outbox_events :=
        update_where (\<lambda>r. OutboxEvent_ID r = i) (mark_failed (pg_Text x)) (tbl_outbox_events (w_db w))\<rparr>)"
    and "store_MarkOutboxEventPublished E (uuid_String E i) w = (r, w') \<Longrightarrow>
      w_log w' = w_log w \<and> (w_db w' = w_db w \<or> w_db w' = (w_db w)\<lparr>tbl_outbox_events :=
        update_where (\<lambda>r. OutboxEvent_ID r = i) (mark_published (stmt_time E w)) (tbl_outbox_events (w_db w))\<rparr>)"
  using assms exec_frame exec_effect
  by (fastforce simp: store_MarkOutboxEventFailed_def store_MarkOutboxEventPublished_def
      bindM_run_Inr [OF Scan_run] sql_MarkOutboxEventFailed_def sql_MarkOutboxEventPublished_def
      split: option.splits if_splits)+

lemma bindM_Inc_frame:
  assumes "bindM m (\<lambda>_. Inc n ls) w = (r, w')"
  obtains v w1 where "m w = (v, w1)" and "w_db w' = w_db w1" and "w_log w' = w_log w1"
  using assms by (cases r) (auto simp: run_iff)

lemma publish_event_publishes:
  assumes laws: "uuid_laws E" and e: "in_outbox w e" and ids: "distinct (outbox_ids w)"
    and run: "publish_event E topic e w = (r, w')"
  shows "publishes E topic w w'"
proof -
  obtain sent w1 where p: "Publish E topic (uuid_String E (OutboxEvent_PartitionKey e))
      (Marshal (OutboxMessage_json E e)) w = (sent, w1)" by (metis surj_pair)
  note p1 = Publish_effect [OF p, folded event_message_def]
  obtain ms where ms: "w_log w1 = w_log w @ ms" "set ms \<subseteq> {event_message E topic e}"
    "\<And>u. sent = Inr u \<Longrightarrow> ms = [event_message E topic e]"
    using p1(4) by blast
  have same: "publishes E topic w w1"
    using p1(1) ms(1,2) in_outbox_message [OF e] by (blast intro: publishes_sent_only)
  note upd = publishes_update [OF e ids _ _ ms(2)]
  show ?thesis
  proof (cases sent)
    case (Inl err)
    with run p obtain v w2 where "store_MarkOutboxEventFailed E (uuid_String E (OutboxEvent_ID e))
        (error_text err) w1 = (v, w2)" "w_db w' = w_db w2" "w_log w' = w_log w2"
      by (auto simp: publish_event_def bindM_run_Inr [OF tryM_run] elim!: bindM_Inc_frame)
    note mark = mark_effect(1) [OF laws this(1)] this(2,3)
    have "row_step E topic ms r (mark_failed x r)" for r x by (simp add: row_step_def)
    then show ?thesis
      using mark p1(1) ms(1) same
      by (auto intro: publishes_rollback upd [where f = "mark_failed (pg_Text (error_text err))"])
  next
    case (Inr u)
    with run p obtain v w2 where "store_MarkOutboxEventPublished E (uuid_String E (OutboxEvent_ID e))
        w1 = (v, w2)" "w_db w' = w_db w2" "w_log w' = w_log w2"
      by (auto simp: publish_event_def bindM_run_Inr [OF tryM_run] elim!: bindM_Inc_frame)
    note mark = mark_effect(2) [OF laws this(1)] this(2,3)
    have "row_step E topic ms r (mark_published t r)" if "same_event r e" for r t
      using that ms(3) [OF Inr] same_event_message [OF that, of E topic] by (simp add: row_step_def)
    then show ?thesis
      using mark p1(1) ms(1) same
      by (auto intro: publishes_rollback upd [where f = "mark_published (stmt_time E w1)"])
  qed
qed

lemma publish_events_publishes:
  assumes "uuid_laws E" and "\<forall>e \<in> set es. in_outbox w e" and "distinct (outbox_ids w)"
    and "publish_events E topic es w = (r, w')"
  shows "publishes E topic w w'"
  using assms(2-4)
proof (induction es arbitrary: w)
  case (Cons e es)
  obtain v w1 where one: "publish_event E topic e w = (v, w1)" by (metis surj_pair)
  then have step: "publishes E topic w w1"
    using Cons.prems assms(1) by (intro publish_event_publishes) auto
  show ?case
  proof (cases v)
    case (Inl x)
    with one step Cons.prems(3) show ?thesis by (simp add: run_forward)
  next
    case (Inr u)
    with one Cons.prems(3) have "publish_events E topic es w1 = (r, w')" by (simp add: run_forward)
    with Cons.IH Cons.prems(1,2) step publishes_in_outbox [OF step] publishes_ids [OF step]
    have "publishes E topic w1 w'" by auto
    with step show ?thesis by (rule publishes_trans)
  qed
qed (simp add: run_iff publishes_same)

lemma set_claimable: "set (claimable locked rs) \<subseteq> set rs"
  by (auto simp: claimable_def)

lemma store_ClaimOutboxEvents_effect:
  assumes "store_ClaimOutboxEvents E n w = (r, w')"
  shows "w_db w' = w_db w \<and> w_log w' = w_log w"
    and "r = Inr es \<Longrightarrow> es = take (nat n) (claimable (skip_locked E (w_stmt w)) (tbl_outbox_events (w_db w)))"
proof -
  note run = assms [unfolded store_ClaimOutboxEvents_def]
  have "w_db w' = w_db w"
    by (rule exec_read_only [OF _ run]) (auto simp: sql_ClaimOutboxEvents_def split: if_splits)
  then show "w_db w' = w_db w \<and> w_log w' = w_log w" using exec_frame [OF run] by simp
  show "r = Inr es \<Longrightarrow> es = take (nat n) (claimable (skip_locked E (w_stmt w)) (tbl_outbox_events (w_db w)))"
    using run by (auto simp: sql_ClaimOutboxEvents_def dest!: exec_InrD(1) split: if_splits)
qed

lemma PublishBatch_publishes:
  assumes "uuid_laws E" and "distinct (outbox_ids w)" and "PublishBatch E cfg w = (r, w')"
  shows "publishes E (pub_Topic cfg) w w'"
  using assms(3) unfolding PublishBatch_def
proof (cases rule: WithTx_body)
  case not_run
  then show ?thesis by (simp add: publishes_same)
next
  case (run w1 v w2)
  obtain c w3 where claim: "store_ClaimOutboxEvents E (pub_BatchSize cfg) w1 = (c, w3)"
    by (metis surj_pair)
  note same = store_ClaimOutboxEvents_effect(1) [OF claim]
  have body: "publishes E (pub_Topic cfg) w3 w2"
  proof (cases c)
    case (Inl e)
    with claim run(6) show ?thesis by (simp add: run_forward publishes_same)
  next
    case (Inr es)
    then have "\<forall>e \<in> set es. in_outbox w3 e"
      using store_ClaimOutboxEvents_effect(2) [OF claim Inr] same set_claimable
      by (auto simp: in_outbox_def dest!: in_set_takeD) (metis same_event_refl subsetD)
    moreover have "publish_events E (pub_Topic cfg) es w3 = (v, w2)"
      using claim run(6) Inr by (simp add: run_forward)
    moreover have "distinct (outbox_ids w3)" using assms(2) run(1) same by simp
    ultimately show ?thesis using publish_events_publishes [OF assms(1)] by blast
  qed
  then have "publishes E (pub_Topic cfg) w w2"
    using same run(1,2) by (simp add: publishes_def)
  then show ?thesis using run(7,8) by (auto intro: publishes_rollback)
qed

section \<open>What a batch keeps\<close>

lemma list_all2_filter_length:
  assumes "list_all2 R xs ys" and "\<And>x y. R x y \<Longrightarrow> P x = P y"
  shows "length (filter P xs) = length (filter P ys)"
  using assms(1) by (induction rule: list_all2_induct) (auto simp: assms(2))

lemma list_all2_mem:
  "list_all2 R xs ys \<Longrightarrow> y \<in> set ys \<Longrightarrow> \<exists>x \<in> set xs. R x y"
  by (induction rule: list_all2_induct) auto

text \<open>The rows other invariants look at are the same but for the delivery columns.\<close>

definition republished :: "db \<Rightarrow> db \<Rightarrow> bool" where
  "republished d d' \<longleftrightarrow> (\<exists>rows. d' = d\<lparr>tbl_outbox_events := rows\<rparr> \<and>
     list_all2 (\<lambda>e e'. same_event e e' \<and> OutboxEvent_Attempt e \<le> OutboxEvent_Attempt e')
       (tbl_outbox_events d) rows)"

lemma publishes_republished: "publishes E topic w w' \<Longrightarrow> republished (w_db w) (w_db w')"
  by (auto simp: publishes_def republished_def row_step_def elim!: list_all2_mono)

lemma republished_tables:
  "republished d d' \<Longrightarrow> tbl_users d' = tbl_users d \<and> tbl_orders d' = tbl_orders d \<and>
    tbl_payments d' = tbl_payments d \<and> tbl_idempotency_keys d' = tbl_idempotency_keys d \<and>
    tbl_refresh_tokens d' = tbl_refresh_tokens d \<and>
    tbl_processed_events d' = tbl_processed_events d \<and>
    tbl_notification_deliveries d' = tbl_notification_deliveries d"
  by (auto simp: republished_def)

lemma republished_schema:
  assumes "republished d d'" and "schema_ok d"
  shows "schema_ok d'"
proof -
  from assms(1) obtain rows where d': "d' = d\<lparr>tbl_outbox_events := rows\<rparr>"
    and rows: "list_all2 (\<lambda>e e'. same_event e e' \<and> OutboxEvent_Attempt e \<le> OutboxEvent_Attempt e')
      (tbl_outbox_events d) rows"
    by (auto simp: republished_def)
  from rows have "map OutboxEvent_ID rows = map OutboxEvent_ID (tbl_outbox_events d)"
    by (induction rule: list_all2_induct) (auto simp: same_event_def)
  moreover have "0 \<le> OutboxEvent_Attempt e \<and>
      outbox_check (OutboxEvent_AggregateType e) (OutboxEvent_EventType e)" if "e \<in> set rows" for e
    using list_all2_mem [OF rows that] assms(2) by (fastforce simp: schema_defs same_event_def)
  ultimately show ?thesis
    using assms(2) unfolding d' by (simp add: schema_defs)
qed

lemma republished_ledger: "republished d d' \<Longrightarrow> ledger d \<Longrightarrow> ledger d'"
  using ledger_cong [of d' d] republished_tables [of d d'] by simp

lemma republished_grows: "republished d d' \<Longrightarrow> grows d d'"
  by (auto simp: republished_def grows_def intro: same_order_refl)

lemma republished_keys: "republished d d' \<Longrightarrow> keys_complete d \<Longrightarrow> keys_complete d'"
  using keys_complete_cong [of d' d] republished_tables [of d d'] by simp

lemma republished_outbox:
  assumes "republished d d'" and "outbox_complete E d"
  shows "outbox_complete E d'"
proof -
  from assms(1) obtain rows where d': "d' = d\<lparr>tbl_outbox_events := rows\<rparr>"
    and rows: "list_all2 (\<lambda>e e'. same_event e e' \<and> OutboxEvent_Attempt e \<le> OutboxEvent_Attempt e')
      (tbl_outbox_events d) rows"
    by (auto simp: republished_def)
  have events: "length (events_of d' type i) = length (events_of d type i)" for type i
    unfolding events_of_def d'
    using list_all2_filter_length [OF rows, of "\<lambda>e. OutboxEvent_EventType e = type \<and> OutboxEvent_AggregateID e = i"]
    by (simp add: same_event_def)
  have "event_grounded E d e" if "e \<in> set rows" for e
    using list_all2_mem [OF rows that] assms(2)
    by (fastforce simp: outbox_complete_def event_grounded_def same_event_def)
  then have "\<forall>e \<in> set (tbl_outbox_events d'). event_grounded E d' e"
    using event_grounded_cong [of d' d] by (simp add: d')
  moreover have "tbl_orders d' = tbl_orders d" "tbl_payments d' = tbl_payments d"
    by (simp_all add: d')
  ultimately show ?thesis
    using assms(2) by (simp only: outbox_complete_def announced_order_def announced_payment_def events) blast
qed

text \<open>
  A published row has its message on the topic, and the topic holds nothing but the messages
  of outbox rows.
\<close>

definition delivered :: "ext \<Rightarrow> string \<Rightarrow> 'z world_scheme \<Rightarrow> bool" where
  "delivered E topic w \<longleftrightarrow>
     (\<forall>e \<in> set (tbl_outbox_events (w_db w)). OutboxEvent_PublishedAt e \<noteq> None \<longrightarrow>
        event_message E topic e \<in> set (w_log w)) \<and>
     set (w_log w) \<subseteq> event_message E topic ` set (tbl_outbox_events (w_db w))"

lemma publishes_delivered:
  assumes "publishes E topic w w'" and "delivered E topic w"
  shows "delivered E topic w'"
proof -
  from assms(1) obtain rows ms where w': "tbl_outbox_events (w_db w') = rows" "w_log w' = w_log w @ ms"
    "set ms \<subseteq> event_message E topic ` set (tbl_outbox_events (w_db w))"
    "list_all2 (row_step E topic ms) (tbl_outbox_events (w_db w)) rows"
    by (auto simp: publishes_def)
  have "event_message E topic e \<in> set (w_log w')"
    if "e \<in> set rows" and "OutboxEvent_PublishedAt e \<noteq> None" for e
  proof -
    from list_all2_mem [OF w'(4) that(1)] obtain e0
      where e0: "e0 \<in> set (tbl_outbox_events (w_db w))" "row_step E topic ms e0 e" by blast
    with that(2) assms(2) w'(2) have "event_message E topic e0 \<in> set (w_log w')"
      by (auto simp: row_step_def delivered_def)
    with e0(2) show ?thesis by (auto simp: row_step_def same_event_message)
  qed
  with assms(2) w' list_all2_same_event(1) [OF w'(4)] show ?thesis
    by (auto simp: delivered_def)
qed

section \<open>What a batch does when no statement fails\<close>

text \<open>
  The update of the \<open>n\<close>-th message sent: published when the broker reported its delivery,
  one more attempt and the error text otherwise.
\<close>

definition settled :: "ext \<Rightarrow> time \<Rightarrow> nat \<Rightarrow> OutboxEvent \<Rightarrow> OutboxEvent" where
  "settled E t n e =
     (case produce_error (kafka_Produce E n) of
        None \<Rightarrow> mark_published t e
      | Some err \<Rightarrow> mark_failed (pg_Text (error_text err)) e)"

fun settle :: "ext \<Rightarrow> time \<Rightarrow> nat \<Rightarrow> OutboxEvent list \<Rightarrow> OutboxEvent list \<Rightarrow> OutboxEvent list" where
  "settle E t n [] rows = rows"
| "settle E t n (e # es) rows =
     settle E t (Suc n) es (update_where (\<lambda>r. OutboxEvent_ID r = OutboxEvent_ID e) (settled E t n) rows)"

fun sent_messages :: "ext \<Rightarrow> string \<Rightarrow> nat \<Rightarrow> OutboxEvent list \<Rightarrow> message list" where
  "sent_messages E topic n [] = []"
| "sent_messages E topic n (e # es) =
     (if produce_appends (kafka_Produce E n) then [event_message E topic e] else []) @
     sent_messages E topic (Suc n) es"

lemma settled_simps [simp]:
  "OutboxEvent_ID (settled E t n e) = OutboxEvent_ID e"
  "OutboxEvent_CreatedAt (settled E t n e) = OutboxEvent_CreatedAt e"
  "same_event e (settled E t n e)"
  by (auto simp: settled_def split: option.splits)

definition attempts_left :: "OutboxEvent \<Rightarrow> bool" where
  "attempts_left e \<longleftrightarrow> OutboxEvent_Attempt e + 1 < 2 ^ 31"

lemma publish_event_NoFault:
  assumes laws: "uuid_laws E" and ok: "sql_fault E (w_stmt w) = NoFault" and "topic \<noteq> ''''"
    and e: "find (\<lambda>r. OutboxEvent_ID r = OutboxEvent_ID e) (tbl_outbox_events (w_db w)) = Some e"
      "attempts_left e" and tx: "w_tx w = Some t"
  obtains w' where "publish_event E topic e w = (Inr (), w')"
    and "w_db w' = (w_db w)\<lparr>tbl_outbox_events := update_where (\<lambda>r. OutboxEvent_ID r = OutboxEvent_ID e)
      (settled E t (w_produce w)) (tbl_outbox_events (w_db w))\<rparr>"
    and "w_log w' = w_log w @ sent_messages E topic (w_produce w) [e]"
    and "w_produce w' = Suc (w_produce w)" and "w_tx w' = Some t" and "w_stmt w' = Suc (w_stmt w)"
proof (cases "produce_error (kafka_Produce E (w_produce w))")
  case None
  moreover from None have "settled E t (w_produce w) = mark_published t"
    by (simp add: fun_eq_iff settled_def)
  ultimately show ?thesis
    using that assms
    by (simp add: publish_event_def Publish_def Let_def bindM_def tryM_def Inc_def modifyM_def
        store_MarkOutboxEventPublished_def Scan_def returnM_def exec_NoFault
        sql_MarkOutboxEventPublished_def stmt_time_def event_message_def bump_metric_def)
next
  case (Some err)
  moreover from Some have "settled E t (w_produce w) = mark_failed (pg_Text (error_text err))"
    by (simp add: fun_eq_iff settled_def)
  ultimately show ?thesis
    using that assms
    by (simp add: publish_event_def Publish_def Let_def bindM_def tryM_def Inc_def modifyM_def
        store_MarkOutboxEventFailed_def Scan_def returnM_def exec_NoFault attempts_left_def
        sql_MarkOutboxEventFailed_def stmt_time_def event_message_def bump_metric_def)
qed

lemma publish_events_NoFault:
  assumes laws: "uuid_laws E" and ok: "\<And>n. s \<le> n \<Longrightarrow> sql_fault E n = NoFault" and topic: "topic \<noteq> ''''"
    and "s \<le> w_stmt w" and "set es \<subseteq> set (tbl_outbox_events (w_db w))" and "distinct (map OutboxEvent_ID es)"
    and "distinct (outbox_ids w)" and "\<forall>e \<in> set es. attempts_left e" and "w_tx w = Some t"
  obtains w' where "publish_events E topic es w = (Inr (), w')"
    and "w_db w' = (w_db w)\<lparr>tbl_outbox_events := settle E t (w_produce w) es (tbl_outbox_events (w_db w))\<rparr>"
    and "w_log w' = w_log w @ sent_messages E topic (w_produce w) es"
    and "w_produce w' = w_produce w + length es" and "s \<le> w_stmt w'"
  using assms(4-9)
proof (induction es arbitrary: w thesis)
  case Nil
  show ?case by (rule Nil.prems(1) [of w]) (use Nil.prems(2) in \<open>simp_all add: returnM_def\<close>)
next
  case (Cons e es)
  let ?rows = "tbl_outbox_events (w_db w)"
  let ?rows' = "update_where (\<lambda>r. OutboxEvent_ID r = OutboxEvent_ID e) (settled E t (w_produce w)) ?rows"
  have "find (\<lambda>r. OutboxEvent_ID r = OutboxEvent_ID e) ?rows = Some e"
    using Cons.prems by (intro find_Some_key) auto
  then obtain w1 where w1: "publish_event E topic e w = (Inr (), w1)"
      "w_db w1 = (w_db w)\<lparr>tbl_outbox_events := ?rows'\<rparr>"
      "w_log w1 = w_log w @ sent_messages E topic (w_produce w) [e]"
      "w_produce w1 = Suc (w_produce w)" "w_tx w1 = Some t" "w_stmt w1 = Suc (w_stmt w)"
    using publish_event_NoFault [OF laws ok topic, of w e t] Cons.prems by auto
  have sub: "set es \<subseteq> set (tbl_outbox_events (w_db w1))"
    using Cons.prems(3,4) by (auto simp: w1(2) set_update_where) (metis image_eqI)
  have ids: "outbox_ids w1 = outbox_ids w" by (simp add: w1(2) map_update_where)
  obtain w' where w': "publish_events E topic es w1 = (Inr (), w')"
      "w_db w' = (w_db w1)\<lparr>tbl_outbox_events := settle E t (w_produce w1) es (tbl_outbox_events (w_db w1))\<rparr>"
      "w_log w' = w_log w1 @ sent_messages E topic (w_produce w1) es"
      "w_produce w' = w_produce w1 + length es" "s \<le> w_stmt w'"
  proof (rule Cons.IH [of w1])
    show "distinct (map OutboxEvent_ID es)" "\<forall>e \<in> set es. attempts_left e" using Cons.prems by simp_all
    show "distinct (outbox_ids w1)" using ids Cons.prems(5) by simp
  qed (use sub w1 Cons.prems(2) in auto)
  have "publish_events E topic (e # es) w = (Inr (), w')" using w1(1) w'(1) by (simp add: run_forward)
  then show ?case by (rule Cons.prems(1)) (simp_all add: w' w1)
qed

text \<open>What \<open>settle\<close> does to each row: the claimed ones by their position, no other.\<close>

lemma settle_other:
  "OutboxEvent_ID r \<notin> OutboxEvent_ID ` set es \<Longrightarrow> r \<in> set rows \<Longrightarrow> r \<in> set (settle E t n es rows)"
  by (induction es arbitrary: n rows) (auto simp: set_update_where)

lemma settle_nth:
  assumes "distinct (map OutboxEvent_ID es)" and "i < length es" and "es ! i \<in> set rows"
  shows "settled E t (n + i) (es ! i) \<in> set (settle E t n es rows)"
  using assms
proof (induction es arbitrary: n rows i)
  case (Cons e es)
  let ?rows' = "update_where (\<lambda>r. OutboxEvent_ID r = OutboxEvent_ID e) (settled E t n) rows"
  show ?case
  proof (cases i)
    case 0
    with Cons.prems have "settled E t n e \<in> set ?rows'" by (auto simp: set_update_where)
    with Cons.prems(1) 0 show ?thesis by (auto intro: settle_other)
  next
    case (Suc j)
    with Cons.prems(2) have mem: "es ! j \<in> set es" by simp
    with Cons.prems(1) have "OutboxEvent_ID (es ! j) \<noteq> OutboxEvent_ID e" by (auto intro: rev_image_eqI)
    with Cons.prems(3) Suc have "es ! j \<in> set ?rows'" by (simp add: set_update_where)
    with Cons.IH [of j ?rows' "Suc n"] Cons.prems(1,2) Suc show ?thesis by simp
  qed
qed simp

lemma settle_ids: "map OutboxEvent_ID (settle E t n es rows) = map OutboxEvent_ID rows"
  by (induction es arbitrary: n rows) (auto simp: map_update_where)

lemma distinct_claimable:
  "distinct (map OutboxEvent_ID rs) \<Longrightarrow> distinct (map OutboxEvent_ID (claimable locked rs))"
  by (simp add: claimable_def distinct_map_filter distinct_map inj_on_def)

lemma PublishBatch_NoFault:
  assumes laws: "uuid_laws E" and ok: "\<And>n. w_stmt w \<le> n \<Longrightarrow> sql_fault E n = NoFault" and "pub_Topic cfg \<noteq> ''''"
    and "0 \<le> pub_BatchSize cfg" and ids: "distinct (outbox_ids w)"
    and es: "es = take (nat (pub_BatchSize cfg))
      (claimable (skip_locked E (Suc (w_stmt w))) (tbl_outbox_events (w_db w)))"
    and "\<forall>e \<in> set es. attempts_left e"
  obtains w' where "PublishBatch E cfg w = (Inr (), w')"
    and "w_db w' = (w_db w)\<lparr>tbl_outbox_events :=
      settle E (db_now E (w_stmt w)) (w_produce w) es (tbl_outbox_events (w_db w))\<rparr>"
    and "w_log w' = w_log w @ sent_messages E (pub_Topic cfg) (w_produce w) es"
    and "w_produce w' = w_produce w + length es" and "w_stmt w \<le> w_stmt w'"
proof -
  let ?t = "db_now E (w_stmt w)"
  let ?w1 = "w\<lparr>w_stmt := Suc (w_stmt w), w_tx := Some ?t\<rparr>"
  let ?w2 = "w\<lparr>w_stmt := Suc (Suc (w_stmt w)), w_tx := Some ?t\<rparr>"
  have claim: "store_ClaimOutboxEvents E (pub_BatchSize cfg) ?w1 = (Inr es, ?w2)"
    using assms(4) by (simp add: store_ClaimOutboxEvents_def exec_NoFault ok sql_ClaimOutboxEvents_def es)
  have sub: "set es \<subseteq> set (tbl_outbox_events (w_db ?w2))"
    using set_claimable set_take_subset unfolding es by fastforce
  have dist: "distinct (map OutboxEvent_ID es)"
    unfolding es take_map [symmetric] by (rule distinct_take) (rule distinct_claimable [OF ids])
  obtain w3 where w3: "publish_events E (pub_Topic cfg) es ?w2 = (Inr (), w3)"
    "w_db w3 = (w_db ?w2)\<lparr>tbl_outbox_events := settle E ?t (w_produce ?w2) es (tbl_outbox_events (w_db ?w2))\<rparr>"
    "w_log w3 = w_log ?w2 @ sent_messages E (pub_Topic cfg) (w_produce ?w2) es"
    "w_produce w3 = w_produce ?w2 + length es" "w_stmt w \<le> w_stmt w3"
    by (rule publish_events_NoFault [OF laws ok assms(3) _ sub dist, where t = ?t]) (use assms ids in auto)
  have "bindM (store_ClaimOutboxEvents E (pub_BatchSize cfg)) (publish_events E (pub_Topic cfg)) ?w1
      = (Inr (), w3)"
    using claim w3(1) by (simp add: run_forward)
  then have "PublishBatch E cfg w = (Inr (), w3\<lparr>w_stmt := Suc (w_stmt w3), w_tx := None\<rparr>)"
    unfolding PublishBatch_def by (rule WithTx_NoFault [OF ok [OF order_refl] ok [OF w3(5)]])
  then show thesis by (rule that) (use w3 in simp_all)
qed

subsection \<open>Draining the outbox\<close>

definition unpublished :: "db \<Rightarrow> OutboxEvent list" where
  "unpublished d = filter (\<lambda>e. OutboxEvent_PublishedAt e = None) (tbl_outbox_events d)"

text \<open>
  Everything works from the statement \<open>s\<close> and the message \<open>p\<close> on: no statement fails, no row is locked, every message is
  delivered. \<open>all_well\<close>: this was always so.
\<close>

definition well_from :: "ext \<Rightarrow> nat \<Rightarrow> nat \<Rightarrow> bool" where
  "well_from E s p \<longleftrightarrow> (\<forall>n \<ge> s. sql_fault E n = NoFault \<and> (\<forall>i. \<not> skip_locked E n i)) \<and>
     (\<forall>n \<ge> p. kafka_Produce E n = Delivered)"

definition all_well :: "ext \<Rightarrow> bool" where
  "all_well E \<longleftrightarrow> (\<forall>n. sql_fault E n = NoFault \<and> kafka_Produce E n = Delivered) \<and>
     (\<forall>n i. \<not> skip_locked E n i)"

lemma all_well_from: "all_well E \<Longrightarrow> well_from E s p"
  by (simp add: all_well_def well_from_def)

lemma well_from_later: "well_from E s p \<Longrightarrow> s \<le> s' \<Longrightarrow> p \<le> p' \<Longrightarrow> well_from E s' p'"
  by (simp add: well_from_def)

lemma settle_delivered:
  "well_from E s n \<Longrightarrow> settle E t n es rows =
    update_where (\<lambda>r. OutboxEvent_ID r \<in> OutboxEvent_ID ` set es) (mark_published t) rows"
proof (induction es arbitrary: n rows)
  case Nil
  show ?case by (simp add: update_where_def)
next
  case (Cons e es)
  have "settled E t n = mark_published t"
    using Cons.prems by (simp add: fun_eq_iff settled_def well_from_def produce_error_def)
  moreover have "mark_published t (mark_published t r) = mark_published t r" for r
    by (simp add: mark_published_def)
  ultimately show ?case
    using Cons.IH [OF well_from_later [OF Cons.prems]] by simp (auto simp: update_where_def)
qed

lemma sent_delivered: "well_from E s n \<Longrightarrow> sent_messages E topic n es = map (event_message E topic) es"
  by (induction es arbitrary: n) (simp_all add: well_from_def produce_appends_def)

lemma claimable_unlocked:
  "well_from E s p \<Longrightarrow> s \<le> n \<Longrightarrow>
    claimable (skip_locked E n) (tbl_outbox_events d) = sort_key OutboxEvent_CreatedAt (unpublished d)"
  by (simp add: claimable_def unpublished_def well_from_def)

lemma length_filter_notin:
  assumes "distinct us" and "distinct es" and "set es \<subseteq> set us"
  shows "length (filter (\<lambda>r. r \<notin> set es) us) = length us - length es"
proof -
  have "{x. x \<in> set es} \<inter> set us = set es" using assms(3) by auto
  then have "length (filter (\<lambda>r. r \<in> set es) us) = length es"
    using assms(1,2) by (simp add: distinct_length_filter distinct_card)
  then show ?thesis using sum_length_filter_compl [of "\<lambda>r. r \<in> set es" us] by simp
qed

lemma unpublished_after:
  assumes ids: "distinct (map OutboxEvent_ID rows)" and es: "set es \<subseteq> set (unpublished d)" "distinct es"
    and d: "tbl_outbox_events d = rows" and d': "tbl_outbox_events d' =
      update_where (\<lambda>r. OutboxEvent_ID r \<in> OutboxEvent_ID ` set es) (mark_published t) rows"
  shows "length (unpublished d') = length (unpublished d) - length es"
proof -
  have sub: "set es \<subseteq> set rows" using es(1) by (auto simp: unpublished_def d)
  have mem: "OutboxEvent_ID r \<in> OutboxEvent_ID ` set es \<longleftrightarrow> r \<in> set es" if "r \<in> set rows" for r
    using that sub distinct_key_eq [OF ids] by blast
  have "unpublished d' = filter (\<lambda>r. r \<notin> set es) (unpublished d)"
    unfolding unpublished_def d d' update_where_def filter_map
    by (subst map_idI) (auto simp: mem intro!: filter_cong split: if_splits)
  moreover have "distinct (unpublished d)" using ids by (simp add: unpublished_def d distinct_map)
  ultimately show ?thesis using es by (simp add: length_filter_notin)
qed

lemma PublishBatch_drains:
  assumes "uuid_laws E" and well: "well_from E (w_stmt w) (w_produce w)" and "pub_Topic cfg \<noteq> ''''"
    and "0 \<le> pub_BatchSize cfg" and ids: "distinct (outbox_ids w)"
    and left: "\<forall>e \<in> set (tbl_outbox_events (w_db w)). attempts_left e"
    and run: "PublishBatch E cfg w = (r, w')"
  shows "length (unpublished (w_db w')) = length (unpublished (w_db w)) - nat (pub_BatchSize cfg)"
    and "distinct (outbox_ids w')"
    and "\<forall>e \<in> set (tbl_outbox_events (w_db w')). attempts_left e"
    and "w_log w' = w_log w @ map (event_message E (pub_Topic cfg))
      (take (nat (pub_BatchSize cfg)) (sort_key OutboxEvent_CreatedAt (unpublished (w_db w))))"
    and "well_from E (w_stmt w') (w_produce w')"
proof -
  let ?es = "take (nat (pub_BatchSize cfg)) (sort_key OutboxEvent_CreatedAt (unpublished (w_db w)))"
  let ?t = "db_now E (w_stmt w)"
  have ok: "sql_fault E n = NoFault" if "w_stmt w \<le> n" for n using well that by (simp add: well_from_def)
  have sub: "set ?es \<subseteq> set (unpublished (w_db w))" using set_take_subset by fastforce
  have attempts: "\<forall>e \<in> set ?es. attempts_left e" using left sub by (auto simp: unpublished_def)
  obtain w1 where w1: "PublishBatch E cfg w = (Inr (), w1)"
    "w_db w1 = (w_db w)\<lparr>tbl_outbox_events := settle E ?t (w_produce w) ?es (tbl_outbox_events (w_db w))\<rparr>"
    "w_log w1 = w_log w @ sent_messages E (pub_Topic cfg) (w_produce w) ?es"
    "w_produce w1 = w_produce w + length ?es" "w_stmt w \<le> w_stmt w1"
    by (rule PublishBatch_NoFault [OF assms(1) _ assms(3,4) ids claimable_unlocked [OF well le_SucI [OF order_refl],
          THEN arg_cong [where f = "take (nat (pub_BatchSize cfg))"], symmetric] attempts]) (rule ok)
  have w': "w' = w1" using run w1(1) by simp
  have rows: "tbl_outbox_events (w_db w') =
      update_where (\<lambda>r. OutboxEvent_ID r \<in> OutboxEvent_ID ` set ?es) (mark_published ?t) (tbl_outbox_events (w_db w))"
    by (simp add: w' w1(2) settle_delivered [OF well])
  have "distinct ?es" using ids by (simp add: unpublished_def distinct_map distinct_take)
  from unpublished_after [OF ids sub this refl rows]
  show "length (unpublished (w_db w')) = length (unpublished (w_db w)) - nat (pub_BatchSize cfg)" by simp
  show "distinct (outbox_ids w')" using ids by (simp add: rows map_update_where)
  show "\<forall>e \<in> set (tbl_outbox_events (w_db w')). attempts_left e"
    using left by (auto simp: rows set_update_where attempts_left_def)
  show "w_log w' = w_log w @ map (event_message E (pub_Topic cfg)) ?es"
    by (simp add: w' w1(3) sent_delivered [OF well])
  show "well_from E (w_stmt w') (w_produce w')"
    using w1(4,5) by (intro well_from_later [OF well]) (simp_all add: w')
qed

lemma publisher_Run_drains:
  assumes "uuid_laws E" and "well_from E (w_stmt w) (w_produce w)" and "pub_Topic cfg \<noteq> ''''"
    and "0 \<le> pub_BatchSize cfg" and "distinct (outbox_ids w)"
    and "\<forall>e \<in> set (tbl_outbox_events (w_db w)). attempts_left e"
  shows "length (unpublished (w_db (publisher_Run E cfg ticks w))) =
    length (unpublished (w_db w)) - Suc ticks * nat (pub_BatchSize cfg)"
  using assms(2,5,6)
proof (induction ticks arbitrary: w)
  case 0
  show ?case using PublishBatch_drains(1) [OF assms(1) 0(1) assms(3,4) 0(2,3) prod.collapse [symmetric]] by simp
next
  case (Suc ticks)
  note one = PublishBatch_drains [OF assms(1) Suc.prems(1) assms(3,4) Suc.prems(2,3) prod.collapse [symmetric]]
  show ?case using Suc.IH [OF one(5,2,3)] one(1) by simp
qed

end
