(* ===== verification/Consumer.thy ===== *)
theory Consumer
  imports Publisher
begin

text \<open>
  \<^verbatim>\<open>internal/consumer/event_consumer.go\<close>, the polling loop of \<^verbatim>\<open>internal/kafka/consumer.go\<close> and the
  record handler of \<^verbatim>\<open>cmd/consumer/main.go\<close>: records are read from Kafka, checked, and turned into
  one notification per event.

  Kafka may hand out a record more than once. The handler inserts the event's identifier
  into \<^verbatim>\<open>processed_events\<close> and the notification into \<^verbatim>\<open>notification_deliveries\<close> in one transaction, so a
  second delivery finds the first insert and does nothing: \<open>deliveries_match\<close> says the two
  tables list the same events in the same order.

  What the Kafka client gives is read from \<open>kafka_ext\<close> at the number of the call.
\<close>

section \<open>\<open>event_consumer.go\<close>\<close>

abbreviation ConsumerNameNotification :: string where
  "ConsumerNameNotification \<equiv> ''notification-consumer''"

abbreviation NotificationChannelEmail :: string where
  "NotificationChannelEmail \<equiv> ''email''"

abbreviation NotificationStatusSent :: string where
  "NotificationStatusSent \<equiv> ''sent''"

record OutboxMessage =
  om_ID :: string
  om_AggregateType :: string
  om_AggregateID :: string
  om_EventType :: string
  om_Payload :: "json option" \<comment> \<open>\<open>None\<close> when there is no such member\<close>

definition Unmarshal_OutboxMessage :: "string \<Rightarrow> OutboxMessage option" where
  "Unmarshal_OutboxMessage payload =
     (case decode_all payload of
        None \<Rightarrow> None
      | Some v \<Rightarrow>
          (case struct_members v of
             None \<Rightarrow> None
           | Some fs \<Rightarrow>
               (case (string_field ''id'' fs '''', string_field ''aggregate_type'' fs '''',
                      string_field ''aggregate_id'' fs '''', string_field ''event_type'' fs '''') of
                  (Some i, Some at, Some ai, Some et) \<Rightarrow>
                    Some \<lparr>om_ID = i, om_AggregateType = at, om_AggregateID = ai, om_EventType = et,
                      om_Payload = raw_field ''payload'' fs None\<rparr>
                | _ \<Rightarrow> None)))"

definition Unmarshal_eventPayload :: "json option \<Rightarrow> string option" where
  "Unmarshal_eventPayload payload =
     (case payload of
        None \<Rightarrow> None
      | Some v \<Rightarrow>
          (case struct_members v of None \<Rightarrow> None | Some fs \<Rightarrow> string_field ''user_id'' fs ''''))"

text \<open>
  The checks before the transaction: the event and the user of a message, or why it is
  invalid. The texts are only logged; arguments printed with \<^verbatim>\<open>%q\<close> or \<^verbatim>\<open>%v\<close> are left out of them.
\<close>

definition check_message :: "ext \<Rightarrow> string \<Rightarrow> string \<Rightarrow> error + (OutboxMessage \<times> string)" where
  "check_message E source payload =
     (case Unmarshal_OutboxMessage payload of
        None \<Rightarrow> Inl (Wrapped ErrInvalidMessage ('': decode envelope from '' @ source))
      | Some m \<Rightarrow>
          if om_ID m = '''' then Inl (Wrapped ErrInvalidMessage '': message id is required'')
          else if \<not> uuid_Parse E (om_ID m) then Inl (Wrapped ErrInvalidMessage '': invalid message id'')
          else if om_EventType m = '''' then Inl (Wrapped ErrInvalidMessage '': event type is required'')
          else
            (case Unmarshal_eventPayload (om_Payload m) of
               None \<Rightarrow> Inl (Wrapped ErrInvalidMessage '': decode payload'')
             | Some user \<Rightarrow>
                 if user = '''' then Inl (Wrapped ErrInvalidMessage '': user_id is required'')
                 else if \<not> uuid_Parse E user then Inl (Wrapped ErrInvalidMessage '': invalid user_id'')
                 else Inr (m, user)))"

text \<open>The transaction; its value says whether the event had been processed before.\<close>

definition Handle_tx :: "ext \<Rightarrow> OutboxMessage \<Rightarrow> string \<Rightarrow> ('z, bool) io" where
  "Handle_tx E m user =
     bindM (tryM (store_TryCreateProcessedEvent E (om_ID m) ConsumerNameNotification)) (\<lambda>created.
     case created of
       Inl err \<Rightarrow> if errors_Is err ErrNoRows then returnM True else throwM err
     | Inr _ \<Rightarrow>
         bindM (NewString E) (\<lambda>i.
         bindM (store_CreateNotificationDelivery E
           \<lparr>scn_ID = i, scn_EventID = om_ID m, scn_Channel = NotificationChannelEmail,
            scn_Recipient = user, scn_Status = NotificationStatusSent\<rparr>) (\<lambda>_.
         returnM False)))"

definition Handle :: "ext \<Rightarrow> string \<Rightarrow> string \<Rightarrow> ('z, unit) io" where
  "Handle E source payload =
     (case check_message E source payload of
        Inl e \<Rightarrow> throwM e
      | Inr (m, user) \<Rightarrow>
          bindM (mapErrM (Wrapf (''process event '' @ quoted (om_ID m) @ '': '')) (WithTx E (Handle_tx E m user))) (\<lambda>duplicate.
          if duplicate then Inc ''order_service_consumer_events_duplicate_total'' [om_EventType m]
          else Inc ''order_service_consumer_events_processed_total'' [om_EventType m]))"

record Record =
  rec_Topic :: string
  rec_Partition :: int
  rec_Offset :: int
  rec_Key :: string
  rec_Value :: string

text \<open>
  \<^verbatim>\<open>handleRecord\<close>: an invalid record is dropped, so that its offset is committed; any other
  error is passed on.
\<close>

definition handleRecord :: "ext \<Rightarrow> Record \<Rightarrow> ('z, unit) io" where
  "handleRecord E record =
     bindM (tryM (Handle E (rec_Topic record) (rec_Value record))) (\<lambda>r.
     case r of
       Inr _ \<Rightarrow> returnM ()
     | Inl err \<Rightarrow> if errors_Is err ErrInvalidMessage then returnM () else throwM err)"

section \<open>\<open>kafka/consumer.go\<close>\<close>

datatype poll_event =
    PollNothing
  | PollMessage "string option" int int string string \<comment> \<open>topic, partition, offset, key, value\<close>
  | PollError bool string \<comment> \<open>fatal, text\<close>
  | PollOther

record kafka_ext =
  kafka_Subscribe :: "error option"
  kafka_Poll :: "nat \<Rightarrow> poll_event"
  kafka_Commit :: "nat \<Rightarrow> fault"
  ctx_Done :: "nat \<Rightarrow> bool" \<comment> \<open>whether \<^verbatim>\<open>ctx.Err()\<close> is set at the \<open>n\<close>-th look\<close>

text \<open>The state of a consumer: the world, the calls made, what was handled and committed.\<close>

record 'z consumer =
  c_world :: 'z
  c_polls :: nat
  c_commits :: nat
  c_looks :: nat
  c_handled :: "Record list"
  c_committed :: "Record list"

datatype loop_outcome = Looping | Returned "error option"

definition ctx_Err :: "kafka_ext \<Rightarrow> 'z consumer \<Rightarrow> bool \<times> 'z consumer" where
  "ctx_Err K c = (ctx_Done K (c_looks c), c\<lparr>c_looks := Suc (c_looks c)\<rparr>)"

definition CommitMessage :: "kafka_ext \<Rightarrow> Record \<Rightarrow> 'z consumer \<Rightarrow> error option \<times> 'z consumer" where
  "CommitMessage K r c =
     (let c' = c\<lparr>c_commits := Suc (c_commits c)\<rparr> in
      case kafka_Commit K (c_commits c) of
        NoFault \<Rightarrow> (None, c'\<lparr>c_committed := c_committed c' @ [r]\<rparr>)
      | Failed e \<Rightarrow> (Some e, c')
      | Lost e \<Rightarrow> (Some e, c'\<lparr>c_committed := c_committed c' @ [r]\<rparr>))"

definition record_place :: "Record \<Rightarrow> string" where
  "record_place r = rec_Topic r @ ''['' @ Itoa (rec_Partition r) @ '']@'' @ Itoa (rec_Offset r) @ '': ''"

text \<open>The part of one turn of the loop that follows a message.\<close>

definition handle_message ::
    "kafka_ext \<Rightarrow> (Record \<Rightarrow> ('z, unit) comp) \<Rightarrow> Record \<Rightarrow> 'z consumer \<Rightarrow> loop_outcome \<times> 'z consumer" where
  "handle_message K handler r c =
     (case handler r (c_world c) of
        (Inl err, w) \<Rightarrow>
          (case ctx_Err K (c\<lparr>c_world := w\<rparr>) of
             (done, c1) \<Rightarrow>
               if done then (Returned None, c1)
               else (Returned (Some (Wrapf (''handle Kafka record '' @ record_place r) err)), c1))
      | (Inr _, w) \<Rightarrow>
          (case ctx_Err K (c\<lparr>c_world := w, c_handled := c_handled c @ [r]\<rparr>) of
             (done, c1) \<Rightarrow>
               if done then (Returned None, c1)
               else
                 (case CommitMessage K r c1 of
                    (Some err, c2) \<Rightarrow> (Returned (Some (Wrapf (''commit Kafka record '' @ record_place r) err)), c2)
                  | (None, c2) \<Rightarrow> (Looping, c2))))"

definition Run_turn ::
    "kafka_ext \<Rightarrow> string \<Rightarrow> (Record \<Rightarrow> ('z, unit) comp) \<Rightarrow> 'z consumer \<Rightarrow> loop_outcome \<times> 'z consumer" where
  "Run_turn K topic handler c =
     (case ctx_Err K c of
        (done, c1) \<Rightarrow>
          if done then (Returned None, c1)
          else
            let c2 = c1\<lparr>c_polls := Suc (c_polls c1)\<rparr> in
            (case kafka_Poll K (c_polls c1) of
               PollNothing \<Rightarrow> (Looping, c2)
             | PollMessage t p i k v \<Rightarrow>
                 handle_message K handler
                   \<lparr>rec_Topic = (case t of None \<Rightarrow> topic | Some t' \<Rightarrow> t'), rec_Partition = p,
                    rec_Offset = i, rec_Key = k, rec_Value = v\<rparr> c2
             | PollError fatal text \<Rightarrow>
                 (case ctx_Err K c2 of
                    (done', c3) \<Rightarrow>
                      if done' then (Returned None, c3)
                      else if fatal then (Returned (Some (Wrapf ''fatal kafka consumer error: '' (ErrLib text))), c3)
                      else (Looping, c3))
             | PollOther \<Rightarrow> (Looping, c2)))"

text \<open>
  \<^verbatim>\<open>Run\<close>: the loop, for at most as many turns as the first argument says; \<open>Looping\<close> is the outcome
  of a loop that has not returned by then.
\<close>

fun Run_loop ::
    "nat \<Rightarrow> kafka_ext \<Rightarrow> string \<Rightarrow> (Record \<Rightarrow> ('z, unit) comp) \<Rightarrow> 'z consumer \<Rightarrow> loop_outcome \<times> 'z consumer" where
  "Run_loop 0 K topic handler c = (Looping, c)"
| "Run_loop (Suc n) K topic handler c =
     (case Run_turn K topic handler c of
        (Looping, c') \<Rightarrow> Run_loop n K topic handler c'
      | (Returned e, c') \<Rightarrow> (Returned e, c'))"

definition Run ::
    "nat \<Rightarrow> kafka_ext \<Rightarrow> string \<Rightarrow> (Record \<Rightarrow> ('z, unit) comp) \<Rightarrow> 'z consumer \<Rightarrow> loop_outcome \<times> 'z consumer" where
  "Run n K topic handler c =
     (if topic = '''' then (Returned (Some (ErrLib ''kafka topic must not be empty'')), c)
      else
        case kafka_Subscribe K of
          Some e \<Rightarrow> (Returned (Some (Wrapf (''subscribe to kafka topic '' @ quoted topic @ '': '') e)), c)
        | None \<Rightarrow> Run_loop n K topic handler c)"

section \<open>What handling a message does\<close>

text \<open>
  What the driver's errors are not: \<^verbatim>\<open>pgx.ErrNoRows\<close> means that a statement gave no row, and no error
  of the driver is the consumer's own \<^verbatim>\<open>ErrInvalidMessage\<close>.
\<close>

definition driver_laws :: "ext \<Rightarrow> bool" where
  "driver_laws E \<longleftrightarrow>
     fault_errors (\<lambda>e. \<not> errors_Is e ErrNoRows \<and> \<not> errors_Is e ErrInvalidMessage) E"

text \<open>The event is in the table of processed events of the notification consumer.\<close>

definition processed :: "db \<Rightarrow> uuid \<Rightarrow> bool" where
  "processed d u \<longleftrightarrow> (u, ConsumerNameNotification) \<in> processed_key ` set (tbl_processed_events d)"

inductive consume_step :: "db \<Rightarrow> db \<Rightarrow> bool" where
  consumed: "\<lbrakk>processed_key p \<notin> processed_key ` set (tbl_processed_events d);
     ProcessedEvent_ConsumerName p = ConsumerNameNotification;
     NotificationDelivery_ID n \<notin> NotificationDelivery_ID ` set (tbl_notification_deliveries d);
     NotificationDelivery_EventID n = ProcessedEvent_EventID p;
     NotificationDelivery_Channel n = NotificationChannelEmail;
     NotificationDelivery_Status n = NotificationStatusSent; NotificationDelivery_Attempt n = 0\<rbrakk> \<Longrightarrow>
     consume_step d (d\<lparr>tbl_processed_events := tbl_processed_events d @ [p],
       tbl_notification_deliveries := tbl_notification_deliveries d @ [n]\<rparr>)"

lemma ran_TryCreateProcessedEvent:
  assumes "ran E (sql_TryCreateProcessedEvent ec) w r w'"
  shows "w_db w' = (w_db w)\<lparr>tbl_processed_events := tbl_processed_events (w_db w) @ [r]\<rparr>"
    and "processed_key r = ec" and "ec \<notin> processed_key ` set (tbl_processed_events (w_db w))"
  using assms by (auto simp: ran_def Let_def sql_TryCreateProcessedEvent_def split: if_splits)

lemma ran_CreateNotificationDelivery:
  assumes "ran E (sql_CreateNotificationDelivery (i, e, c, u, s)) w r w'"
  shows "w_db w' = (w_db w)\<lparr>tbl_notification_deliveries := tbl_notification_deliveries (w_db w) @ [r]\<rparr>"
    and "r = \<lparr>NotificationDelivery_ID = i, NotificationDelivery_EventID = e,
      NotificationDelivery_Channel = c, NotificationDelivery_Recipient = u,
      NotificationDelivery_Status = s, NotificationDelivery_Attempt = 0,
      NotificationDelivery_LastError = None, NotificationDelivery_CreatedAt = stmt_time E w,
      NotificationDelivery_UpdatedAt = stmt_time E w\<rparr>"
    and "i \<notin> NotificationDelivery_ID ` set (tbl_notification_deliveries (w_db w))"
  using assms by (auto simp: ran_def Let_def split: if_splits)

lemma Handle_tx_spec:
  assumes "Handle_tx E m user w = (Inr duplicate, w')" and "driver_laws E"
  obtains (duplicate) u where "duplicate" and "uuid_Scan E (om_ID m) = Some u"
      and "processed (w_db w) u" and "w_db w' = w_db w"
  | (new) u p n where "\<not> duplicate" and "uuid_Scan E (om_ID m) = Some u"
      and "\<not> processed (w_db w) u" and "processed_key p = (u, ConsumerNameNotification)"
      and "NotificationDelivery_ID n \<notin> NotificationDelivery_ID ` set (tbl_notification_deliveries (w_db w))"
      and "NotificationDelivery_EventID n = u" and "NotificationDelivery_Recipient n = user"
      and "NotificationDelivery_Channel n = NotificationChannelEmail"
      and "NotificationDelivery_Status n = NotificationStatusSent"
      and "NotificationDelivery_Attempt n = 0"
      and "w_db w' = (w_db w)\<lparr>tbl_processed_events := tbl_processed_events (w_db w) @ [p],
        tbl_notification_deliveries := tbl_notification_deliveries (w_db w) @ [n]\<rparr>"
proof -
  obtain r w1 where r: "store_TryCreateProcessedEvent E (om_ID m) ConsumerNameNotification w = (r, w1)"
    by (metis surj_pair)
  show thesis
  proof (cases r)
    case (Inl err)
    with r assms(1) have d: "duplicate" "errors_Is err ErrNoRows" "w' = w1"
      by (auto simp: Handle_tx_def run_iff split: if_splits)
    with r Inl obtain u where u: "uuid_Scan E (om_ID m) = Some u"
      "exec E (sql_TryCreateProcessedEvent (u, ConsumerNameNotification)) w = (Inl err, w1)"
      by (auto simp: store_TryCreateProcessedEvent_def run_iff)
    with d assms(2) have "processed (w_db w) u \<and> w_db w1 = w_db w"
      by (auto simp: exec_def Let_def sql_TryCreateProcessedEvent_def processed_def driver_laws_def fault_errors_def
          split: fault.splits sum.splits if_splits)
    with d u show thesis by (auto intro: duplicate)
  next
    case (Inr p)
    with r assms(1) obtain n w2 where n: "\<not> duplicate" "w' = w2"
      "store_CreateNotificationDelivery E \<lparr>scn_ID = uuid_New E (w_uuid w1), scn_EventID = om_ID m,
         scn_Channel = NotificationChannelEmail, scn_Recipient = user,
         scn_Status = NotificationStatusSent\<rparr> (w1\<lparr>w_uuid := Suc (w_uuid w1)\<rparr>) = (Inr n, w2)"
      by (auto simp: Handle_tx_def run_iff)
    from r Inr obtain u where u: "uuid_Scan E (om_ID m) = Some u"
      "ran E (sql_TryCreateProcessedEvent (u, ConsumerNameNotification)) w p w1"
      by (auto simp: store_TryCreateProcessedEvent_def run_iff dest: exec_ran)
    from n(3) u(1) obtain i where "ran E (sql_CreateNotificationDelivery (i, u, NotificationChannelEmail,
        user, NotificationStatusSent)) (w1\<lparr>w_uuid := Suc (w_uuid w1)\<rparr>) n w2"
      by (auto simp: store_CreateNotificationDelivery_def run_iff dest: exec_ran)
    note n' = ran_CreateNotificationDelivery [OF this, simplified]
    note p' = ran_TryCreateProcessedEvent [OF u(2)]
    have d: "w_db w' = (w_db w)\<lparr>tbl_processed_events := tbl_processed_events (w_db w) @ [p],
        tbl_notification_deliveries := tbl_notification_deliveries (w_db w) @ [n]\<rparr>"
      using n(2) n'(1) p'(1) by simp
    show thesis
      by (rule new [OF n(1) u(1) _ p'(2) _ _ _ _ _ _ d]) (use n'(2,3) p'(1,3) in \<open>simp_all add: processed_def\<close>)
  qed
qed

lemma Handle_tx_step:
  assumes "Handle_tx E m user w = (Inr b, w')" and "driver_laws E"
  shows "w_db w' = w_db w \<or> consume_step (w_db w) (w_db w')"
  using assms
proof (cases rule: Handle_tx_spec)
  case (new u p n)
  from new(11) have "consume_step (w_db w) (w_db w')"
    by (simp only:) (rule consumed, use new in \<open>simp_all add: processed_def\<close>)
  then show ?thesis ..
qed simp

lemma Handle_refines:
  assumes "driver_laws E" shows "keeps (db_step consume_step) (Handle E source payload)"
proof -
  have tx: "keeps (db_step (\<lambda>d d'. d' = d \<or> consume_step d d')) (WithTx E (Handle_tx E m user))" for m user
    by (rule db_step_WithTx) (use Handle_tx_step assms in blast)
  then have tx: "keeps (db_step consume_step) (WithTx E (Handle_tx E m user))" for m user
    by (auto simp: keeps_def db_step_def)
  show ?thesis
    unfolding Handle_def
    by (auto split: sum.split intro!: same_db_db_step [OF keeps_throwM] reflp_same_db
        db_step_before_reads [OF keeps_mapErrM [OF tx]] keeps_if keeps_Inc)
qed

section \<open>What handling keeps\<close>

text \<open>The events with a notification are the processed events, in the order of processing.\<close>

definition deliveries_match :: "db \<Rightarrow> bool" where
  "deliveries_match d \<longleftrightarrow>
     map NotificationDelivery_EventID (tbl_notification_deliveries d) =
       map ProcessedEvent_EventID (tbl_processed_events d) \<and>
     (\<forall>p \<in> set (tbl_processed_events d). ProcessedEvent_ConsumerName p = ConsumerNameNotification)"

lemma consume_step_deliveries: "consume_step d d' \<Longrightarrow> deliveries_match d \<Longrightarrow> deliveries_match d'"
  by (induction rule: consume_step.induct) (auto simp: deliveries_match_def)

lemma consume_step_schema: "consume_step d d' \<Longrightarrow> schema_ok d \<Longrightarrow> schema_ok d'"
  by (induction rule: consume_step.induct) (auto simp: schema_defs notification_check_def)

lemma consume_step_tables:
  "consume_step d d' \<Longrightarrow> tbl_users d' = tbl_users d \<and> tbl_orders d' = tbl_orders d \<and>
    tbl_payments d' = tbl_payments d \<and> tbl_idempotency_keys d' = tbl_idempotency_keys d \<and>
    tbl_outbox_events d' = tbl_outbox_events d \<and> tbl_refresh_tokens d' = tbl_refresh_tokens d \<and>
    set (tbl_processed_events d) \<subseteq> set (tbl_processed_events d')"
  by (induction rule: consume_step.induct) auto

lemma deliveries_match_cong:
  "tbl_notification_deliveries d' = tbl_notification_deliveries d \<Longrightarrow>
   tbl_processed_events d' = tbl_processed_events d \<Longrightarrow> deliveries_match d' = deliveries_match d"
  by (simp add: deliveries_match_def)

text \<open>Under the invariants an event has one notification when it is processed and none otherwise.\<close>

definition notified :: "db \<Rightarrow> uuid \<Rightarrow> NotificationDelivery list" where
  "notified d u = filter (\<lambda>n. NotificationDelivery_EventID n = u) (tbl_notification_deliveries d)"

lemma length_filter_key:
  "length (filter (\<lambda>x. f x = u) xs) = length (filter (\<lambda>y. y = u) (map f xs))"
  by (simp add: filter_map comp_def)

lemma distinct_length_filter_eq: "distinct ys \<Longrightarrow> length (filter (\<lambda>y. y = u) ys) = (if u \<in> set ys then 1 else 0)"
  by (induction ys) auto

lemma distinct_map_comp: "distinct (map (g \<circ> f) xs) \<Longrightarrow> distinct (map f xs)"
  by (induction xs) auto

lemma notified_once:
  assumes "keys_ok d" and "deliveries_match d"
  shows "length (notified d u) = (if processed d u then 1 else 0)"
proof -
  let ?ps = "tbl_processed_events d"
  have key: "processed_key p = (ProcessedEvent_EventID p, ConsumerNameNotification)" if "p \<in> set ?ps" for p
    using assms(2) that by (simp add: deliveries_match_def)
  have eq: "map processed_key ?ps = map ((\<lambda>i. (i, ConsumerNameNotification)) \<circ> ProcessedEvent_EventID) ?ps"
    by (rule map_cong) (auto simp: key)
  have "distinct (map processed_key ?ps)" using assms(1) by (simp add: keys_ok_def)
  then have ids: "distinct (map ProcessedEvent_EventID ?ps)" unfolding eq by (rule distinct_map_comp)
  have "length (notified d u) = length (filter (\<lambda>y. y = u) (map ProcessedEvent_EventID ?ps))"
    using assms(2) by (simp add: notified_def length_filter_key [of NotificationDelivery_EventID] deliveries_match_def)
  also have "\<dots> = (if u \<in> ProcessedEvent_EventID ` set ?ps then 1 else 0)"
    using distinct_length_filter_eq [OF ids] by simp
  also have "u \<in> ProcessedEvent_EventID ` set ?ps \<longleftrightarrow> processed d u"
    using assms(2) by (auto simp: processed_def deliveries_match_def image_iff)
  finally show ?thesis .
qed

section \<open>Redelivery and invalid messages\<close>

lemma processed_mono: "set (tbl_processed_events d) \<subseteq> set (tbl_processed_events d') \<Longrightarrow> processed d u \<Longrightarrow> processed d' u"
  by (auto simp: processed_def)

text \<open>A successful call has the event processed, whether it did so itself or found it done.\<close>

lemma Handle_processed:
  fixes w :: "'z world_scheme"
  assumes "Handle E source payload w = (Inr (), w')" and "driver_laws E"
  obtains m user u where "check_message E source payload = Inr (m, user)"
    and "uuid_Scan E (om_ID m) = Some u" and "processed (w_db w') u"
proof -
  from assms(1) obtain m user b w1 where m: "check_message E source payload = Inr (m, user)"
    and tx: "WithTx E (Handle_tx E m user) w = (Inr b, w1)" and w': "w_db w' = w_db w1"
    by (auto simp: Handle_def run_iff split: sum.splits)
  from tx obtain w2 w3 :: "'z world_scheme" where body: "Handle_tx E m user w2 = (Inr b, w3)" "w_db w1 = w_db w3"
    by (rule WithTx_InrD) blast
  from body(1) assms(2) show thesis
  proof (cases rule: Handle_tx_spec)
    case (duplicate u)
    with that [OF m] body(2) w' show thesis by simp
  next
    case (new u p n)
    then have "processed (w_db w3) u" by (simp add: processed_def)
    with that [OF m new(2)] body(2) w' show thesis by simp
  qed
qed

text \<open>A message whose event is processed changes no table, whatever the call returns.\<close>

lemma Handle_duplicate:
  assumes "check_message E source payload = Inr (m, user)" and "uuid_Scan E (om_ID m) = Some u"
    and "processed (w_db w) u" and "driver_laws E" and "Handle E source payload w = (r, w')"
  shows "w_db w' = w_db w"
proof -
  obtain v w1 where tx: "WithTx E (Handle_tx E m user) w = (v, w1)" by (metis surj_pair)
  have "w_db w2 = w_db w3" if "w_db w3 = w_db w" and "Handle_tx E m user w3 = (Inr b, w2)" for w3 w2 b
    using that(2) assms(4) by (cases rule: Handle_tx_spec) (use assms(2,3) that(1) in auto)
  with WithTx_effect [OF tx] have "w_db w1 = w_db w" by metis
  moreover have "w_db w' = w_db w1"
    using assms(1,5) tx by (cases v) (auto simp: Handle_def run_forward Inc_def modifyM_def split: if_splits)
  ultimately show ?thesis by simp
qed

lemma Handle_invalid:
  assumes "check_message E source payload = Inl e"
  shows "Handle E source payload w = (Inl e, w)" and "errors_Is e ErrInvalidMessage"
proof -
  show "Handle E source payload w = (Inl e, w)" using assms by (simp add: Handle_def throwM_def)
  show "errors_Is e ErrInvalidMessage"
    using assms by (auto simp: check_message_def split: option.splits if_splits)
qed

lemma handleRecord_cases:
  assumes "handleRecord E r w = (v, w')"
  obtains (ok) "Handle E (rec_Topic r) (rec_Value r) w = (Inr (), w')" and "v = Inr ()"
  | (invalid) e where "Handle E (rec_Topic r) (rec_Value r) w = (Inl e, w')"
      and "errors_Is e ErrInvalidMessage" and "v = Inr ()"
  | (failed) e where "Handle E (rec_Topic r) (rec_Value r) w = (Inl e, w')"
      and "\<not> errors_Is e ErrInvalidMessage" and "v = Inl e"
proof -
  obtain x w1 where h: "Handle E (rec_Topic r) (rec_Value r) w = (x, w1)" by (metis surj_pair)
  have run: "(case x of Inr _ \<Rightarrow> returnM ()
      | Inl err \<Rightarrow> if errors_Is err ErrInvalidMessage then returnM () else throwM err) w1 = (v, w')"
    using assms h by (simp add: handleRecord_def bindM_def tryM_def)
  show thesis
  proof (cases x)
    case (Inl e)
    with run have "w' = w1" "v = (if errors_Is e ErrInvalidMessage then Inr () else Inl e)"
      by (auto simp: run_iff)
    with Inl h show thesis by (cases "errors_Is e ErrInvalidMessage") (simp_all add: invalid failed)
  next
    case (Inr u)
    with run h show thesis by (simp add: run_iff ok)
  qed
qed

text \<open>An error that the handler calls invalid comes from its checks, never from the database.\<close>

lemma throws_Handle_tx:
  assumes "driver_laws E"
  shows "throws (\<lambda>e. \<not> errors_Is e ErrInvalidMessage) (WithTx E (Handle_tx E m user))"
proof -
  have fault: "fault_errors (\<lambda>e. \<not> errors_Is e ErrInvalidMessage) E"
    using assms by (auto simp: driver_laws_def fault_errors_def)
  have processed: "throws (\<lambda>e. \<not> errors_Is e ErrInvalidMessage) (store_TryCreateProcessedEvent E i c)" for i c
    unfolding store_TryCreateProcessedEvent_def Scan_def
    by (auto intro!: throws_rules fault simp: sql_TryCreateProcessedEvent_def Let_def
        split: option.split if_splits)
  have "throws (\<lambda>e. \<not> errors_Is e ErrInvalidMessage) (store_CreateNotificationDelivery E p)" for p
    unfolding store_CreateNotificationDelivery_def Scan_def
    by (auto intro!: throws_rules fault simp: violation_defs Let_def split: option.split if_splits
        elim!: sql_CreateNotificationDelivery.elims)
  note rules = this throws_rules fault
  show ?thesis
    unfolding Handle_tx_def
    by (rule throws_WithTx [OF fault], rule throws_bind_tryM [OF processed]) (auto intro!: rules)
qed

lemma Handle_errors:
  assumes "driver_laws E" and "Handle E source payload w = (Inl e, w')"
  shows "errors_Is e ErrInvalidMessage \<longleftrightarrow> check_message E source payload = Inl e \<and> w' = w"
proof (cases "check_message E source payload")
  case (Inl x)
  with assms(2) Handle_invalid(1) [OF Inl, of w] Handle_invalid(2) [OF Inl] show ?thesis by simp
next
  case (Inr mu)
  obtain m user where mu: "mu = (m, user)" by (cases mu)
  have "throws (\<lambda>e. \<not> errors_Is e ErrInvalidMessage) (Handle E source payload)"
    unfolding Handle_def Inr mu
    by (auto intro!: throws_bindM throws_simple(2) throws_helpers(3) throws_Handle_tx [OF assms(1)])
  with assms(2) Inr show ?thesis by (auto simp: throws_def)
qed

section \<open>The loop\<close>

text \<open>
  After any number of turns every committed record was handled before, and at most the last
  handled record is not committed: records are handled at least once. A loop that goes on has
  committed all it handled.
\<close>

definition in_step :: "loop_outcome \<times> 'z consumer \<Rightarrow> bool" where
  "in_step x \<longleftrightarrow>
     (case x of
        (Looping, c) \<Rightarrow> c_committed c = c_handled c
      | (Returned _, c) \<Rightarrow> c_committed c = c_handled c \<or>
          (\<exists>r. c_handled c = c_committed c @ [r]))"

lemma handle_message_in_step:
  "c_committed c = c_handled c \<Longrightarrow> in_step (handle_message K handler r c)"
  by (auto simp: handle_message_def in_step_def ctx_Err_def CommitMessage_def Let_def
      split: prod.split sum.split fault.split)

lemma Run_turn_in_step: "c_committed c = c_handled c \<Longrightarrow> in_step (Run_turn K topic handler c)"
  by (auto simp: Run_turn_def ctx_Err_def Let_def intro!: handle_message_in_step split: poll_event.split)
    (simp_all add: in_step_def)

lemma Run_loop_in_step: "c_committed c = c_handled c \<Longrightarrow> in_step (Run_loop n K topic handler c)"
proof (induction n arbitrary: c)
  case (Suc n)
  obtain x c1 where turn: "Run_turn K topic handler c = (x, c1)" by (metis surj_pair)
  with Run_turn_in_step [OF Suc.prems] have step: "in_step (x, c1)" by metis
  show ?case
  proof (cases x)
    case Looping
    with step have "c_committed c1 = c_handled c1" by (simp add: in_step_def)
    with Suc.IH turn Looping show ?thesis by simp
  qed (use turn step in simp)
qed (simp add: in_step_def)

text \<open>A turn runs the handler on at most one record, and notes it as handled when that succeeds.\<close>

lemma handle_message_effect:
  assumes "handle_message K handler r c = (x, c')"
  obtains v where "handler r (c_world c) = (v, c_world c')"
    and "c_handled c' = (case v of Inl _ \<Rightarrow> c_handled c | Inr _ \<Rightarrow> c_handled c @ [r])"
proof -
  obtain v w where "handler r (c_world c) = (v, w)" by (metis surj_pair)
  with assms that [of v] show thesis
    by (cases v) (auto simp: handle_message_def ctx_Err_def CommitMessage_def Let_def
        split: fault.splits if_splits)
qed

lemma Run_turn_effect:
  assumes "Run_turn K topic handler c = (x, c')"
  obtains (idle) "c_world c' = c_world c" and "c_handled c' = c_handled c"
  | (message) r v where "handler r (c_world c) = (v, c_world c')"
      and "c_handled c' = (case v of Inl _ \<Rightarrow> c_handled c | Inr _ \<Rightarrow> c_handled c @ [r])"
proof (cases "\<not> ctx_Done K (c_looks c) \<and> (\<exists>t p i k v. kafka_Poll K (c_polls c) = PollMessage t p i k v)")
  case True
  then obtain t p i k v where poll: "\<not> ctx_Done K (c_looks c)"
    "kafka_Poll K (c_polls c) = PollMessage t p i k v" by blast
  with assms have "handle_message K handler
      \<lparr>rec_Topic = (case t of None \<Rightarrow> topic | Some t' \<Rightarrow> t'), rec_Partition = p, rec_Offset = i,
        rec_Key = k, rec_Value = v\<rparr>
      (c\<lparr>c_looks := Suc (c_looks c), c_polls := Suc (c_polls c)\<rparr>) = (x, c')"
    by (simp add: Run_turn_def ctx_Err_def Let_def)
  then show thesis by (rule handle_message_effect) (rule message, auto split: sum.splits)
next
  case False
  with assms have "c_world c' = c_world c \<and> c_handled c' = c_handled c"
    by (auto simp: Run_turn_def ctx_Err_def Let_def split: poll_event.splits if_splits)
  with idle show thesis by simp
qed

text \<open>
  What the handled records have made of the world, for a handler whose calls are related by
  \<open>R\<close> and whose success establishes a property that \<open>R\<close> preserves.
\<close>

lemma Run_loop_handled:
  assumes good: "\<And>r w w'. handler r w = (Inr (), w') \<Longrightarrow> Q r w'"
    and keep: "\<And>r w v w' q. handler r w = (v, w') \<Longrightarrow> Q q w \<Longrightarrow> Q q w'"
    and run: "Run_loop n K topic handler c = (x, c')" and "\<forall>r \<in> set (c_handled c). Q r (c_world c)"
  shows "\<forall>r \<in> set (c_handled c'). Q r (c_world c')"
  using run assms(4)
proof (induction n arbitrary: c)
  case (Suc n)
  obtain y c1 where turn: "Run_turn K topic handler c = (y, c1)" by (metis surj_pair)
  then have "\<forall>r \<in> set (c_handled c1). Q r (c_world c1)"
  proof (cases rule: Run_turn_effect)
    case idle
    with Suc.prems show ?thesis by simp
  next
    case (message r v)
    with Suc.prems(2) have "\<forall>q \<in> set (c_handled c). Q q (c_world c1)" using keep by blast
    with message good show ?thesis by (cases v) auto
  qed
  with Suc turn show ?case by (cases y) auto
qed simp

lemma Run_turn_looks: "Run_turn K topic handler c = (x, c') \<Longrightarrow> c_looks c < c_looks c'"
  by (auto simp: Run_turn_def handle_message_def ctx_Err_def CommitMessage_def Let_def
      split: poll_event.splits prod.splits sum.splits fault.splits if_splits)

text \<open>Once the context is done the loop returns.\<close>

lemma Run_loop_stops:
  assumes "\<And>k. N \<le> k \<Longrightarrow> ctx_Done K k" and "N \<le> n + c_looks c"
  shows "\<exists>e c'. Run_loop (Suc n) K topic handler c = (Returned e, c')"
  using assms(2)
proof (induction n arbitrary: c)
  case 0
  with assms(1) show ?case by (simp add: Run_turn_def ctx_Err_def)
next
  case (Suc n)
  obtain x c1 where turn: "Run_turn K topic handler c = (x, c1)" by (metis surj_pair)
  with Run_turn_looks [OF turn] Suc show ?case by (cases x) auto
qed

end
