(* ===== verification/Frames.thy ===== *)
theory Frames
  imports Auth Consumer
begin

text \<open>
  What the operations of the services leave alone. \<open>frame\<close> is the interface: a preorder on worlds that is not
  disturbed by changes of the tables, of the numbers of calls made, and of the metrics of the services. Every operation then
  keeps it, which is proved once and used for the Kafka topic (nobody but the publisher writes to it) and
  for each metric the services do not count.
\<close>

definition service_metrics :: "string set" where
  "service_metrics = {''order_service_orders_created_total'', ''order_service_payments_total'',
     ''order_service_consumer_events_duplicate_total'', ''order_service_consumer_events_processed_total''}"

lemma service_metrics_mem [simp]:
  "''order_service_orders_created_total'' \<in> service_metrics" "''order_service_payments_total'' \<in> service_metrics"
  "''order_service_consumer_events_duplicate_total'' \<in> service_metrics"
  "''order_service_consumer_events_processed_total'' \<in> service_metrics"
  by (simp_all add: service_metrics_def)

locale frame =
  fixes Q :: "'z world_scheme \<Rightarrow> 'z world_scheme \<Rightarrow> bool"
  assumes refl: "Q w w"
    and trans: "Q w w' \<Longrightarrow> Q w' w'' \<Longrightarrow> Q w w''"
    and calls: "Q w (w\<lparr>w_db := d, w_tx := t, w_stmt := a, w_uuid := b, w_clock := c, w_rand := x\<rparr>)"
    and counts: "n \<in> service_metrics \<Longrightarrow> Q w (bump_metric n ls w)"
begin

lemma preorder: "transp Q" "reflp Q"
  using refl trans by (auto simp: transp_def reflp_def)

lemma calls_only:
  assumes "w_log w' = w_log w" and "w_metrics w' = w_metrics w" and "w_produce w' = w_produce w"
    and "world.more w' = world.more w"
  shows "Q w w'"
proof -
  have "w' = w\<lparr>w_db := w_db w', w_tx := w_tx w', w_stmt := w_stmt w', w_uuid := w_uuid w', w_clock := w_clock w',
      w_rand := w_rand w'\<rparr>" using assms by simp
  then show ?thesis by (metis calls)
qed

lemma exec: "keeps Q (exec E q)"
  by (rule keepsI) (auto simp: exec_def Let_def intro!: calls_only split: fault.splits sum.splits)

lemma helpers:
  "keeps Q (NewString E)" "keeps Q (Now E)" "keeps Q (HashPassword E p)" "keeps Q (rand_bytes E)"
  "n \<in> service_metrics \<Longrightarrow> keeps Q (Inc n ls)"
  by (auto intro!: keepsI simp: run_iff HashPassword_def rand_bytes_def calls_only counts)

lemma Scan: "keeps Q (Scan E s)"
  by (auto simp: Scan_def intro!: keeps_rules preorder split: option.splits)

lemma WithTx:
  assumes "keeps Q fn"
  shows "keeps Q (WithTx E fn)"
proof (rule keepsI)
  fix w r w' assume run: "WithTx E fn w = (r, w')"
  have begun: "Q w w1" if "begin_tx E w = (v, w1)" for v w1
    using that by (auto simp: begin_tx_def Let_def intro!: calls_only split: fault.splits)
  have ended: "Q w2 w3" if "commit_tx E d w2 = (v, w3)" for d v w2 w3
    using that by (auto simp: commit_tx_def Let_def intro!: calls_only split: fault.splits)
  from run show "Q w w'"
  proof (cases rule: WithTx_cases)
    case (no_begin e)
    then show ?thesis by (intro begun)
  next
    case (rolled_back e w1 w2)
    moreover have "Q w2 (rollback_tx (w_db w) w2)" by (rule calls_only) (simp_all add: rollback_tx_def)
    ultimately show ?thesis using keepsD [OF assms] begun by (blast intro: trans)
  next
    case (no_commit e x w1 w2)
    then show ?thesis using keepsD [OF assms] begun ended by (blast intro: trans)
  next
    case (committed x w1 w2)
    then show ?thesis using keepsD [OF assms] begun ended by (blast intro: trans)
  qed
qed

lemma sums:
  "(\<And>x. keeps Q (f x)) \<Longrightarrow> (\<And>y. keeps Q (g y)) \<Longrightarrow> keeps Q (case v of Inl x \<Rightarrow> f x | Inr y \<Rightarrow> g y)"
  "keeps Q m \<Longrightarrow> (\<And>x. keeps Q (h x)) \<Longrightarrow> keeps Q (case u of None \<Rightarrow> m | Some x \<Rightarrow> h x)"
  "(\<And>x y. keeps Q (k x y)) \<Longrightarrow> keeps Q (case p of (x, y) \<Rightarrow> k x y)"
  by (simp_all split: sum.split option.split prod.split)

lemmas frame_rules = exec helpers Scan WithTx sums keeps_bindM [OF preorder(1)] keeps_mapErrM keeps_tryM
  keeps_returnM [OF preorder(2)] keeps_throwM [OF preorder(2)] keeps_liftM [OF preorder(2)]
  keeps_getsM [OF preorder(2)] keeps_if

lemma auth:
  "keeps Q (RegisterUser E rp)" "keeps Q (Login E s lp)" "keeps Q (RefreshAccessToken E s t)" "keeps Q (Logout E t)"
  "keeps Q (auth_GetUser E i)"
  unfolding RegisterUser_def Login_def RefreshAccessToken_def Logout_def GenerateAccessToken_def
    GenerateRefreshToken_def auth_GetUser_def store_defs Let_def
  by (intro frame_rules)+

lemma order_tx:
  "keeps Q (CreateOrder_tx E cp key cur ds hash)" "keeps Q (CancelOrder_tx E xp)" "keeps Q (PayOrder_tx E pp key hash)"
  unfolding CreateOrder_tx_def CancelOrder_tx_def PayOrder_tx_def store_defs Let_def by (intro frame_rules)+

lemma orders:
  "keeps Q (CreateOrder E cp)" "keeps Q (PayOrder E pp)" "keeps Q (CancelOrder E xp)" "keeps Q (ListOrders E lop)"
  "keeps Q (GetOrder E gp)"
  unfolding CreateOrder_def PayOrder_def CancelOrder_def ListOrders_def GetOrder_def
    CreateOrder_replay_def PayOrder_replay_def store_GetIdempotencyKey_def store_GetOrder_def
    store_GetPayment_def store_ListOrders_def store_ListOrdersByUser_def Let_def
  by (intro frame_rules order_tx service_metrics_mem)+

lemma consumer: "keeps Q (Handle E source payload)"
  unfolding Handle_def Handle_tx_def store_TryCreateProcessedEvent_def store_CreateNotificationDelivery_def
  by (intro frame_rules service_metrics_mem)

end

definition same_log :: "'z world_scheme \<Rightarrow> 'z world_scheme \<Rightarrow> bool" where
  "same_log w w' \<longleftrightarrow> w_log w' = w_log w"

interpretation log: frame same_log
  by unfold_locales (simp_all add: same_log_def)

text \<open>A metric with a name the services do not use.\<close>

definition same_metric :: "string \<Rightarrow> 'z world_scheme \<Rightarrow> 'z world_scheme \<Rightarrow> bool" where
  "same_metric n w w' \<longleftrightarrow> n \<in> service_metrics \<or> w_metrics w' n = w_metrics w n"

interpretation metric: frame "same_metric n" for n
  by unfold_locales (auto simp: same_metric_def bump_metric_def)

end
