(* ===== verification/System.thy ===== *)
theory System
  imports Frames
begin

text \<open>
  The whole system: one state, and a step for every operation any of the three processes
  may carry out on it, with any arguments, in any order.

  A request that looked its idempotency key up before other requests ran goes on with what it
  saw: \<open>create_late\<close> and \<open>pay_late\<close> are the transactions of such requests. Transactions are atomic;
  the locks they take (\<^verbatim>\<open>FOR UPDATE\<close>) are what makes them so.

  The invariants of the components are put on top of each other with the interfaces of the
  prelude, and the order life cycle is an abstract machine the system refines.
\<close>

section \<open>Steps\<close>

inductive service_step :: "ext \<Rightarrow> publisher_Config \<Rightarrow> 'z world_scheme \<Rightarrow> 'z world_scheme \<Rightarrow> bool"
  for E :: ext and cfg :: publisher_Config where
  register: "RegisterUser E rp w = (r1, w') \<Longrightarrow> service_step E cfg w w'"
| login: "Login E s lp w = (r2, w') \<Longrightarrow> service_step E cfg w w'"
| refresh: "RefreshAccessToken E s t w = (r3, w') \<Longrightarrow> service_step E cfg w w'"
| logout: "Logout E t w = (r4, w') \<Longrightarrow> service_step E cfg w w'"
| create: "CreateOrder E cp w = (r5, w') \<Longrightarrow> service_step E cfg w w'"
| create_late: "WithTx E (CreateOrder_tx E cp key cur ds hash) w = (r6, w') \<Longrightarrow> service_step E cfg w w'"
| list: "ListOrders E lop w = (r7, w') \<Longrightarrow> service_step E cfg w w'"
| get: "GetOrder E gp w = (r8, w') \<Longrightarrow> service_step E cfg w w'"
| pay: "PayOrder E pp w = (r9, w') \<Longrightarrow> service_step E cfg w w'"
| pay_late: "WithTx E (PayOrder_tx E pp key hash) w = (r10, w') \<Longrightarrow> service_step E cfg w w'"
| cancel: "CancelOrder E xp w = (r11, w') \<Longrightarrow> service_step E cfg w w'"
| publish: "PublishBatch E cfg w = (r12, w') \<Longrightarrow> service_step E cfg w w'"
| consume: "Handle E source payload w = (r13, w') \<Longrightarrow> service_step E cfg w w'"

definition system_init :: "'z world_scheme \<Rightarrow> bool" where
  "system_init w \<longleftrightarrow> w_db w = empty_db \<and> w_log w = []"

definition ext_laws :: "ext \<Rightarrow> bool" where
  "ext_laws E \<longleftrightarrow> uuid_laws E \<and> driver_laws E"

section \<open>What a step does\<close>

definition db_change :: "ext \<Rightarrow> db \<Rightarrow> db \<Rightarrow> bool" where
  "db_change E d d' \<longleftrightarrow> order_step E d d' \<or> auth_step d d' \<or> consume_step d d'"

lemma db_change_intros:
  "keeps (db_step (order_step E)) m \<Longrightarrow> keeps (db_step (db_change E)) m"
  "keeps (db_step auth_step) m \<Longrightarrow> keeps (db_step (db_change E)) m"
  "keeps (db_step consume_step) m \<Longrightarrow> keeps (db_step (db_change E)) m"
  "keeps same_db m \<Longrightarrow> keeps (db_step (db_change E)) m"
  by (auto simp: keeps_def db_step_def db_change_def same_db_def)

lemma late_refines:
  assumes "uuid_laws E"
  shows "keeps (db_step (order_step E)) (WithTx E (CreateOrder_tx E cp key cur ds hash))"
    and "keeps (db_step (order_step E)) (WithTx E (PayOrder_tx E pp key hash))"
  using CreateOrder_tx_step PayOrder_tx_step assms by (blast intro: db_step_WithTx)+

lemma reads_same_db: "keeps same_db (ListOrders E lp)" "keeps same_db (GetOrder E gp)"
  unfolding ListOrders_def GetOrder_def by (intro keeps_rules same_db_rules)+

text \<open>
  What a step of any process comes to, seen in the tables and the topic: one change of the tables the components
  specify, or none; or a batch of the publisher.
\<close>

definition system_effect :: "ext \<Rightarrow> publisher_Config \<Rightarrow> 'z world_scheme \<Rightarrow> 'z world_scheme \<Rightarrow> bool" where
  "system_effect E cfg w w' \<longleftrightarrow>
     w_log w' = w_log w \<and> (w_db w' = w_db w \<or> db_change E (w_db w) (w_db w')) \<or>
     publishes E (pub_Topic cfg) w w'"

lemma system_effectE:
  assumes "system_effect E cfg w w'"
  obtains (change) "w_log w' = w_log w" and "w_db w' = w_db w \<or> db_change E (w_db w) (w_db w')"
  | (publish) "publishes E (pub_Topic cfg) w w'"
  using assms by (auto simp: system_effect_def)

lemma service_step_cases:
  assumes "service_step E cfg w w'" and laws: "ext_laws E" and ids: "distinct (outbox_ids w)"
  obtains (change) "w_log w' = w_log w" and "w_db w' = w_db w \<or> db_change E (w_db w) (w_db w')"
  | (publish) "publishes E (pub_Topic cfg) w w'"
proof -
  have u: "uuid_laws E" and d: "driver_laws E" using laws by (simp_all add: ext_laws_def)
  have *: thesis if "m w = (r, w')" and "keeps (db_step (db_change E)) m" and "keeps same_log m"
    for m :: "('a, 'b) io" and r
    using change keepsD [OF that(2,1)] keepsD [OF that(3,1)] by (simp add: db_step_def same_log_def)
  note sys = db_change_intros log.auth log.orders log.consumer log.WithTx log.order_tx
  from assms(1) show thesis
  proof cases
    case (publish r)
    then show ?thesis using PublishBatch_publishes [OF u ids] that(2) by blast
  qed (erule *; (intro sys RegisterUser_refines Login_refines RefreshAccessToken_refines
        Logout_refines CreateOrder_refines [OF u] PayOrder_refines [OF u] CancelOrder_refines [OF u]
        late_refines [OF u] Handle_refines [OF d] reads_same_db; fail))+
qed

section \<open>Invariants\<close>

lemma db_change_schema: "db_change E d d' \<Longrightarrow> schema_ok d \<Longrightarrow> schema_ok d'"
  by (auto simp: db_change_def intro: order_step_schema auth_step_schema consume_step_schema)

lemma db_change_ledger: "db_change E d d' \<Longrightarrow> schema_ok d \<Longrightarrow> ledger d \<Longrightarrow> ledger d'"
  by (auto simp: db_change_def intro: order_step_ledger ledger_cong [THEN iffD2]
      dest: auth_step_tables consume_step_tables)

lemma db_change_outbox:
  "db_change E d d' \<Longrightarrow> schema_ok d \<Longrightarrow> outbox_complete E d \<Longrightarrow> outbox_complete E d'"
  by (auto simp: db_change_def intro: order_step_outbox outbox_complete_cong [THEN iffD2]
      dest: auth_step_tables consume_step_tables)

lemma db_change_keys: "db_change E d d' \<Longrightarrow> keys_complete d \<Longrightarrow> keys_complete d'"
  by (auto simp: db_change_def intro: order_step_keys_complete keys_complete_cong [THEN iffD2]
      dest: auth_step_tables consume_step_tables)

lemma order_step_consumed:
  "order_step E d d' \<Longrightarrow> tbl_processed_events d' = tbl_processed_events d \<and>
    tbl_notification_deliveries d' = tbl_notification_deliveries d \<and>
    tbl_refresh_tokens d' = tbl_refresh_tokens d"
  by (induction rule: order_step.induct) simp_all

lemma db_change_deliveries: "db_change E d d' \<Longrightarrow> deliveries_match d \<Longrightarrow> deliveries_match d'"
  by (auto simp: db_change_def intro: consume_step_deliveries deliveries_match_cong [THEN iffD2]
      dest: auth_step_tables order_step_consumed)

text \<open>New outbox rows are not published; old ones are left alone by everyone but the publisher.\<close>

lemma db_change_delivered:
  assumes "db_change E (w_db w) (w_db w')" and "w_log w' = w_log w" and "delivered E topic w"
  shows "delivered E topic w'"
proof -
  have "tbl_outbox_events (w_db w') = tbl_outbox_events (w_db w) \<or>
      (\<exists>e. tbl_outbox_events (w_db w') = tbl_outbox_events (w_db w) @ [e] \<and> OutboxEvent_PublishedAt e = None)"
    using assms(1)
    by (auto simp: db_change_def new_event_def dest: auth_step_tables consume_step_tables
        elim!: order_step.cases)
  with assms(2,3) show ?thesis by (auto simp: delivered_def)
qed

lemma db_change_grows: "db_change E d d' \<Longrightarrow> grows d d'"
  by (auto simp: db_change_def intro: order_step_grows dest!: auth_step_tables consume_step_tables)
    (auto simp: grows_def intro: same_order_refl)

text \<open>
  The schema first; the other invariants need it. Each holds under the laws of the code the
  program calls.
\<close>

lemma empty_invariants:
  "ledger empty_db" "outbox_complete E empty_db" "keys_complete empty_db" "deliveries_match empty_db"
  by (simp_all add: ledger_def outbox_complete_def keys_complete_def deliveries_match_def empty_db_def)

lemma schema_ok_ids: "schema_ok (w_db w) \<Longrightarrow> distinct (outbox_ids w)"
  by (simp add: schema_ok_def keys_ok_def)

lemma service_step_effect:
  assumes "service_step E cfg w w'" and "ext_laws E" and "schema_ok (w_db w)"
  shows "system_effect E cfg w w'"
  using assms(1,2) schema_ok_ids [OF assms(3)]
  by (cases rule: service_step_cases) (simp_all add: system_effect_def)

lemma system_effect_schema:
  assumes "system_effect E cfg w w'" and "schema_ok (w_db w)"
  shows "schema_ok (w_db w')"
  using assms(1)
proof (cases rule: system_effectE)
  case change
  with assms(2) show ?thesis by (auto intro: db_change_schema)
next
  case publish
  with assms(2) show ?thesis by (auto intro: republished_schema publishes_republished)
qed

lemma service_step_schema:
  "service_step E cfg w w' \<Longrightarrow> ext_laws E \<Longrightarrow> schema_ok (w_db w) \<Longrightarrow> schema_ok (w_db w')"
  by (blast intro: system_effect_schema service_step_effect)

definition books :: "ext \<Rightarrow> publisher_Config \<Rightarrow> 'z world_scheme \<Rightarrow> bool" where
  "books E cfg w \<longleftrightarrow> ledger (w_db w) \<and> outbox_complete E (w_db w) \<and> keys_complete (w_db w) \<and>
     deliveries_match (w_db w) \<and> delivered E (pub_Topic cfg) w"

lemma system_init_books: "system_init w \<Longrightarrow> books E cfg w"
  by (simp add: system_init_def books_def delivered_def empty_invariants) (simp add: empty_db_def)

lemma system_effect_books:
  assumes "system_effect E cfg w w'" and "schema_ok (w_db w)" and "books E cfg w"
  shows "books E cfg w'"
  using assms(1)
proof (cases rule: system_effectE)
  case change
  show ?thesis
  proof (cases "w_db w' = w_db w")
    case True
    with change(1) assms(3) show ?thesis by (simp add: books_def delivered_def)
  next
    case False
    with change have "db_change E (w_db w) (w_db w')" by simp
    with change(1) assms(2,3) show ?thesis
      unfolding books_def
      by (blast intro: db_change_ledger db_change_outbox db_change_keys db_change_deliveries
          db_change_delivered)
  qed
next
  case publish
  note r = publishes_republished [OF publish]
  have "deliveries_match (w_db w') = deliveries_match (w_db w)"
    by (rule deliveries_match_cong) (use republished_tables [OF r] in simp_all)
  with assms(3) r publish show ?thesis
    unfolding books_def
    by (blast intro: republished_ledger republished_outbox republished_keys publishes_delivered)
qed

section \<open>The life cycle of an order\<close>

text \<open>The abstract machine: the status of each order, by its identifier.\<close>

type_synonym statuses = "uuid \<rightharpoonup> string"

inductive lifecycle :: "statuses \<Rightarrow> statuses \<Rightarrow> bool" where
  opened: "m i = None \<Longrightarrow> lifecycle m (m(i \<mapsto> OrderStatusPendingPayment))"
| moved: "m i \<in> {Some OrderStatusPendingPayment, Some OrderStatusPaymentFailed} \<Longrightarrow>
    s \<in> {OrderStatusPaid, OrderStatusPaymentFailed, OrderStatusCancelled} \<Longrightarrow>
    lifecycle m (m(i \<mapsto> s))"

definition status_map :: "db \<Rightarrow> statuses" where
  "status_map d i = map_option Order_Status (find (\<lambda>r. Order_ID r = i) (tbl_orders d))"

lemma find_set_order:
  "find (\<lambda>r. Order_ID r = j) (set_order i s t rs) =
     map_option (\<lambda>r. if j = i then set_status s t r else r) (find (\<lambda>r. Order_ID r = j) rs)"
  by (induction rs) (auto simp: set_order_def update_where_def)

lemma status_map_set:
  assumes "r \<in> set (tbl_orders d)" and "tbl_orders d' = set_order (Order_ID r) s t (tbl_orders d)"
  shows "status_map d' = (status_map d)(Order_ID r \<mapsto> s)"
proof
  fix j
  have "find (\<lambda>x. Order_ID x = Order_ID r) (tbl_orders d) \<noteq> None"
    using assms(1) by (auto simp: find_None_iff)
  with assms(2) show "status_map d' j = ((status_map d)(Order_ID r \<mapsto> s)) j"
    by (auto simp: status_map_def find_set_order option.map_ident)
qed

lemma status_map_mem:
  "keys_ok d \<Longrightarrow> r \<in> set (tbl_orders d) \<Longrightarrow> status_map d (Order_ID r) = Some (Order_Status r)"
  by (simp add: status_map_def keys_ok_def find_Some_key)

lemma status_map_cong: "tbl_orders d' = tbl_orders d \<Longrightarrow> status_map d' = status_map d"
  by (simp add: status_map_def fun_eq_iff)

lemma order_step_lifecycle:
  assumes "order_step E d d'" and "keys_ok d"
  shows "lifecycle (status_map d) (status_map d')"
  using assms(1)
proof cases
  case (created r e k)
  then have "status_map d (Order_ID r) = None"
    by (simp add: status_map_def find_None_key [THEN iffD2])
  moreover have "status_map d' = (status_map d)(Order_ID r \<mapsto> OrderStatusPendingPayment)"
    using created calculation by (auto simp: status_map_def fun_eq_iff find_append split: option.splits)
  ultimately show ?thesis by (simp add: opened)
next
  case (payment_succeeded r p e k t)
  then have "status_map d' = (status_map d)(Order_ID r \<mapsto> OrderStatusPaid)"
    by (intro status_map_set) (auto simp: new_payment_def)
  with payment_succeeded status_map_mem [OF assms(2)] show ?thesis
    by (auto simp: payable_def intro!: moved)
next
  case (payment_failed r p e k t)
  then have "status_map d' = (status_map d)(Order_ID r \<mapsto> OrderStatusPaymentFailed)"
    by (intro status_map_set) (auto simp: new_payment_def)
  with payment_failed status_map_mem [OF assms(2)] show ?thesis
    by (auto simp: payable_def intro!: moved)
next
  case (cancelled r e t)
  then have "status_map d' = (status_map d)(Order_ID r \<mapsto> OrderStatusCancelled)"
    by (intro status_map_set) auto
  with cancelled status_map_mem [OF assms(2)] show ?thesis
    by (auto simp: payable_def intro!: moved)
qed

lemma system_effect_lifecycle:
  assumes "system_effect E cfg w w'" and "schema_ok (w_db w)"
  shows "status_map (w_db w') = status_map (w_db w) \<or>
    lifecycle (status_map (w_db w)) (status_map (w_db w'))"
  using assms(1)
proof (cases rule: system_effectE)
  case change
  with assms(2) show ?thesis
    by (auto simp: db_change_def schema_ok_def intro: order_step_lifecycle status_map_cong
        dest: auth_step_tables consume_step_tables)
next
  case publish
  from republished_tables [OF publishes_republished [OF this]] show ?thesis
    using status_map_cong by blast
qed

lemma system_effect_grows: "system_effect E cfg w w' \<Longrightarrow> grows (w_db w) (w_db w')"
  by (erule system_effectE) (auto intro: db_change_grows republished_grows publishes_republished)

lemma system_effect_sessions:
  assumes "system_effect E cfg w w'"
  shows "sessions_grow (w_db w) (w_db w')"
  using assms
proof (cases rule: system_effectE)
  case change
  then show ?thesis
    by (auto simp: db_change_def intro: auth_step_sessions sessions_grow_same
        dest: order_step_consumed consume_step_tables)
next
  case publish
  from republished_tables [OF publishes_republished [OF this]] show ?thesis
    by (simp add: sessions_grow_same)
qed

section \<open>Systems\<close>

text \<open>
  Any step relation whose steps have such effects keeps the invariants, refines the life cycle and never
  loses a row.
\<close>

locale order_system =
  fixes step :: "'z world_scheme \<Rightarrow> 'z world_scheme \<Rightarrow> bool" and E :: ext and cfg :: publisher_Config
  assumes step_effect: "step w w' \<Longrightarrow> ext_laws E \<Longrightarrow> schema_ok (w_db w) \<Longrightarrow> system_effect E cfg w w'"
begin

sublocale schema: invariant system_init step "\<lambda>w. ext_laws E \<longrightarrow> schema_ok (w_db w)"
  by unfold_locales (auto simp: system_init_def intro: system_effect_schema step_effect)

sublocale bookkeeping: layered_invariant system_init step
  "\<lambda>w. ext_laws E \<longrightarrow> schema_ok (w_db w)" "\<lambda>w. ext_laws E \<longrightarrow> books E cfg w"
  by unfold_locales (auto intro: system_init_books system_effect_books step_effect)

sublocale order_machine: refinement step
  "\<lambda>w. ext_laws E \<and> schema_ok (w_db w)" lifecycle "\<lambda>w. status_map (w_db w)"
  by unfold_locales (auto intro: system_effect_schema step_effect dest: step_effect system_effect_lifecycle)

lemma reachable_ok:
  assumes "reachable system_init step w" and "ext_laws E"
  shows "schema_ok (w_db w)" and "books E cfg w"
  using schema.always [OF assms(1)] bookkeeping.top_always [OF assms(1)] assms(2) by blast+

lemma steps_schema: "step\<^sup>*\<^sup>* w w' \<Longrightarrow> ext_laws E \<Longrightarrow> schema_ok (w_db w) \<Longrightarrow> schema_ok (w_db w')"
  using order_machine.cinv_run by blast

lemma steps_keep:
  assumes "step\<^sup>*\<^sup>* w w'" and "ext_laws E" and "schema_ok (w_db w)"
    and "\<And>d. P d d" and "\<And>a b c. P a b \<Longrightarrow> P b c \<Longrightarrow> P a c"
    and "\<And>w w' :: 'z world_scheme. system_effect E cfg w w' \<Longrightarrow> P (w_db w) (w_db w')"
  shows "P (w_db w) (w_db w')"
  using assms(1)
proof (induction rule: rtranclp_induct)
  case (step y z)
  from steps_schema [OF step.hyps(1) assms(2,3)] step_effect [OF step.hyps(2) assms(2)]
  have "P (w_db y) (w_db z)" by (blast intro: assms(6))
  with step.IH show ?case by (rule assms(5))
qed (rule assms(4))

lemma steps_grow: "step\<^sup>*\<^sup>* w w' \<Longrightarrow> ext_laws E \<Longrightarrow> schema_ok (w_db w) \<Longrightarrow> grows (w_db w) (w_db w')"
  by (rule steps_keep [where P = grows]) (auto intro: grows_trans system_effect_grows)

lemma steps_sessions:
  "step\<^sup>*\<^sup>* w w' \<Longrightarrow> ext_laws E \<Longrightarrow> schema_ok (w_db w) \<Longrightarrow> sessions_grow (w_db w) (w_db w')"
  by (rule steps_keep [where P = sessions_grow]) (auto intro: sessions_grow_trans sessions_grow_same system_effect_sessions)

lemma steps_lifecycle:
  "step\<^sup>*\<^sup>* w w' \<Longrightarrow> ext_laws E \<Longrightarrow> schema_ok (w_db w) \<Longrightarrow> lifecycle\<^sup>*\<^sup>* (status_map (w_db w)) (status_map (w_db w'))"
  using order_machine.simulates_run by blast

end

interpretation services: order_system "service_step E cfg" E cfg for E cfg
  by unfold_locales (rule service_step_effect)

lemma lifecycle_final:
  "lifecycle\<^sup>*\<^sup>* m m' \<Longrightarrow> m i = Some s \<Longrightarrow> s \<in> {OrderStatusPaid, OrderStatusCancelled} \<Longrightarrow> m' i = Some s"
proof (induction rule: rtranclp_induct)
  case (step y z)
  from step.hyps(2) step.IH step.prems show ?case by cases auto
qed simp

end
