(* ===== verification/Api.thy ===== *)
theory Api
  imports Http Distributed_Lock System
begin

text \<open>
  \<^verbatim>\<open>internal/api/auth_handler.go\<close> and \<^verbatim>\<open>internal/api/order_handler.go\<close>: one definition per handler. A handler takes the
  request and the response so far and gives the response after it, on the world of the services
  extended by Redis; it never fails, since every error becomes a status.

  The order lock is taken before and given up after paying and cancelling.
\<close>

type_synonym 'z handler = "Request \<Rightarrow> statusRecorder \<Rightarrow> ('z, statusRecorder) rio"

record Server =
  srv_authService :: AuthService
  srv_cookieSecure :: bool
  srv_lockManager :: "time option" \<comment> \<open>the \<^verbatim>\<open>ttl\<close> of the manager, or nil\<close>

abbreviation StatusNoContent :: int where "StatusNoContent \<equiv> 204"
abbreviation StatusBadRequest :: int where "StatusBadRequest \<equiv> 400"
abbreviation StatusUnauthorized :: int where "StatusUnauthorized \<equiv> 401"
abbreviation StatusForbidden :: int where "StatusForbidden \<equiv> 403"
abbreviation StatusNotFound :: int where "StatusNotFound \<equiv> 404"
abbreviation StatusConflict :: int where "StatusConflict \<equiv> 409"
abbreviation StatusTooManyRequests :: int where "StatusTooManyRequests \<equiv> 429"
abbreviation StatusInternalServerError :: int where "StatusInternalServerError \<equiv> 500"
abbreviation StatusServiceUnavailable :: int where "StatusServiceUnavailable \<equiv> 503"

section \<open>Request bodies\<close>

record createOrderRequest =
  cor_req_AmountCents :: int
  cor_req_Currency :: string
  cor_req_Description :: string

record registerRequest =
  reg_req_Email :: string
  reg_req_Password :: string
  reg_req_Role :: string

record loginRequest =
  log_req_Email :: string
  log_req_Password :: string

definition body_members :: "string \<Rightarrow> (string \<times> json) list option" where
  "body_members body = (case decode_first body of None \<Rightarrow> None | Some v \<Rightarrow> struct_members v)"

definition Decode_createOrderRequest :: "string \<Rightarrow> createOrderRequest option" where
  "Decode_createOrderRequest body =
     (case body_members body of
        None \<Rightarrow> None
      | Some fs \<Rightarrow>
          (case (int64_field ''amount_cents'' fs 0, string_field ''currency'' fs '''',
                 string_field ''description'' fs '''') of
             (Some a, Some c, Some d) \<Rightarrow>
               Some \<lparr>cor_req_AmountCents = a, cor_req_Currency = c, cor_req_Description = d\<rparr>
           | _ \<Rightarrow> None))"

definition Decode_registerRequest :: "string \<Rightarrow> registerRequest option" where
  "Decode_registerRequest body =
     (case body_members body of
        None \<Rightarrow> None
      | Some fs \<Rightarrow>
          (case (string_field ''email'' fs '''', string_field ''password'' fs '''', string_field ''role'' fs '''') of
             (Some e, Some p, Some r) \<Rightarrow> Some \<lparr>reg_req_Email = e, reg_req_Password = p, reg_req_Role = r\<rparr>
           | _ \<Rightarrow> None))"

definition Decode_loginRequest :: "string \<Rightarrow> loginRequest option" where
  "Decode_loginRequest body =
     (case body_members body of
        None \<Rightarrow> None
      | Some fs \<Rightarrow>
          (case (string_field ''email'' fs '''', string_field ''password'' fs '''') of
             (Some e, Some p) \<Rightarrow> Some \<lparr>log_req_Email = e, log_req_Password = p\<rparr>
           | _ \<Rightarrow> None))"

section \<open>Response bodies\<close>

definition newOrderResponse :: "ext \<Rightarrow> Order \<Rightarrow> json" where
  "newOrderResponse E order =
     JObj ([(''id'', JStr (uuid_String E (Order_ID order))), (''user_id'', JStr (uuid_String E (Order_UserID order))),
       (''status'', JStr (Order_Status order)), (''amount_cents'', JNum (Itoa (Order_AmountCents order))),
       (''currency'', JStr (Order_Currency order))] @
       omitempty ''description'' (text_String (Order_Description order)) @
       [(''created_at'', JStr (utc_text (Order_CreatedAt order))), (''updated_at'', JStr (utc_text (Order_UpdatedAt order)))])"

definition newPaymentResponse :: "ext \<Rightarrow> Payment \<Rightarrow> json" where
  "newPaymentResponse E payment =
     JObj ([(''id'', JStr (uuid_String E (Payment_ID payment))), (''order_id'', JStr (uuid_String E (Payment_OrderID payment))),
       (''status'', JStr (Payment_Status payment)), (''amount_cents'', JNum (Itoa (Payment_AmountCents payment))),
       (''provider'', JStr (Payment_Provider payment))] @
       omitempty ''provider_ref'' (text_String (Payment_ProviderRef payment)) @
       omitempty ''failure_reason'' (text_String (Payment_FailureReason payment)) @
       [(''created_at'', JStr (utc_text (Payment_CreatedAt payment))), (''updated_at'', JStr (utc_text (Payment_UpdatedAt payment)))])"

definition payOrderResponse :: "ext \<Rightarrow> PayOrderResult \<Rightarrow> json" where
  "payOrderResponse E result =
     JObj [(''order'', newOrderResponse E (por_Order result)), (''payment'', newPaymentResponse E (por_Payment result))]"

definition newUserResponse :: "ext \<Rightarrow> User \<Rightarrow> json" where
  "newUserResponse E user =
     JObj [(''id'', JStr (uuid_String E (User_ID user))), (''email'', JStr (User_Email user)), (''role'', JStr (User_Role user)),
       (''created_at'', JStr (utc_text (User_CreatedAt user))), (''updated_at'', JStr (utc_text (User_UpdatedAt user)))]"

definition loginResponse :: "ext \<Rightarrow> string \<Rightarrow> User \<Rightarrow> json" where
  "loginResponse E accessToken user =
     JObj [(''access_token'', JStr accessToken), (''token_type'', JStr ''Bearer''), (''user'', newUserResponse E user)]"

section \<open>Cookies\<close>

abbreviation refreshTokenCookieName :: string where
  "refreshTokenCookieName \<equiv> ''refresh_token''"

abbreviation Hour :: time where
  "Hour \<equiv> 3600000000000"

definition refresh_cookie :: "Server \<Rightarrow> string \<Rightarrow> time \<Rightarrow> int \<Rightarrow> Cookie" where
  "refresh_cookie s v expires maxAge =
     \<lparr>ck_Name = refreshTokenCookieName, ck_Value = v, ck_Path = ''/auth'', ck_Expires = expires, ck_MaxAge = maxAge,
      ck_HttpOnly = True, ck_Secure = srv_cookieSecure s, ck_SameSite = SameSiteLaxMode\<rparr>"

definition setRefreshTokenCookie ::
    "ext \<Rightarrow> Server \<Rightarrow> string \<Rightarrow> time \<Rightarrow> statusRecorder \<Rightarrow> ('z, statusRecorder) io" where
  "setRefreshTokenCookie E s token expiresAt w =
     bindM (Now E) (\<lambda>now.
     let age = int_Seconds (expiresAt - now); maxAge = (if age < 0 then 0 else age) in
     returnM (SetCookie (refresh_cookie s token expiresAt maxAge) w))"

definition clearRefreshTokenCookie :: "ext \<Rightarrow> Server \<Rightarrow> statusRecorder \<Rightarrow> ('z, statusRecorder) io" where
  "clearRefreshTokenCookie E s w =
     bindM (Now E) (\<lambda>now. returnM (SetCookie (refresh_cookie s '''' (now - Hour) (- 1)) w))"

section \<open>\<open>auth_handler.go\<close>\<close>

definition handleRegister :: "ext \<Rightarrow> 'z handler" where
  "handleRegister E r w =
     (case Decode_registerRequest (req_Body r) of
        None \<Rightarrow> returnM (writeJSONError StatusBadRequest ''invalid JSON body'' w)
      | Some req \<Rightarrow>
          bindM (tryM (RegisterUser E \<lparr>rup_Email = reg_req_Email req, rup_Password = reg_req_Password req,
            rup_Role = reg_req_Role req\<rparr>)) (\<lambda>v.
          case v of
            Inl err \<Rightarrow>
              returnM (if errors_Is err ErrInvalidInput then writeJSONError StatusBadRequest ''invalid register input'' w
                else if errors_Is err ErrEmailAlreadyExists then writeJSONError StatusConflict ''email already exists'' w
                else writeJSONError StatusInternalServerError ''failed to register user'' w)
          | Inr user \<Rightarrow> returnM (writeJSON StatusCreated (newUserResponse E user) w)))"

definition handleLogin :: "ext \<Rightarrow> Server \<Rightarrow> 'z handler" where
  "handleLogin E s r w =
     (case Decode_loginRequest (req_Body r) of
        None \<Rightarrow> returnM (writeJSONError StatusBadRequest ''invalid JSON body'' w)
      | Some req \<Rightarrow>
          bindM (tryM (Login E (srv_authService s) \<lparr>lp_Email = log_req_Email req, lp_Password = log_req_Password req\<rparr>)) (\<lambda>v.
          case v of
            Inl err \<Rightarrow>
              returnM (if errors_Is err ErrInvalidInput then writeJSONError StatusBadRequest ''invalid login input'' w
                else if errors_Is err ErrInvalidCredentials
                then writeJSONError StatusUnauthorized ''invalid email or password'' w
                else writeJSONError StatusInternalServerError ''failed to login user'' w)
          | Inr result \<Rightarrow>
              bindM (setRefreshTokenCookie E s (lr_RefreshToken result) (lr_RefreshTokenExpiresAt result) w) (\<lambda>w1.
              returnM (writeJSON StatusOK (loginResponse E (lr_AccessToken result) (lr_User result)) w1))))"

definition handleRefresh :: "ext \<Rightarrow> Server \<Rightarrow> 'z handler" where
  "handleRefresh E s r w =
     (case req_Cookie r refreshTokenCookieName of
        None \<Rightarrow> returnM (writeJSONError StatusUnauthorized ''missing refresh token'' w)
      | Some cookie \<Rightarrow>
          bindM (tryM (RefreshAccessToken E (srv_authService s) cookie)) (\<lambda>v.
          case v of
            Inl err \<Rightarrow>
              returnM (if errors_Is err ErrInvalidRefreshToken
                then writeJSONError StatusUnauthorized ''invalid refresh token'' w
                else writeJSONError StatusInternalServerError ''failed to refresh access token'' w)
          | Inr result \<Rightarrow>
              returnM (writeJSON StatusOK (loginResponse E (rat_AccessToken result) (rat_User result)) w)))"

definition handleLogout :: "ext \<Rightarrow> Server \<Rightarrow> 'z handler" where
  "handleLogout E s r w =
     (case req_Cookie r refreshTokenCookieName of
        None \<Rightarrow>
          bindM (clearRefreshTokenCookie E s w) (\<lambda>w1. returnM (WriteHeader StatusNoContent w1))
      | Some cookie \<Rightarrow>
          bindM (tryM (Logout E cookie)) (\<lambda>_.
          bindM (clearRefreshTokenCookie E s w) (\<lambda>w1. returnM (WriteHeader StatusNoContent w1))))"

definition handleMe :: "ext \<Rightarrow> 'z handler" where
  "handleMe E r w =
     (case req_claims r of
        None \<Rightarrow> returnM (writeJSONError StatusUnauthorized ''unauthorized'' w)
      | Some claims \<Rightarrow>
          bindM (tryM (auth_GetUser E (Claims_UserID claims))) (\<lambda>v.
          case v of
            Inl _ \<Rightarrow> returnM (writeJSONError StatusUnauthorized ''unauthorized'' w)
          | Inr user \<Rightarrow> returnM (writeJSON StatusOK (newUserResponse E user) w)))"

section \<open>The lock on an order\<close>

definition orderLockKey :: "string \<Rightarrow> string" where
  "orderLockKey orderID = ''lock:order:'' @ orderID"

text \<open>\<open>Inl\<close> is the response of a request that may not go on, \<open>Inr\<close> the lock of one that may.\<close>

definition acquireOrderLock ::
    "redis_ext \<Rightarrow> ext \<Rightarrow> Server \<Rightarrow> statusRecorder \<Rightarrow> string \<Rightarrow> ('z, statusRecorder + Lock option) rio" where
  "acquireOrderLock R E s w orderID =
     (case srv_lockManager s of
        None \<Rightarrow> returnM (Inr None)
      | Some ttl \<Rightarrow>
          bindM (tryM (Acquire R E ttl (orderLockKey orderID))) (\<lambda>v.
          case v of
            Inl err \<Rightarrow>
              returnM (Inl (if errors_Is err ErrLockNotAcquired
                then writeJSONError StatusConflict ''order is being processed'' w
                else writeJSONError StatusInternalServerError ''failed to acquire order lock'' w))
          | Inr lock \<Rightarrow> returnM (Inr (Some lock))))"

definition releaseOrderLock :: "redis_ext \<Rightarrow> Lock option \<Rightarrow> ('z, unit) rio" where
  "releaseOrderLock R lock =
     (case lock of None \<Rightarrow> returnM () | Some l \<Rightarrow> bindM (tryM (Release R l)) (\<lambda>_. returnM ()))"

section \<open>\<open>order_handler.go\<close>\<close>

definition handleCreateOrder :: "ext \<Rightarrow> 'z handler" where
  "handleCreateOrder E r w =
     (case req_claims r of
        None \<Rightarrow> returnM (writeJSONError StatusUnauthorized ''unauthorized'' w)
      | Some claims \<Rightarrow>
          (case Decode_createOrderRequest (req_Body r) of
             None \<Rightarrow> returnM (writeJSONError StatusBadRequest ''invalid JSON body'' w)
           | Some req \<Rightarrow>
               bindM (tryM (CreateOrder E
                 \<lparr>cop_UserID = Claims_UserID claims, cop_IdempotencyKey = header_Get (req_Header r) ''Idempotency-Key'',
                  cop_Method = req_Method r, cop_Path = req_Path r, cop_AmountCents = cor_req_AmountCents req,
                  cop_Currency = cor_req_Currency req, cop_Description = cor_req_Description req\<rparr>)) (\<lambda>v.
               case v of
                 Inl err \<Rightarrow>
                   returnM (if errors_Is err ErrIdempotencyKeyRequired
                     then writeJSONError StatusBadRequest ''idempotency key is required'' w
                     else if errors_Is err ErrInvalidInput then writeJSONError StatusBadRequest ''invalid order input'' w
                     else if errors_Is err ErrIdempotencyConflict
                     then writeJSONError StatusConflict ''idempotency key reused with different request'' w
                     else writeJSONError StatusInternalServerError ''failed to create order'' w)
               | Inr result \<Rightarrow>
                   returnM (writeJSON (cor_StatusCode result) (newOrderResponse E (cor_Order result)) w))))"

definition handleListOrders :: "ext \<Rightarrow> 'z handler" where
  "handleListOrders E r w =
     (case req_claims r of
        None \<Rightarrow> returnM (writeJSONError StatusUnauthorized ''unauthorized'' w)
      | Some claims \<Rightarrow>
          bindM (tryM (ListOrders E \<lparr>lop_UserID = Claims_UserID claims, lop_Role = Claims_Role claims\<rparr>)) (\<lambda>v.
          case v of
            Inl _ \<Rightarrow> returnM (writeJSONError StatusInternalServerError ''failed to list orders'' w)
          | Inr orders \<Rightarrow> returnM (writeJSON StatusOK (JArr (map (newOrderResponse E) orders)) w)))"

definition handleGetOrder :: "ext \<Rightarrow> 'z handler" where
  "handleGetOrder E r w =
     (case req_claims r of
        None \<Rightarrow> returnM (writeJSONError StatusUnauthorized ''unauthorized'' w)
      | Some claims \<Rightarrow>
          let orderID = req_URLParam_id r in
          if orderID = '''' then returnM (writeJSONError StatusBadRequest ''order id is required'' w)
          else
            bindM (tryM (GetOrder E
              \<lparr>gop_UserID = Claims_UserID claims, gop_Role = Claims_Role claims, gop_OrderID = orderID\<rparr>)) (\<lambda>v.
            case v of
              Inl err \<Rightarrow>
                returnM (if errors_Is err ErrOrderNotFound then writeJSONError StatusNotFound ''order not found'' w
                  else if errors_Is err ErrOrderForbidden then writeJSONError StatusForbidden ''order forbidden'' w
                  else writeJSONError StatusInternalServerError ''failed to get order'' w)
            | Inr order \<Rightarrow> returnM (writeJSON StatusOK (newOrderResponse E order) w)))"

definition payOrder_error :: "error \<Rightarrow> statusRecorder \<Rightarrow> statusRecorder" where
  "payOrder_error err w =
     (if errors_Is err ErrInvalidInput then writeJSONError StatusBadRequest ''invalid payment input'' w
      else if errors_Is err ErrIdempotencyKeyRequired
      then writeJSONError StatusBadRequest ''idempotency key is required'' w
      else if errors_Is err ErrIdempotencyConflict
      then writeJSONError StatusConflict ''idempotency key reused with different request'' w
      else if errors_Is err ErrOrderNotFound then writeJSONError StatusNotFound ''order not found'' w
      else if errors_Is err ErrOrderForbidden then writeJSONError StatusForbidden ''order forbidden'' w
      else if errors_Is err ErrOrderInvalidStatus
      then writeJSONError StatusConflict ''order cannot be paid in current status'' w
      else writeJSONError StatusInternalServerError ''failed to pay order'' w)"

definition cancelOrder_error :: "error \<Rightarrow> statusRecorder \<Rightarrow> statusRecorder" where
  "cancelOrder_error err w =
     (if errors_Is err ErrInvalidInput then writeJSONError StatusBadRequest ''invalid cancel input'' w
      else if errors_Is err ErrOrderNotFound then writeJSONError StatusNotFound ''order not found'' w
      else if errors_Is err ErrOrderForbidden then writeJSONError StatusForbidden ''order forbidden'' w
      else if errors_Is err ErrOrderInvalidStatus
      then writeJSONError StatusConflict ''order cannot be cancelled in current status'' w
      else writeJSONError StatusInternalServerError ''failed to cancel order'' w)"

text \<open>The deferred release runs after the response has been written.\<close>

definition handlePayOrder :: "redis_ext \<Rightarrow> ext \<Rightarrow> Server \<Rightarrow> 'z handler" where
  "handlePayOrder R E s r w =
     (case req_claims r of
        None \<Rightarrow> returnM (writeJSONError StatusUnauthorized ''unauthorized'' w)
      | Some claims \<Rightarrow>
          let orderID = req_URLParam_id r in
          if orderID = '''' then returnM (writeJSONError StatusBadRequest ''order id is required'' w)
          else
            bindM (acquireOrderLock R E s w orderID) (\<lambda>l.
            case l of
              Inl w1 \<Rightarrow> returnM w1
            | Inr lock \<Rightarrow>
                bindM (tryM (PayOrder E
                  \<lparr>pop_UserID = Claims_UserID claims, pop_Role = Claims_Role claims, pop_OrderID = orderID,
                   pop_IdempotencyKey = header_Get (req_Header r) ''Idempotency-Key'', pop_Method = req_Method r,
                   pop_Path = req_Path r\<rparr>)) (\<lambda>v.
                let w1 = (case v of
                    Inl err \<Rightarrow> payOrder_error err w
                  | Inr result \<Rightarrow> writeJSON (por_StatusCode result) (payOrderResponse E result) w) in
                bindM (releaseOrderLock R lock) (\<lambda>_. returnM w1))))"

definition handleCancelOrder :: "redis_ext \<Rightarrow> ext \<Rightarrow> Server \<Rightarrow> 'z handler" where
  "handleCancelOrder R E s r w =
     (case req_claims r of
        None \<Rightarrow> returnM (writeJSONError StatusUnauthorized ''unauthorized'' w)
      | Some claims \<Rightarrow>
          let orderID = req_URLParam_id r in
          if orderID = '''' then returnM (writeJSONError StatusBadRequest ''order id is required'' w)
          else
            bindM (acquireOrderLock R E s w orderID) (\<lambda>l.
            case l of
              Inl w1 \<Rightarrow> returnM w1
            | Inr lock \<Rightarrow>
                bindM (tryM (CancelOrder E
                  \<lparr>xop_UserID = Claims_UserID claims, xop_Role = Claims_Role claims, xop_OrderID = orderID\<rparr>)) (\<lambda>v.
                let w1 = (case v of
                    Inl err \<Rightarrow> cancelOrder_error err w
                  | Inr order \<Rightarrow> writeJSON StatusOK (newOrderResponse E order) w) in
                bindM (releaseOrderLock R lock) (\<lambda>_. returnM w1))))"

end
