(* ===== verification/Rate_Limit.thy ===== *)
theory Rate_Limit
  imports Redis Json_Roundtrip
begin

text \<open>
  \<^verbatim>\<open>internal/ratelimit/limiter.go\<close>: a counter in Redis for every scope, client and window, which expires a
  second after the window's length.

  \<open>serve_all\<close> is a sequence of requests as the limiter sees them; \<open>counted\<close> is the invariant that
  bounds how many of them it lets through, whatever fails.
\<close>

abbreviation Second :: time where
  "Second \<equiv> 1000000000"

abbreviation Minute :: time where
  "Minute \<equiv> 60000000000"

text \<open>\<^verbatim>\<open>time.Truncate\<close> rounds down to a multiple of the duration since the zero time, 1 January of year 1.\<close>

definition zero_time :: time where
  "zero_time = - 62135596800 * Second"

definition time_Truncate :: "time \<Rightarrow> time \<Rightarrow> time" where
  "time_Truncate t d = (if d \<le> 0 then t else t - (t - zero_time) mod d)"

definition time_Unix :: "time \<Rightarrow> int" where
  "time_Unix t = t div Second"

section \<open>\<open>limiter.go\<close>\<close>

record limit_Result =
  res_Allowed :: bool
  res_Limit :: int
  res_Remaining :: int
  res_RetryAfter :: time

definition rate_key :: "string \<Rightarrow> string \<Rightarrow> time \<Rightarrow> string" where
  "rate_key scope key windowStart =
     ''rate_limit:'' @ scope @ '':'' @ key @ '':'' @ Itoa (time_Unix windowStart)"

definition limit_result :: "int \<Rightarrow> time \<Rightarrow> time \<Rightarrow> int \<Rightarrow> limit_Result" where
  "limit_result limit window now count =
     (let windowStart = time_Truncate now window;
          remaining = (if limit - count < 0 then 0 else limit - count);
          retryAfter = (if windowStart + window - now < 0 then 0 else windowStart + window - now)
      in \<lparr>res_Allowed = count \<le> limit, res_Limit = limit, res_Remaining = remaining,
          res_RetryAfter = retryAfter\<rparr>)"

definition Allow :: "redis_ext \<Rightarrow> ext \<Rightarrow> string \<Rightarrow> string \<Rightarrow> int \<Rightarrow> time \<Rightarrow> ('z, limit_Result) rio" where
  "Allow R E scope key limit window =
     bindM (Now E) (\<lambda>now.
     let redisKey = rate_key scope key (time_Truncate now window) in
     bindM (redis_do R (redis_Incr redisKey)) (\<lambda>count.
     bindM (if count = 1 then bindM (redis_do R (redis_Expire redisKey (redis_ttl R (window + Second)))) (\<lambda>_. returnM ())
            else returnM ()) (\<lambda>_.
     returnM (limit_result limit window now count))))"

section \<open>What the result says\<close>

lemma time_Truncate_bounds:
  assumes "0 < d"
  shows "time_Truncate t d \<le> t" and "t < time_Truncate t d + d"
  using assms by (simp_all add: time_Truncate_def pos_mod_bound)

lemma limit_result_bounds:
  assumes "0 < window" and "0 < count"
  shows "0 \<le> res_Remaining (limit_result limit window now count)"
    and "0 \<le> limit \<Longrightarrow> res_Remaining (limit_result limit window now count) \<le> limit"
    and "0 < res_RetryAfter (limit_result limit window now count)"
    and "res_RetryAfter (limit_result limit window now count) \<le> window"
    and "res_Allowed (limit_result limit window now count) \<longleftrightarrow>
      res_Remaining (limit_result limit window now count) = limit - count"
  using time_Truncate_bounds [OF assms(1), of now] assms
  by (simp_all add: limit_result_def Let_def)

section \<open>A sequence of requests\<close>

text \<open>Each request is a scope, a client and the limit of the scope; the result is the counter it used and whether it was let through.\<close>

fun serve_all ::
    "redis_ext \<Rightarrow> ext \<Rightarrow> time \<Rightarrow> (string \<times> string \<times> int) list \<Rightarrow> 'z redis_world_scheme \<Rightarrow>
      (string \<times> bool) list \<times> 'z redis_world_scheme" where
  "serve_all R E window [] w = ([], w)"
| "serve_all R E window ((scope, key, limit) # rs) w =
     (case Allow R E scope key limit window w of
        (r, w1) \<Rightarrow>
          (case serve_all R E window rs w1 of
             (outs, w2) \<Rightarrow>
               ((rate_key scope key (time_Truncate (time_Now E (w_clock w)) window),
                 case r of Inr res \<Rightarrow> res_Allowed res | Inl _ \<Rightarrow> False) # outs, w2)))"

definition let_through :: "string \<Rightarrow> (string \<times> bool) list \<Rightarrow> nat" where
  "let_through k outs = length (filter (\<lambda>x. x = (k, True)) outs)"

text \<open>The counter of a window after \<open>j\<close> requests were let through, none of it expiring before \<open>T\<close>.\<close>

definition counted :: "time \<Rightarrow> string \<Rightarrow> nat \<Rightarrow> redis_keys \<Rightarrow> bool" where
  "counted T k j m \<longleftrightarrow>
     (case m k of
        None \<Rightarrow> j = 0
      | Some (v, x) \<Rightarrow> (\<exists>n. v = Itoa n \<and> 1 \<le> n \<and> n < 2 ^ 63 \<and> int j \<le> n) \<and> (\<forall>t. x = Some t \<longrightarrow> T < t))"

lemma counted_live:
  assumes "counted T k j m" and "now \<le> T" and "m k = Some (v, x)"
  shows "live now m k = Some v"
  using assms by (auto simp: counted_def live_def split: option.splits)

lemma Incr_counted:
  assumes "counted T k j m" and "now \<le> T" and "redis_Incr k now m = Inr (c, m')"
  shows "counted T k (Suc j) m'" and "int (Suc j) \<le> c" and "m' k = Some (Itoa c, if m k = None then None else snd (the (m k)))"
proof -
  have *: "counted T k (Suc j) m' \<and> int (Suc j) \<le> c \<and> m' k = Some (Itoa c, if m k = None then None else snd (the (m k)))"
  proof (cases "m k")
    case None
    then have "live now m k = None" by (simp add: live_def)
    moreover have "Itoa 1 = ''1''" by code_simp
    ultimately show ?thesis using assms(1,3) None by (auto simp: redis_Incr_def counted_def intro!: exI [of _ "1 :: int"])
  next
    case (Some vx)
    obtain v x where vx: "vx = (v, x)" by (cases vx)
    with assms(1) Some obtain n where n: "v = Itoa n" "1 \<le> n" "n < 2 ^ 63" "int j \<le> n"
      "\<forall>t. x = Some t \<longrightarrow> T < t" by (auto simp: counted_def)
    have "live now m k = Some v" using counted_live [OF assms(1,2)] Some vx by simp
    moreover have "parse_int64 v = Some n" using parse_int64_Itoa [of n] n by simp
    ultimately have "c = n + 1" "n \<noteq> 2 ^ 63 - 1" "m' = m(k \<mapsto> (Itoa (n + 1), x))"
      using assms(3) Some vx by (auto simp: redis_Incr_def split: if_splits)
    with n Some vx show ?thesis by (auto simp: counted_def)
  qed
  then show "counted T k (Suc j) m'" "int (Suc j) \<le> c"
    "m' k = Some (Itoa c, if m k = None then None else snd (the (m k)))" by blast+
qed

lemma Expire_counted:
  assumes "counted T k j m" and "now \<le> T" and "T < now + ttl" and "redis_Expire k ttl now m = Inr (b, m')"
  shows "counted T k j m'"
proof (cases "m k")
  case None
  with assms show ?thesis by (simp add: redis_Expire_def live_def)
next
  case (Some vx)
  obtain v x where "vx = (v, x)" by (cases vx)
  with Some counted_live [OF assms(1,2)] have "live now m k = Some v" by simp
  with assms Some \<open>vx = (v, x)\<close> show ?thesis by (auto simp: redis_Expire_def counted_def)
qed

lemma other_key:
  "redis_Incr k now m = Inr (c, m') \<Longrightarrow> j \<noteq> k \<Longrightarrow> m' j = m j"
  "redis_Expire k ttl now m = Inr (b, m') \<Longrightarrow> j \<noteq> k \<Longrightarrow> m' j = m j"
  by (auto simp: redis_Incr_def redis_Expire_def split: option.splits if_splits)

lemma counted_cong: "m' k = m k \<Longrightarrow> counted T k j m' = counted T k j m"
  by (simp add: counted_def)

lemma counted_mono: "counted T k (Suc j) m \<Longrightarrow> counted T k j m"
  by (auto simp: counted_def split: option.splits)

text \<open>One command of the limiter, whatever it returns.\<close>

lemma Incr_step:
  assumes "redis_do R (redis_Incr k) w = (r, w')" and "counted T K j (w_redis w)"
    and "redis_clock R (w_redis_calls w) \<le> T"
  shows "counted T K j (w_redis w')"
    and "r = Inr c \<Longrightarrow> k = K \<Longrightarrow> counted T K (Suc j) (w_redis w') \<and> int (Suc j) \<le> c"
proof -
  have step: "counted T K j m \<and> (k = K \<longrightarrow> counted T K (Suc j) m \<and> int (Suc j) \<le> x)"
    if "redis_Incr k (redis_clock R (w_redis_calls w)) (w_redis w) = Inr (x, m)" for x m
  proof (cases "k = K")
    case True
    from Incr_counted(1,2) [OF assms(2,3) that [unfolded True]] counted_mono show ?thesis by blast
  next
    case False
    then have "counted T K j m" by (intro counted_cong [THEN iffD2, OF _ assms(2)] other_key(1) [OF that]) simp
    with False show ?thesis by simp
  qed
  from assms(1) show "counted T K j (w_redis w')"
  proof (cases rule: redis_do_cases)
    case (ok x m)
    with step [of x m] show ?thesis by simp
  next
    case (none e)
    with assms(2) show ?thesis by simp
  next
    case (lost e x m)
    with step [of x m] show ?thesis by simp
  qed
  show "counted T K (Suc j) (w_redis w') \<and> int (Suc j) \<le> c" if "r = Inr c" "k = K"
    using assms(1)
  proof (cases rule: redis_do_cases)
    case (ok x m)
    with step [of x m] that show ?thesis by simp
  qed (use that in simp_all)
qed

lemma Expire_step:
  assumes "redis_do R (redis_Expire k ttl) w = (r, w')" and "counted T K j (w_redis w)"
    and "redis_clock R (w_redis_calls w) \<le> T" and "T < redis_clock R (w_redis_calls w) + ttl"
  shows "counted T K j (w_redis w')"
proof -
  have step: "counted T K j m" if "redis_Expire k ttl (redis_clock R (w_redis_calls w)) (w_redis w) = Inr (x, m)" for x m
  proof (cases "k = K")
    case True
    from Expire_counted [OF assms(2,3,4) that [unfolded True]] show ?thesis .
  next
    case False
    then show ?thesis by (intro counted_cong [THEN iffD2, OF _ assms(2)] other_key(2) [OF that]) simp
  qed
  from assms(1) show ?thesis
  proof (cases rule: redis_do_cases)
    case (ok x m)
    with step [of x m] show ?thesis by simp
  next
    case (none e)
    with assms(2) show ?thesis by simp
  next
    case (lost e x m)
    with step [of x m] show ?thesis by simp
  qed
qed

text \<open>The two commands \<open>Allow\<close> sends.\<close>

lemma Allow_cases:
  fixes w :: "'z redis_world_scheme"
  assumes "Allow R E scope key limit window w = (r, w')"
  obtains c and w1 :: "'z redis_world_scheme" where
    "redis_do R (redis_Incr (rate_key scope key (time_Truncate (time_Now E (w_clock w)) window)))
      (w\<lparr>w_clock := Suc (w_clock w)\<rparr>) = (c, w1)"
    and "w' = w1 \<or> (\<exists>x. redis_do R (redis_Expire (rate_key scope key (time_Truncate (time_Now E (w_clock w)) window))
      (redis_ttl R (window + Second))) w1 = (x, w'))"
    and "\<forall>res. r = Inr res \<longrightarrow> (\<exists>n. c = Inr n \<and> res = limit_result limit window (time_Now E (w_clock w)) n)"
proof -
  obtain c w1 where c: "redis_do R (redis_Incr (rate_key scope key (time_Truncate (time_Now E (w_clock w)) window)))
      (w\<lparr>w_clock := Suc (w_clock w)\<rparr>) = (c, w1)" by (metis surj_pair)
  obtain x w2 where x: "redis_do R (redis_Expire (rate_key scope key (time_Truncate (time_Now E (w_clock w)) window))
      (redis_ttl R (window + Second))) w1 = (x, w2)" by (metis surj_pair)
  show thesis
    by (rule that [OF c]) (use assms c x in \<open>auto simp: Allow_def Let_def bindM_def Now_def returnM_def
        split: sum.splits if_splits\<close>)
qed

lemma Allow_calls:
  fixes w :: "'z redis_world_scheme"
  assumes "Allow R E scope key limit window w = (r, w')"
  shows "w_redis_calls w \<le> w_redis_calls w'"
  using assms by (rule Allow_cases) (auto dest!: redis_do_frame(3))

lemma Allow_clock:
  fixes w :: "'z redis_world_scheme"
  assumes "Allow R E scope key limit window w = (r, w')"
  shows "w_clock w' = Suc (w_clock w)"
  using assms by (rule Allow_cases) (auto dest!: redis_do_frame(4))

lemma serve_all_calls:
  "serve_all R E window rs w = (outs, w') \<Longrightarrow> w_redis_calls w \<le> w_redis_calls w'"
proof (induction rs arbitrary: w outs)
  case (Cons q rs)
  obtain s c l where q: "q = (s, c, l)" by (cases q)
  obtain r w1 where a: "Allow R E s c l window w = (r, w1)" by (metis surj_pair)
  obtain outs' w2 where t: "serve_all R E window rs w1 = (outs', w2)" by (metis surj_pair)
  from Allow_calls [OF a] Cons.IH [of w1] Cons.prems a t q show ?case by auto
qed simp

lemma Allow_step:
  fixes w :: "'z redis_world_scheme"
  assumes "Allow R E scope key limit window w = (r, w')" and "mono (redis_clock R)"
    and "counted T K j (w_redis w)" and "redis_clock R (w_redis_calls w') \<le> T"
    and "T0 \<le> redis_clock R (w_redis_calls w)" and "T < T0 + redis_ttl R (window + Second)"
  shows "counted T K j (w_redis w')" and "w_redis_calls w \<le> w_redis_calls w'"
    and "r = Inr res \<Longrightarrow> res_Allowed res \<Longrightarrow>
      rate_key scope key (time_Truncate (time_Now E (w_clock w)) window) = K \<Longrightarrow>
      counted T K (Suc j) (w_redis w') \<and> int (Suc j) \<le> limit"
proof -
  let ?k = "rate_key scope key (time_Truncate (time_Now E (w_clock w)) window)"
  let ?w = "w\<lparr>w_clock := Suc (w_clock w)\<rparr>"
  obtain c and w1 :: "'z redis_world_scheme" where inc: "redis_do R (redis_Incr ?k) ?w = (c, w1)"
    and ex: "w' = w1 \<or> (\<exists>x. redis_do R (redis_Expire ?k (redis_ttl R (window + Second))) w1 = (x, w'))"
    and res: "\<forall>res. r = Inr res \<longrightarrow> (\<exists>n. c = Inr n \<and> res = limit_result limit window (time_Now E (w_clock w)) n)"
    by (rule Allow_cases [OF assms(1)])
  have calls: "w_redis_calls w1 = Suc (w_redis_calls w)" using redis_do_frame(3) [OF inc] by simp
  moreover have "w_redis_calls w1 \<le> w_redis_calls w'" using ex by (auto dest: redis_do_frame(3))
  ultimately show le: "w_redis_calls w \<le> w_redis_calls w'" by simp
  have t: "redis_clock R (w_redis_calls w) \<le> T" "redis_clock R (w_redis_calls w1) \<le> T"
    "T0 \<le> redis_clock R (w_redis_calls w1)"
    using monoD [OF assms(2) le] monoD [OF assms(2) \<open>w_redis_calls w1 \<le> w_redis_calls w'\<close>]
      monoD [OF assms(2), of "w_redis_calls w" "w_redis_calls w1"] calls assms(4,5) by auto
  have keep: "counted T K i (w_redis w')" if "counted T K i (w_redis w1)" for i
    using ex that Expire_step [OF _ that t(2)] t(3) assms(6) by auto
  show "counted T K j (w_redis w')"
    by (rule keep) (rule Incr_step(1) [OF inc], use assms(3) t(1) in simp_all)
  show "counted T K (Suc j) (w_redis w') \<and> int (Suc j) \<le> limit" if "r = Inr res" "res_Allowed res" "?k = K"
  proof -
    from res that(1) obtain n where n: "c = Inr n" "res = limit_result limit window (time_Now E (w_clock w)) n" by blast
    have "counted T K (Suc j) (w_redis w1) \<and> int (Suc j) \<le> n"
      by (rule Incr_step(2) [OF inc _ _ n(1) that(3)]) (use assms(3) t(1) in simp_all)
    with keep that(2) n(2) show ?thesis by (auto simp: limit_result_def Let_def)
  qed
qed

text \<open>Requests of different scopes or clients never share a counter: a scope has no colon, and neither has the time at the end of a key.\<close>

lemma append_first_eq:
  assumes "a \<notin> set xs" and "a \<notin> set xs'" and "xs @ a # ys = xs' @ a # ys'"
  shows "xs = xs' \<and> ys = ys'"
proof -
  have first: "takeWhile (\<lambda>c. c \<noteq> a) (zs @ a # us) = zs" if "a \<notin> set zs" for zs us
    using that by (induction zs) auto
  from first [OF assms(1), of ys] first [OF assms(2), of ys'] have "xs = xs'" by (simp only: assms(3))
  with assms(3) show ?thesis by simp
qed

lemma append_last_eq:
  assumes "a \<notin> set ys" and "a \<notin> set ys'" and "xs @ a # ys = xs' @ a # ys'"
  shows "xs = xs' \<and> ys = ys'"
proof -
  have "rev ys @ a # rev xs = rev ys' @ a # rev xs'" using arg_cong [OF assms(3), of rev] by simp
  from append_first_eq [OF _ _ this] assms(1,2) show ?thesis by simp
qed

lemma Itoa_no_colon: "CHR '':'' \<notin> set (Itoa i)"
proof -
  have "CHR '':'' \<notin> set (Itoa_nat n)" for n
    using Itoa_nat_digits [of n] by (auto simp: list_all_iff is_digit_def in_range_def)
  then show ?thesis by (simp add: Itoa_def)
qed

lemma rate_key_inj:
  assumes "rate_key s c t = rate_key s' c' t'" and "CHR '':'' \<notin> set s" and "CHR '':'' \<notin> set s'"
  shows "s = s' \<and> c = c'"
proof -
  have "s @ CHR '':'' # (c @ CHR '':'' # Itoa (time_Unix t)) = s' @ CHR '':'' # (c' @ CHR '':'' # Itoa (time_Unix t'))"
    using assms(1) by (simp add: rate_key_def)
  from append_first_eq [OF assms(2,3) this] have "s = s'" and
    "c @ CHR '':'' # Itoa (time_Unix t) = c' @ CHR '':'' # Itoa (time_Unix t')" by blast+
  with append_last_eq [OF Itoa_no_colon Itoa_no_colon this(2)] show ?thesis by blast
qed

lemma serve_all_counted:
  assumes "serve_all R E window rs w = (outs, w')" and "mono (redis_clock R)"
    and "counted T K j (w_redis w)" and "redis_clock R (w_redis_calls w') \<le> T"
    and "T0 \<le> redis_clock R (w_redis_calls w)" and "T < T0 + redis_ttl R (window + Second)"
    and "\<forall>(s, c, l) \<in> set rs. (\<exists>t. rate_key s c t = K) \<longrightarrow> l \<le> limit" and "int j \<le> limit"
  shows "int (j + let_through K outs) \<le> limit"
  using assms(1,3,5,7,8)
proof (induction rs arbitrary: w j outs)
  case (Cons q rs)
  obtain s c l where q: "q = (s, c, l)" by (cases q)
  obtain r w1 where a: "Allow R E s c l window w = (r, w1)" by (metis surj_pair)
  obtain outs' w2 where t: "serve_all R E window rs w1 = (outs', w2)" by (metis surj_pair)
  with a Cons.prems(1) q have w2: "w2 = w'" and outs:
    "outs = (rate_key s c (time_Truncate (time_Now E (w_clock w)) window),
       case r of Inr res \<Rightarrow> res_Allowed res | Inl _ \<Rightarrow> False) # outs'" by simp_all
  note le = serve_all_calls [OF t [unfolded w2]]
  from monoD [OF assms(2) le] assms(4) have T1: "redis_clock R (w_redis_calls w1) \<le> T" by simp
  note st = Allow_step [OF a assms(2) Cons.prems(2) T1 Cons.prems(3) assms(6)]
  have T01: "T0 \<le> redis_clock R (w_redis_calls w1)"
    using monoD [OF assms(2) st(2)] Cons.prems(3) by simp
  show ?case
  proof (cases "\<exists>res. r = Inr res \<and> res_Allowed res \<and> rate_key s c (time_Truncate (time_Now E (w_clock w)) window) = K")
    case True
    with st(3) have c: "counted T K (Suc j) (w_redis w1)" "int (Suc j) \<le> l" by blast+
    moreover have "l \<le> limit" using Cons.prems(4) True q by auto
    ultimately have "int (Suc j + let_through K outs') \<le> limit"
      by (intro Cons.IH [OF t [unfolded w2] c(1) T01]) (use Cons.prems(4) in auto)
    moreover have "let_through K outs = Suc (let_through K outs')"
      using True by (auto simp: let_through_def outs)
    ultimately show ?thesis by simp
  next
    case False
    then have "let_through K outs = let_through K outs'"
      by (auto simp: let_through_def outs split: sum.splits)
    with Cons.IH [OF t [unfolded w2] st(1) T01] Cons.prems(4,5) show ?thesis by simp
  qed
qed (simp add: let_through_def)

end
