(* ===== verification/Router.thy ===== *)
theory Router
  imports Api Rate_Limit
begin

text \<open>
  \<^verbatim>\<open>internal/api/router.go\<close> and the middleware: access tokens (\<^verbatim>\<open>middleware.go\<close>), rate limits, CORS, metrics. A middleware is
  a function from handlers to handlers, and \<open>ServeHTTP\<close> is the handler \<^verbatim>\<open>NewRouter\<close> builds, composed as the code composes it:
  metrics around CORS around the router, and for the routes of the application the global limit, the limit of the
  route and the check of the access token around the handler.

  Which route a request takes is decided by the chi library: \<open>chi_Match\<close> is a parameter, given the table of routes; so is what chi answers when
  there is none and what Prometheus' handler writes.
\<close>

section \<open>Middleware\<close>

definition requireAuth :: "ext \<Rightarrow> Server \<Rightarrow> 'z handler \<Rightarrow> 'z handler" where
  "requireAuth E s next r w =
     (let authHeader = header_Get (req_Header r) ''Authorization'' in
      if authHeader = '''' then returnM (writeJSONError StatusUnauthorized ''missing authorization header'' w)
      else
        case Fields authHeader of
          [scheme, tokenString] \<Rightarrow>
            if \<not> EqualFold scheme ''Bearer''
            then returnM (writeJSONError StatusUnauthorized ''invalid authorization header'' w)
            else
              bindM (tryM (ParseAccessToken E (as_tokenManager (srv_authService s)) tokenString)) (\<lambda>v.
              case v of
                Inl _ \<Rightarrow> returnM (writeJSONError StatusUnauthorized ''invalid access token'' w)
              | Inr claims \<Rightarrow> next (r\<lparr>req_claims := Some claims\<rparr>) w)
        | _ \<Rightarrow> returnM (writeJSONError StatusUnauthorized ''invalid authorization header'' w))"

definition clientIPFromRequest :: "Request \<Rightarrow> string" where
  "clientIPFromRequest r =
     (let forwardedFor = header_Get (req_Header r) ''X-Forwarded-For'';
          ip = TrimSpace (hd (Split forwardedFor CHR '',''));
          realIP = TrimSpace (header_Get (req_Header r) ''X-Real-IP'') in
      if forwardedFor \<noteq> '''' \<and> ip \<noteq> '''' then ip
      else if realIP \<noteq> '''' then realIP
      else (case SplitHostPort (req_RemoteAddr r) of Some host \<Rightarrow> host | None \<Rightarrow> req_RemoteAddr r))"

text \<open>The first argument says whether there is a limiter.\<close>

definition rateLimitMiddleware :: "bool \<Rightarrow> redis_ext \<Rightarrow> ext \<Rightarrow> string \<Rightarrow> int \<Rightarrow> 'z handler \<Rightarrow> 'z handler" where
  "rateLimitMiddleware limiter R E scope limit next r w =
     (if \<not> limiter \<or> limit \<le> 0 then next r w
      else
        bindM (tryM (Allow R E scope (clientIPFromRequest r) limit Minute)) (\<lambda>v.
        case v of
          Inl _ \<Rightarrow> returnM (writeJSONError StatusInternalServerError ''rate limiter unavailable'' w)
        | Inr result \<Rightarrow>
            let w1 = header_Set ''RateLimit-Remaining'' (Itoa (res_Remaining result))
                  (header_Set ''RateLimit-Limit'' (Itoa (res_Limit result)) w) in
            if \<not> res_Allowed result then
              bindM (Inc ''order_service_rate_limit_blocked_total'' [scope]) (\<lambda>_.
              let secs = int_Seconds (res_RetryAfter result); retryAfter = (if secs < 1 then 1 else secs) in
              returnM (writeJSONError StatusTooManyRequests ''rate limit exceeded''
                (header_Set ''Retry-After'' (Itoa retryAfter) w1)))
            else
              bindM (Inc ''order_service_rate_limit_allowed_total'' [scope]) (\<lambda>_. next r w1)))"

definition cors_headers :: "string \<Rightarrow> statusRecorder \<Rightarrow> statusRecorder" where
  "cors_headers origin w =
     header_Set ''Vary'' ''Origin''
       (header_Set ''Access-Control-Allow-Headers'' ''Content-Type, Authorization, Idempotency-Key''
         (header_Set ''Access-Control-Allow-Methods'' ''GET, POST, OPTIONS''
           (header_Set ''Access-Control-Allow-Credentials'' ''true''
             (header_Set ''Access-Control-Allow-Origin'' origin w))))"

definition corsMiddleware :: "string \<Rightarrow> 'z handler \<Rightarrow> 'z handler" where
  "corsMiddleware allowedOrigin next r w =
     (let origin = header_Get (req_Header r) ''Origin'';
          w1 = (if allowedOrigin \<noteq> '''' \<and> origin = allowedOrigin then cors_headers origin w else w) in
      if req_Method r = ''OPTIONS'' then returnM (WriteHeader StatusNoContent w1)
      else next r w1)"

text \<open>
  The recorder starts with the status 200. A histogram is counted by its observations.
\<close>

definition metricsMiddleware :: "ext \<Rightarrow> 'z handler \<Rightarrow> 'z handler" where
  "metricsMiddleware E next r w =
     bindM (Now E) (\<lambda>start.
     bindM (next r (w\<lparr>sr_statusCode := StatusOK\<rparr>)) (\<lambda>recorder.
     let routePattern = (if rw_pattern recorder \<noteq> '''' then rw_pattern recorder else req_Path r);
         status = Itoa (sr_statusCode recorder) in
     bindM (Inc ''order_service_http_requests_total'' [req_Method r, routePattern, status]) (\<lambda>_.
     bindM (Now E) (\<lambda>finish.
     bindM (Inc ''order_service_http_request_duration_seconds'' [req_Method r, routePattern, status]) (\<lambda>_.
     returnM recorder)))))"

section \<open>\<open>router.go\<close>\<close>

definition handleHealthz :: "'z handler" where
  "handleHealthz r w = returnM (Write ''ok'' (WriteHeader StatusOK w))"

definition sql_Ping :: "unit statement" where
  "sql_Ping now d = Inr ((), d)"

definition handleReadyz :: "redis_ext \<Rightarrow> ext \<Rightarrow> 'z handler" where
  "handleReadyz R E r w =
     bindM (tryM (exec E sql_Ping)) (\<lambda>v.
     case v of
       Inl _ \<Rightarrow> returnM (http_Error ''database unavailable'' StatusServiceUnavailable w)
     | Inr _ \<Rightarrow>
         bindM (tryM (redis_do R redis_Ping)) (\<lambda>v.
         case v of
           Inl _ \<Rightarrow> returnM (http_Error ''redis unavailable'' StatusServiceUnavailable w)
         | Inr _ \<Rightarrow> returnM (Write ''ready'' (WriteHeader StatusOK w))))"

record RouterConfig =
  rc_AuthService :: AuthService
  rc_CookieSecure :: bool
  rc_LockManager :: "time option"
  rc_RateLimiter :: bool \<comment> \<open>whether one is given\<close>
  rc_RateLimitEnabled :: bool
  rc_RateLimitRequestsPerMinute :: int
  rc_AuthRateLimitRequestsPerMinute :: int
  rc_LoginRateLimitRequestsPerMinute :: int
  rc_CORSAllowedOrigin :: string

datatype endpoint =
    Healthz | Readyz | Metrics | AuthRegister | AuthLogin | AuthRefresh | AuthLogout | Me
  | OrdersCreate | OrdersList | OrdersGet | OrdersPay | OrdersCancel

text \<open>The routes in the order of registration; a route without a method takes every method.\<close>

definition routes :: "(string option \<times> string \<times> endpoint) list" where
  "routes =
     [(Some ''GET'', ''/healthz'', Healthz), (Some ''GET'', ''/readyz'', Readyz), (None, ''/metrics'', Metrics),
      (Some ''POST'', ''/auth/register'', AuthRegister), (Some ''POST'', ''/auth/login'', AuthLogin),
      (Some ''POST'', ''/auth/refresh'', AuthRefresh), (Some ''POST'', ''/auth/logout'', AuthLogout),
      (Some ''GET'', ''/me'', Me), (Some ''POST'', ''/orders'', OrdersCreate), (Some ''GET'', ''/orders'', OrdersList),
      (Some ''GET'', ''/orders/{id}'', OrdersGet), (Some ''POST'', ''/orders/{id}/pay'', OrdersPay),
      (Some ''POST'', ''/orders/{id}/cancel'', OrdersCancel)]"

text \<open>
  The libraries around the handlers: the route of a method and URL with its pattern and the value of \<^verbatim>\<open>{id}\<close>, chi's answer
  and pattern when there is no route, and Prometheus' handler on the counters.
\<close>

record http_ext =
  chi_Match :: "(string option \<times> string \<times> endpoint) list \<Rightarrow> string \<Rightarrow> url \<Rightarrow> (endpoint \<times> string \<times> string) option"
  chi_Unmatched :: "string \<Rightarrow> url \<Rightarrow> statusRecorder \<Rightarrow> statusRecorder"
  prom_Handler :: "(string \<Rightarrow> string list \<Rightarrow> nat) \<Rightarrow> Request \<Rightarrow> statusRecorder \<Rightarrow> statusRecorder"

text \<open>What the program relies on: a match is a route of the table with the method of the request.\<close>

definition chi_laws :: "http_ext \<Rightarrow> bool" where
  "chi_laws H \<longleftrightarrow>
     (\<forall>rs m p e pat i. chi_Match H rs m p = Some (e, pat, i) \<longrightarrow>
        (\<exists>m'. (m', pat, e) \<in> set rs \<and> (m' = None \<or> m' = Some m)))"

definition router_Server :: "RouterConfig \<Rightarrow> Server" where
  "router_Server cfg = \<lparr>srv_authService = rc_AuthService cfg, srv_cookieSecure = rc_CookieSecure cfg,
     srv_lockManager = rc_LockManager cfg\<rparr>"

definition rateLimiter :: "RouterConfig \<Rightarrow> bool" where
  "rateLimiter cfg \<longleftrightarrow> rc_RateLimitEnabled cfg \<and> rc_RateLimiter cfg"

fun endpoint_handler :: "http_ext \<Rightarrow> redis_ext \<Rightarrow> ext \<Rightarrow> RouterConfig \<Rightarrow> endpoint \<Rightarrow> 'z handler" where
  "endpoint_handler H R E cfg Healthz = handleHealthz"
| "endpoint_handler H R E cfg Readyz = handleReadyz R E"
| "endpoint_handler H R E cfg Metrics = (\<lambda>r w. bindM (getsM w_metrics) (\<lambda>m. returnM (prom_Handler H m r w)))"
| "endpoint_handler H R E cfg AuthRegister =
     rateLimitMiddleware (rateLimiter cfg) R E ''auth_register'' (rc_AuthRateLimitRequestsPerMinute cfg)
       (handleRegister E)"
| "endpoint_handler H R E cfg AuthLogin =
     rateLimitMiddleware (rateLimiter cfg) R E ''auth_login'' (rc_LoginRateLimitRequestsPerMinute cfg)
       (handleLogin E (router_Server cfg))"
| "endpoint_handler H R E cfg AuthRefresh = handleRefresh E (router_Server cfg)"
| "endpoint_handler H R E cfg AuthLogout = handleLogout E (router_Server cfg)"
| "endpoint_handler H R E cfg Me = requireAuth E (router_Server cfg) (handleMe E)"
| "endpoint_handler H R E cfg OrdersCreate = requireAuth E (router_Server cfg) (handleCreateOrder E)"
| "endpoint_handler H R E cfg OrdersList = requireAuth E (router_Server cfg) (handleListOrders E)"
| "endpoint_handler H R E cfg OrdersGet = requireAuth E (router_Server cfg) (handleGetOrder E)"
| "endpoint_handler H R E cfg OrdersPay = requireAuth E (router_Server cfg) (handlePayOrder R E (router_Server cfg))"
| "endpoint_handler H R E cfg OrdersCancel = requireAuth E (router_Server cfg) (handleCancelOrder R E (router_Server cfg))"

text \<open>The routes of the application, which the global limit protects.\<close>

definition app_endpoint :: "endpoint \<Rightarrow> bool" where
  "app_endpoint e \<longleftrightarrow> e \<notin> {Healthz, Readyz, Metrics}"

definition route_handler :: "http_ext \<Rightarrow> redis_ext \<Rightarrow> ext \<Rightarrow> RouterConfig \<Rightarrow> endpoint \<Rightarrow> 'z handler" where
  "route_handler H R E cfg e =
     (if app_endpoint e \<and> rateLimiter cfg
      then rateLimitMiddleware (rateLimiter cfg) R E ''global'' (rc_RateLimitRequestsPerMinute cfg)
        (endpoint_handler H R E cfg e)
      else endpoint_handler H R E cfg e)"

definition route :: "http_ext \<Rightarrow> redis_ext \<Rightarrow> ext \<Rightarrow> RouterConfig \<Rightarrow> 'z handler" where
  "route H R E cfg r w =
     (case chi_Match H routes (req_Method r) (req_URL r) of
        None \<Rightarrow> returnM (chi_Unmatched H (req_Method r) (req_URL r) w)
      | Some (e, pattern, i) \<Rightarrow>
          route_handler H R E cfg e (r\<lparr>req_URLParam_id := i\<rparr>) (w\<lparr>rw_pattern := pattern\<rparr>))"

definition ServeHTTP :: "http_ext \<Rightarrow> redis_ext \<Rightarrow> ext \<Rightarrow> RouterConfig \<Rightarrow> 'z handler" where
  "ServeHTTP H R E cfg =
     metricsMiddleware E
       (if rc_CORSAllowedOrigin cfg \<noteq> '''' then corsMiddleware (rc_CORSAllowedOrigin cfg) (route H R E cfg)
        else route H R E cfg)"

end
