(* ===== verification/Api_Contract.thy ===== *)
theory Api_Contract
  imports Router
begin

text \<open>
  What every handler of the API promises, and that the middleware passes the promise on.

  \<open>redis_frame\<close> extends \<open>frame\<close> by the commands sent to Redis and the metrics of the limiter, so what the services leave alone the
  handlers leave alone. \<open>http_handler\<close> is the contract of a handler: it gives a response with the status it recorded, makes at most one change to the
  tables, and sends nothing to Kafka. It is interpreted on the handler \<^verbatim>\<open>NewRouter\<close> builds.
\<close>

section \<open>Bodies of requests\<close>

lemma decode_first_all: "decode_all s = Some v \<Longrightarrow> decode_first s = Some v"
  by (auto simp: decode_all_def decode_first_def split: option.splits if_splits)

text \<open>The members of an object of plain values, written by a client with an encoder like Go's.\<close>

definition plain_members :: "(string \<times> json) list \<Rightarrow> bool" where
  "plain_members fs \<longleftrightarrow>
     (\<forall>(k, v) \<in> set fs. list_all is_ascii k \<and>
        (case v of JStr s \<Rightarrow> list_all is_ascii s | JNum lit \<Rightarrow> (\<exists>i. lit = Itoa i) | _ \<Rightarrow> False))"

lemma body_members_Marshal:
  assumes "plain_members fs"
  shows "body_members (Marshal (JObj fs)) = Some fs"
proof -
  have member: "wf_json v \<and> json_depth v = 0 \<and> coerce_utf8 k = k \<and> coerce_json v = v" if "(k, v) \<in> set fs" for k v
  proof -
    from assms that have "list_all is_ascii k"
      "case v of JStr s \<Rightarrow> list_all is_ascii s | JNum lit \<Rightarrow> (\<exists>i. lit = Itoa i) | _ \<Rightarrow> False"
      by (auto simp: plain_members_def)
    then show ?thesis by (cases v) (auto simp: wf_Itoa [unfolded wf_json.simps])
  qed
  have "foldr max (map (\<lambda>(k, v). json_depth v) gs) 0 = 0" if "set gs \<subseteq> set fs" for gs
    using that by (induction gs) (auto simp: member)
  moreover have "map coerce_member gs = gs" if "set gs \<subseteq> set fs" for gs
    using that by (induction gs) (auto simp: member)
  ultimately have "decode_all (Marshal (JObj fs)) = Some (JObj fs)"
    using decode_Marshal [of "JObj fs"] member by (fastforce simp: max_nesting_def)
  then show ?thesis by (simp add: body_members_def decode_first_all struct_members_def)
qed

lemma request_ascii:
  "list_all is_ascii ''email''" "list_all is_ascii ''password''" "list_all is_ascii ''role''"
  by (simp_all add: is_ascii_def)

lemma request_names [simp]:
  "is_field ''email'' ''email''" "\<not> is_field ''email'' ''password''" "\<not> is_field ''email'' ''role''"
  "\<not> is_field ''password'' ''email''" "is_field ''password'' ''password''" "\<not> is_field ''password'' ''role''"
  "\<not> is_field ''role'' ''email''" "\<not> is_field ''role'' ''password''" "is_field ''role'' ''role''"
  "is_field ''amount_cents'' ''amount_cents''" "\<not> is_field ''amount_cents'' ''currency''" "\<not> is_field ''amount_cents'' ''description''"
  "\<not> is_field ''currency'' ''amount_cents''" "is_field ''currency'' ''currency''" "\<not> is_field ''currency'' ''description''"
  "\<not> is_field ''description'' ''amount_cents''" "\<not> is_field ''description'' ''currency''" "is_field ''description'' ''description''"
  by (simp_all only: is_field_ascii payload_ascii request_ascii) (simp_all add: ascii_upper_def)

lemma Decode_createOrder_Marshal:
  assumes "- (2 ^ 63) \<le> a" and "a < 2 ^ 63" and "list_all is_ascii c" and "list_all is_ascii d"
  shows "Decode_createOrderRequest (Marshal (createOrder_body a c d)) =
    Some \<lparr>cor_req_AmountCents = a, cor_req_Currency = c, cor_req_Description = d\<rparr>"
proof -
  have "plain_members [(''amount_cents'', JNum (Itoa a)), (''currency'', JStr c), (''description'', JStr d)]"
    using assms payload_ascii by (auto simp: plain_members_def)
  from body_members_Marshal [OF this] parse_int64_Itoa [of a] assms show ?thesis
    by (simp add: Decode_createOrderRequest_def createOrder_body_def)
qed

section \<open>Frames\<close>

definition limiter_metrics :: "string set" where
  "limiter_metrics = {''order_service_rate_limit_blocked_total'', ''order_service_rate_limit_allowed_total''}"

lemma limiter_metrics_mem [simp]:
  "''order_service_rate_limit_blocked_total'' \<in> limiter_metrics" "''order_service_rate_limit_allowed_total'' \<in> limiter_metrics"
  by (simp_all add: limiter_metrics_def)

locale redis_frame = frame Q for Q :: "'z redis_world_scheme \<Rightarrow> 'z redis_world_scheme \<Rightarrow> bool" +
  assumes commands: "Q w (w\<lparr>w_redis_calls := k, w_redis := m\<rparr>)"
    and limits: "n \<in> limiter_metrics \<Longrightarrow> Q w (bump_metric n ls w)"
begin

lemma redis_do: "keeps Q (redis_do R q)"
proof (rule keepsI)
  fix w w' :: "'z redis_world_scheme" and r
  assume "redis_do R q w = (r, w')"
  then show "Q w w'"
  proof (cases rule: redis_do_cases)
    case (none e)
    with commands [where w = w and k = "Suc (w_redis_calls w)" and m = "w_redis w"] show ?thesis by simp
  qed (simp_all add: commands)
qed

lemma limiter_Inc: "n \<in> limiter_metrics \<Longrightarrow> keeps Q (Inc n ls)"
  by (rule keepsI) (auto simp: run_iff limits)

lemmas redis_rules = frame_rules redis_do limiter_Inc auth orders

lemma locks: "keeps Q (Acquire R E ttl k)" "keeps Q (Release R l)"
  unfolding Acquire_def Release_def by (intro redis_rules)+

lemma limiter: "keeps Q (Allow R E scope k l window)"
  unfolding Allow_def Let_def by (intro redis_rules)

lemma order_locks: "keeps Q (acquireOrderLock R E s w i)" "keeps Q (releaseOrderLock R lo)"
  unfolding acquireOrderLock_def releaseOrderLock_def by (intro redis_rules locks)+

lemma cookies: "keeps Q (setRefreshTokenCookie E s t x w)" "keeps Q (clearRefreshTokenCookie E s w)"
  unfolding setRefreshTokenCookie_def clearRefreshTokenCookie_def Let_def by (intro redis_rules)+

lemma handlers:
  "keeps Q (handleRegister E r w)" "keeps Q (handleLogin E s r w)" "keeps Q (handleRefresh E s r w)"
  "keeps Q (handleLogout E s r w)" "keeps Q (handleMe E r w)" "keeps Q (handleCreateOrder E r w)"
  "keeps Q (handleListOrders E r w)" "keeps Q (handleGetOrder E r w)" "keeps Q (handlePayOrder R E s r w)"
  "keeps Q (handleCancelOrder R E s r w)" "keeps Q (handleHealthz r w)" "keeps Q (handleReadyz R E r w)"
  unfolding handleRegister_def handleLogin_def handleRefresh_def handleLogout_def handleMe_def
    handleCreateOrder_def handleListOrders_def handleGetOrder_def handlePayOrder_def handleCancelOrder_def
    handleHealthz_def handleReadyz_def Let_def
  by (intro redis_rules order_locks cookies)+

lemma middleware:
  assumes "\<And>r w. keeps Q (h r w)"
  shows "keeps Q (requireAuth E s h r w)" and "keeps Q (rateLimitMiddleware b R E scope l h r w)"
    and "keeps Q (corsMiddleware origin h r w)"
  unfolding requireAuth_def rateLimitMiddleware_def corsMiddleware_def ParseAccessToken_def Let_def
  by (auto intro!: redis_rules assms limiter split: list.split)

lemma route: "keeps Q (route H R E cfg r w)"
proof -
  have "keeps Q (endpoint_handler H R E cfg e r w)" for e r w
    by (cases e) (auto intro!: handlers middleware redis_rules)
  then have "keeps Q (route_handler H R E cfg e r w)" for e r w
    by (auto simp: route_handler_def intro!: middleware)
  then show ?thesis by (auto simp: route_def intro!: redis_rules split: option.split)
qed

lemma serve:
  assumes "\<And>n ls w. n \<in> {''order_service_http_requests_total'', ''order_service_http_request_duration_seconds''} \<Longrightarrow>
    Q w (bump_metric n ls w)"
  shows "keeps Q (ServeHTTP H R E cfg r w)"
proof -
  have inc: "keeps Q (Inc n ls)" if "n \<in> {''order_service_http_requests_total'', ''order_service_http_request_duration_seconds''}" for n ls
    using assms [OF that] by (auto intro!: keepsI simp: run_iff)
  have inner: "keeps Q ((if b then corsMiddleware origin (route H R E cfg) else route H R E cfg) r w)" for b origin w
    by (simp add: middleware(3) route)
  show ?thesis
    unfolding ServeHTTP_def metricsMiddleware_def Let_def
    by (intro redis_rules inner inc) simp_all
qed

end

interpretation http_log: redis_frame same_log
  by unfold_locales (simp_all add: same_log_def)

definition same_http_metric :: "string \<Rightarrow> 'z redis_world_scheme \<Rightarrow> 'z redis_world_scheme \<Rightarrow> bool" where
  "same_http_metric n w w' \<longleftrightarrow> n \<in> service_metrics \<union> limiter_metrics \<or> w_metrics w' n = w_metrics w n"

interpretation http_metric: redis_frame "same_http_metric n" for n
  by unfold_locales (auto simp: same_http_metric_def bump_metric_def)

section \<open>At most one change\<close>

lemma same_db_redis [keeps_rules]: "keeps same_db (redis_do R q)"
  by (rule keepsI) (auto simp: same_db_def dest: redis_do_frame(1))

lemma same_db_locks [keeps_rules]:
  "keeps same_db (Acquire R E ttl k)" "keeps same_db (Release R l)" "keeps same_db (Allow R E scope k lim window)"
  unfolding Acquire_def Release_def Allow_def Let_def by (intro keeps_rules same_db_rules)+

lemma same_db_cases [keeps_rules]:
  "(\<And>x. keeps same_db (f x)) \<Longrightarrow> (\<And>y. keeps same_db (g y)) \<Longrightarrow> keeps same_db (case v of Inl x \<Rightarrow> f x | Inr y \<Rightarrow> g y)"
  "keeps same_db m \<Longrightarrow> (\<And>x. keeps same_db (h x)) \<Longrightarrow> keeps same_db (case u of None \<Rightarrow> m | Some x \<Rightarrow> h x)"
  by (simp_all split: sum.split option.split)

lemma same_db_order_locks [keeps_rules]:
  "keeps same_db (acquireOrderLock R E s w i)" "keeps same_db (releaseOrderLock R lo)"
  "keeps same_db (setRefreshTokenCookie E s t x w)" "keeps same_db (clearRefreshTokenCookie E s w)"
  unfolding acquireOrderLock_def releaseOrderLock_def setRefreshTokenCookie_def clearRefreshTokenCookie_def Let_def
  by (intro keeps_rules same_db_rules)+

lemma same_db_handlers:
  "keeps same_db (handleRefresh E s r w)" "keeps same_db (handleMe E r w)" "keeps same_db (handleListOrders E r w)"
  "keeps same_db (handleGetOrder E r w)" "keeps same_db (handleHealthz r w)" "keeps same_db (handleReadyz R E r w)"
  unfolding handleRefresh_def handleMe_def handleListOrders_def handleGetOrder_def handleHealthz_def handleReadyz_def
    auth_GetUser_def Let_def
  by (intro keeps_rules same_db_rules RefreshAccessToken_refines reads_same_db keeps_exec_same_db;
      simp add: sql_Ping_def)+

lemma db_step_cases:
  "(\<And>x. keeps (db_step P) (f x)) \<Longrightarrow> (\<And>y. keeps (db_step P) (g y)) \<Longrightarrow>
    keeps (db_step P) (case v of Inl x \<Rightarrow> f x | Inr y \<Rightarrow> g y)"
  "keeps (db_step P) m \<Longrightarrow> (\<And>x. keeps (db_step P) (h x)) \<Longrightarrow> keeps (db_step P) (case u of None \<Rightarrow> m | Some x \<Rightarrow> h x)"
  by (simp_all split: sum.split option.split)

lemma db_step_return: "keeps (db_step P) (returnM x)"
  by (rule same_db_db_step) (rule keeps_returnM [OF reflp_same_db])

lemma one_change:
  assumes "uuid_laws E"
  shows "keeps (db_step (db_change E)) (handleRegister E r w)"
    and "keeps (db_step (db_change E)) (handleLogin E s r w)"
    and "keeps (db_step (db_change E)) (handleLogout E s r w)"
    and "keeps (db_step (db_change E)) (handleCreateOrder E r w)"
    and "keeps (db_step (db_change E)) (handlePayOrder R E s r w)"
    and "keeps (db_step (db_change E)) (handleCancelOrder R E s r w)"
proof -
  note step = db_change_intros(1) [OF CreateOrder_refines [OF assms]] db_change_intros(1) [OF PayOrder_refines [OF assms]]
    db_change_intros(1) [OF CancelOrder_refines [OF assms]] db_change_intros(2) [OF RegisterUser_refines]
    db_change_intros(2) [OF Login_refines] db_change_intros(2) [OF Logout_refines]
  note once = db_step_before_reads [OF keeps_tryM [OF step(1)]] db_step_before_reads [OF keeps_tryM [OF step(2)]]
    db_step_before_reads [OF keeps_tryM [OF step(3)]] db_step_before_reads [OF keeps_tryM [OF step(4)]]
    db_step_before_reads [OF keeps_tryM [OF step(5)]] db_step_before_reads [OF keeps_tryM [OF step(6)]]
  have clear: "keeps (db_step P) (bindM (clearRefreshTokenCookie E s w) (\<lambda>w1. returnM (f w1)))" for P f
    by (rule same_db_db_step) (intro keeps_rules same_db_rules)
  have lock: "keeps (db_step P) (bindM (acquireOrderLock R E s w i) f)" if "\<And>x. keeps (db_step P) (f x)" for P i f
    using that by (intro db_step_after_reads [OF same_db_order_locks(1)])
  show "keeps (db_step (db_change E)) (handleRegister E r w)" "keeps (db_step (db_change E)) (handleLogin E s r w)"
    "keeps (db_step (db_change E)) (handleLogout E s r w)" "keeps (db_step (db_change E)) (handleCreateOrder E r w)"
    "keeps (db_step (db_change E)) (handlePayOrder R E s r w)" "keeps (db_step (db_change E)) (handleCancelOrder R E s r w)"
    unfolding handleRegister_def handleLogin_def handleLogout_def handleCreateOrder_def handlePayOrder_def
      handleCancelOrder_def Let_def
    by (intro db_step_cases db_step_return keeps_if clear lock once keeps_rules same_db_rules)+
qed

section \<open>Responses\<close>

text \<open>\<open>gives P m\<close>: the computation never fails, and its value satisfies \<open>P\<close>.\<close>

definition gives :: "('a \<Rightarrow> bool) \<Rightarrow> ('s, 'a) comp \<Rightarrow> bool" where
  "gives P m \<longleftrightarrow> (\<forall>s. \<exists>x s'. m s = (Inr x, s') \<and> P x)"

lemma givesD: "gives P m \<Longrightarrow> m s = (v, s') \<Longrightarrow> \<exists>x. v = Inr x \<and> P x"
  by (metis gives_def prod.inject)

lemma gives_bindM:
  assumes "gives P m" and "\<And>x. P x \<Longrightarrow> gives R (f x)"
  shows "gives R (bindM m f)"
  unfolding gives_def
proof
  fix s
  obtain x s1 where "m s = (Inr x, s1)" "P x" using assms(1) unfolding gives_def by blast
  with assms(2) show "\<exists>y s'. bindM m f s = (Inr y, s') \<and> R y" by (auto simp: gives_def run_forward)
qed

lemma gives_basics:
  "P x \<Longrightarrow> gives P (returnM x)" "gives (\<lambda>_. True) (tryM m)" "gives (\<lambda>_. True) (Inc n ls)" "gives (\<lambda>_. True) (Now E)"
  "gives (\<lambda>_. True) (getsM g)"
  by (auto simp: gives_def comp_defs Inc_def Now_def split: prod.split)

text \<open>
  \<open>starting\<close>: nothing has been sent. \<open>recorded\<close>: something has, and the recorder knows the status.
\<close>

definition starting :: "statusRecorder \<Rightarrow> bool" where
  "starting w \<longleftrightarrow> rw_status w = None \<and> sr_statusCode w = StatusOK"

definition recorded :: "statusRecorder \<Rightarrow> bool" where
  "recorded w \<longleftrightarrow> rw_status w = Some (sr_statusCode w)"

lemma starting_simps [simp]:
  "starting (header_Set k v w) = starting w" "starting (SetCookie c w) = starting w"
  "starting (w\<lparr>rw_pattern := p\<rparr>) = starting w" "starting (cors_headers origin w) = starting w"
  by (auto simp: starting_def header_Set_def SetCookie_def cors_headers_def)

lemma recorded_simps [simp]:
  "starting w \<Longrightarrow> recorded (writeJSON c v w)" "starting w \<Longrightarrow> recorded (writeJSONError c msg w)"
  "starting w \<Longrightarrow> recorded (WriteHeader c w)" "starting w \<Longrightarrow> recorded (Write b (WriteHeader c w))"
  "starting w \<Longrightarrow> recorded (http_Error msg c w)"
  by (auto simp: starting_def recorded_def writeJSONError_def http_Error_def WriteHeader_def Write_def header_Set_def)

lemma recorded_if: "(b \<Longrightarrow> recorded x) \<Longrightarrow> (\<not> b \<Longrightarrow> recorded y) \<Longrightarrow> recorded (if b then x else y)"
  by simp

lemma gives_cases:
  "(\<And>x. v = Inl x \<Longrightarrow> gives P (f x)) \<Longrightarrow> (\<And>y. v = Inr y \<Longrightarrow> gives P (g y)) \<Longrightarrow> gives P (case v of Inl x \<Rightarrow> f x | Inr y \<Rightarrow> g y)"
  "gives P m \<Longrightarrow> (\<And>x. u = Some x \<Longrightarrow> gives P (h x)) \<Longrightarrow> gives P (case u of None \<Rightarrow> m | Some x \<Rightarrow> h x)"
  "gives P m \<Longrightarrow> gives P n \<Longrightarrow> gives P (if b then m else n)"
  by (simp_all split: sum.split option.split)

lemmas gives_try = gives_bindM [OF gives_basics(2)]

lemma gives_cookies:
  assumes "starting w"
  shows "gives starting (setRefreshTokenCookie E s t x w)" and "gives starting (clearRefreshTokenCookie E s w)"
  using assms unfolding setRefreshTokenCookie_def clearRefreshTokenCookie_def Let_def
  by (auto intro!: gives_bindM [OF gives_basics(4)] gives_basics(1))

lemma gives_locks:
  assumes "starting w"
  shows "gives (\<lambda>l. \<forall>w1. l = Inl w1 \<longrightarrow> recorded w1) (acquireOrderLock R E s w i)" and "gives (\<lambda>_. True) (releaseOrderLock R lo)"
  using assms unfolding acquireOrderLock_def releaseOrderLock_def
  by (auto intro!: gives_try gives_cases gives_basics(1))

lemma recorded_errors:
  "starting w \<Longrightarrow> recorded (payOrder_error e w)" "starting w \<Longrightarrow> recorded (cancelOrder_error e w)"
  by (simp_all add: payOrder_error_def cancelOrder_error_def)

lemma handlers_answer:
  assumes "starting w"
  shows "gives recorded (handleRegister E r w)" "gives recorded (handleLogin E s r w)"
    "gives recorded (handleRefresh E s r w)" "gives recorded (handleLogout E s r w)" "gives recorded (handleMe E r w)"
    "gives recorded (handleCreateOrder E r w)" "gives recorded (handleListOrders E r w)"
    "gives recorded (handleGetOrder E r w)" "gives recorded (handleHealthz r w)" "gives recorded (handleReadyz R E r w)"
  using assms
  unfolding handleRegister_def handleLogin_def handleRefresh_def handleLogout_def handleMe_def handleCreateOrder_def
    handleListOrders_def handleGetOrder_def handleHealthz_def handleReadyz_def Let_def
  by (auto intro!: gives_try gives_cases gives_basics(1) gives_bindM [OF gives_cookies(1)] gives_bindM [OF gives_cookies(2)])

lemma locked_handlers_answer:
  assumes "starting w"
  shows "gives recorded (handlePayOrder R E s r w)" and "gives recorded (handleCancelOrder R E s r w)"
  unfolding handlePayOrder_def handleCancelOrder_def Let_def
  by (auto intro!: gives_try gives_cases gives_basics(1) gives_bindM [OF gives_locks(1)] gives_bindM [OF gives_locks(2) [of w]]
      recorded_errors assms recorded_simps split: sum.split)

section \<open>The contract of a handler\<close>

locale http_handler =
  fixes E :: ext and laws :: bool and h :: "'z handler"
  assumes answers: "laws \<Longrightarrow> starting w \<Longrightarrow> gives recorded (h r w)"
    and effect: "uuid_laws E \<Longrightarrow> keeps (db_step (db_change E)) (h r w)"
    and no_message: "keeps same_log (h r w)"
begin

lemma authenticated: "http_handler E laws (requireAuth E s h)"
proof
  show "gives recorded (requireAuth E s h r w)" if laws "starting w" for r w
    using that unfolding requireAuth_def Let_def
    by (auto intro!: gives_try gives_cases gives_basics(1) answers split: list.split)
  show "keeps (db_step (db_change E)) (requireAuth E s h r w)" if "uuid_laws E" for r w
  proof -
    have parse: "keeps same_db (tryM (ParseAccessToken E m t))" for m t
      unfolding ParseAccessToken_def by (auto intro!: keeps_rules same_db_rules split: option.split)
    show ?thesis unfolding requireAuth_def Let_def
      by (auto intro!: db_step_after_reads [OF parse] db_step_cases db_step_return effect that split: list.split)
  qed
  show "keeps same_log (requireAuth E s h r w)" for r w by (rule http_log.middleware(1)) (rule no_message)
qed

lemma limited: "http_handler E laws (rateLimitMiddleware b R E scope l h)"
proof
  show "gives recorded (rateLimitMiddleware b R E scope l h r w)" if laws "starting w" for r w
    using that unfolding rateLimitMiddleware_def Let_def
    by (auto intro!: gives_try gives_cases gives_bindM [OF gives_basics(3)] gives_basics(1) answers)
  show "keeps (db_step (db_change E)) (rateLimitMiddleware b R E scope l h r w)" if "uuid_laws E" for r w
    unfolding rateLimitMiddleware_def Let_def
    by (intro keeps_if effect that db_step_after_reads [OF keeps_tryM] db_step_after_reads [OF keeps_Inc] db_step_cases
        db_step_return same_db_locks)
  show "keeps same_log (rateLimitMiddleware b R E scope l h r w)" for r w
    by (rule http_log.middleware(2)) (rule no_message)
qed

lemma cors: "http_handler E laws (corsMiddleware origin h)"
proof
  show "gives recorded (corsMiddleware origin h r w)" if laws "starting w" for r w
    using that unfolding corsMiddleware_def Let_def by (auto intro!: gives_cases gives_basics(1) answers)
  show "keeps (db_step (db_change E)) (corsMiddleware origin h r w)" if "uuid_laws E" for r w
    unfolding corsMiddleware_def Let_def by (intro keeps_if db_step_return effect that)
  show "keeps same_log (corsMiddleware origin h r w)" for r w by (rule http_log.middleware(3)) (rule no_message)
qed

lemma measured: "http_handler E laws (metricsMiddleware E h)"
proof
  have begun: "starting (w\<lparr>sr_statusCode := StatusOK\<rparr>)" if "starting w" for w using that by (simp add: starting_def)
  show "gives recorded (metricsMiddleware E h r w)" if laws "starting w" for r w
    unfolding metricsMiddleware_def Let_def
    by (auto intro!: gives_bindM [OF gives_basics(4)] gives_bindM [OF answers [OF that(1) begun [OF that(2)]]]
        gives_bindM [OF gives_basics(3)] gives_basics(1))
  show "keeps (db_step (db_change E)) (metricsMiddleware E h r w)" if "uuid_laws E" for r w
    unfolding metricsMiddleware_def Let_def
    by (intro db_step_after_reads [OF keeps_Now] db_step_before_reads effect that keeps_rules same_db_rules)
  have inc: "keeps same_log (Inc n ls)" for n ls
    by (rule keepsI) (auto simp: same_log_def run_iff)
  show "keeps same_log (metricsMiddleware E h r w)" for r w
    unfolding metricsMiddleware_def Let_def by (intro log.frame_rules no_message inc)
qed

end

text \<open>What the libraries around the handlers do: they answer.\<close>

definition http_laws :: "http_ext \<Rightarrow> bool" where
  "http_laws H \<longleftrightarrow> (\<forall>m p w. starting w \<longrightarrow> recorded (chi_Unmatched H m p w)) \<and>
     (\<forall>c r w. starting w \<longrightarrow> recorded (prom_Handler H c r w))"

lemma plain_handlers:
  "http_handler E (http_laws H) (handleRegister E)" "http_handler E (http_laws H) (handleLogin E s)"
  "http_handler E (http_laws H) (handleRefresh E s)" "http_handler E (http_laws H) (handleLogout E s)"
  "http_handler E (http_laws H) (handleMe E)" "http_handler E (http_laws H) (handleCreateOrder E)"
  "http_handler E (http_laws H) (handleListOrders E)" "http_handler E (http_laws H) (handleGetOrder E)"
  "http_handler E (http_laws H) (handlePayOrder R E s)" "http_handler E (http_laws H) (handleCancelOrder R E s)"
  "http_handler E (http_laws H) handleHealthz" "http_handler E (http_laws H) (handleReadyz R E)"
  by (unfold_locales; intro handlers_answer locked_handlers_answer http_log.handlers one_change
      same_db_db_step same_db_handlers; assumption)+

lemma endpoint_contract: "http_handler E (http_laws H) (endpoint_handler H R E cfg e)"
proof (cases e)
  case Metrics
  show ?thesis unfolding Metrics endpoint_handler.simps
  proof
    show "gives recorded (bindM (getsM w_metrics) (\<lambda>m. returnM (prom_Handler H m r w)))"
      if "http_laws H" "starting w" for r w
      using that by (auto simp: http_laws_def intro!: gives_bindM [OF gives_basics(5)] gives_basics(1))
  qed (intro same_db_db_step keeps_rules same_db_rules log.frame_rules)+
qed (simp_all add: plain_handlers http_handler.limited http_handler.authenticated)

lemma route_contract: "http_handler E (http_laws H) (route H R E cfg)"
proof -
  have handler: "http_handler E (http_laws H) (route_handler H R E cfg e)" for e
    by (simp add: route_handler_def endpoint_contract http_handler.limited)
  show ?thesis
  proof
    show "gives recorded (route H R E cfg r w)" if "http_laws H" "starting w" for r w
    proof (cases "chi_Match H routes (req_Method r) (req_URL r)")
      case None
      with that show ?thesis by (auto simp: route_def http_laws_def req_URL_def intro!: gives_basics(1))
    next
      case (Some m)
      then show ?thesis
        using that by (cases m) (auto simp: route_def intro!: http_handler.answers [OF handler])
    qed
    show "keeps (db_step (db_change E)) (route H R E cfg r w)" if "uuid_laws E" for r w
      using http_handler.effect [OF handler that] by (auto simp: route_def intro!: db_step_return split: option.split)
    show "keeps same_log (route H R E cfg r w)" for r w by (rule http_log.route)
  qed
qed

interpretation api: http_handler E "http_laws H" "ServeHTTP H R E cfg" for E H R cfg
  unfolding ServeHTTP_def
  by (simp add: http_handler.measured [OF route_contract] http_handler.measured [OF http_handler.cors [OF route_contract]])

end
