(* ===== verification/Example.thy ===== *)
theory Example
  imports System
begin

text \<open>
  A concrete environment, on which the hypotheses of the theorems hold and the operations
  can be run: UUIDs printed and read as the libraries do (32 hexadecimal digits, with or
  without dashes), a database and a broker that never fail, clocks that count the calls.
  The cryptographic functions are transparent stand-ins with the properties the laws state.
\<close>

section \<open>UUIDs as text\<close>

fun hex_of :: "nat \<Rightarrow> nat \<Rightarrow> string" where
  "hex_of 0 n = []"
| "hex_of (Suc k) n = hex_of k (n div 16) @ [hex_digit n]"

fun hex_to :: "nat \<Rightarrow> string \<Rightarrow> nat option" where
  "hex_to v [] = Some v"
| "hex_to v (c # s) = (case hex_value c of None \<Rightarrow> None | Some d \<Rightarrow> hex_to (16 * v + d) s)"

definition dashed :: "string \<Rightarrow> string" where
  "dashed s = take 8 s @ ''-'' @ take 4 (drop 8 s) @ ''-'' @ take 4 (drop 12 s) @ ''-'' @
     take 4 (drop 16 s) @ ''-'' @ drop 20 s"

definition undashed :: "string \<Rightarrow> string" where
  "undashed s = take 8 s @ take 4 (drop 9 s) @ take 4 (drop 14 s) @ take 4 (drop 19 s) @ drop 24 s"

definition uuid_text :: "uuid \<Rightarrow> string" where
  "uuid_text u = dashed (hex_of 32 (unat u))"

definition uuid_read :: "string \<Rightarrow> uuid option" where
  "uuid_read s =
     (if length s = 36 then map_option of_nat (hex_to 0 (undashed s))
      else if length s = 32 then map_option of_nat (hex_to 0 s)
      else None)"

lemma length_hex_of [simp]: "length (hex_of k n) = k"
  by (induction k arbitrary: n) auto

lemma hex_to_append: "hex_to v (s @ t) = (case hex_to v s of None \<Rightarrow> None | Some v' \<Rightarrow> hex_to v' t)"
  by (induction s arbitrary: v) (auto split: option.splits)

lemma hex_to_hex_of: "hex_to v (hex_of k n) = Some (v * 16 ^ k + n mod 16 ^ k)"
proof (induction k arbitrary: n)
  case (Suc k)
  have "n mod 16 ^ Suc k = 16 * (n div 16 mod 16 ^ k) + n mod 16"
    by (simp add: mod_mult2_eq)
  with Suc show ?case by (simp add: hex_to_append hex_value_digit algebra_simps)
qed simp

lemma undashed_parts:
  "length a = 8 \<Longrightarrow> length b = 4 \<Longrightarrow> length c = 4 \<Longrightarrow> length d = 4 \<Longrightarrow>
    undashed (a @ ''-'' @ b @ ''-'' @ c @ ''-'' @ d @ ''-'' @ e) = a @ b @ c @ d @ e"
  by (simp add: undashed_def)

lemma undashed_dashed:
  assumes "length s = 32"
  shows "undashed (dashed s) = s"
proof -
  have "undashed (dashed s) =
      take 8 s @ take 4 (drop 8 s) @ take 4 (drop 12 s) @ take 4 (drop 16 s) @ drop 20 s"
    unfolding dashed_def by (rule undashed_parts) (use assms in simp_all)
  also have "\<dots> = s"
    using append_take_drop_id [of 8 s] append_take_drop_id [of 4 "drop 8 s"]
      append_take_drop_id [of 4 "drop 12 s"] append_take_drop_id [of 4 "drop 16 s"] by simp
  finally show ?thesis .
qed

lemma uuid_read_text [simp]: "uuid_read (uuid_text u) = Some u"
proof -
  have "length (uuid_text u) = 36" by (simp add: uuid_text_def dashed_def)
  moreover have "undashed (uuid_text u) = hex_of 32 (unat u)"
    unfolding uuid_text_def by (rule undashed_dashed) simp
  moreover have "unat u < 16 ^ 32" using unsigned_less [of u] by simp
  ultimately show ?thesis by (simp add: uuid_read_def hex_to_hex_of)
qed

section \<open>The environment\<close>

definition ex_new :: "nat \<Rightarrow> string" where
  "ex_new n = uuid_text (of_nat (Suc n))"

definition ex_parse :: "string \<Rightarrow> bool" where
  "ex_parse s \<longleftrightarrow> uuid_read s \<noteq> None"

definition ex_fault :: "nat \<Rightarrow> fault" where
  "ex_fault n = NoFault"

definition ex_locked :: "nat \<Rightarrow> uuid \<Rightarrow> bool" where
  "ex_locked n u = False"

definition ex_rand :: "nat \<Rightarrow> error + string" where
  "ex_rand n = Inr (replicate 32 (char_of n))"

definition ex_generate :: "nat \<Rightarrow> string \<Rightarrow> error + string" where
  "ex_generate n p = Inr (CHR ''$'' # p)"

definition ex_compare :: "string \<Rightarrow> string \<Rightarrow> bool" where
  "ex_compare h p \<longleftrightarrow> h = CHR ''$'' # p"

text \<open>
  A token is the key followed by the claims, each ended by a dot; the signature verifies if the
  key is the one in front.
\<close>

fun ex_field :: "string \<Rightarrow> string" where
  "ex_field [] = ''.''"
| "ex_field (c # s) = CHR '':'' # c # ex_field s"

fun ex_next :: "string \<Rightarrow> (string \<times> string) option" where
  "ex_next (c # d # s) =
     (if c = CHR ''.'' then Some ([], d # s) else map_option (map_prod ((#) d) id) (ex_next s))"
| "ex_next [c] = (if c = CHR ''.'' then Some ([], []) else None)"
| "ex_next [] = None"

fun ex_split :: "nat \<Rightarrow> string \<Rightarrow> string list" where
  "ex_split 0 t = []"
| "ex_split (Suc n) t = (case ex_next t of None \<Rightarrow> [] | Some (f, t') \<Rightarrow> f # ex_split n t')"

definition ex_date :: "time \<Rightarrow> string" where
  "ex_date t = (if t < 0 then CHR ''-'' else CHR ''+'') # replicate (nat \<bar>t\<bar>) CHR ''1''"

definition ex_undate :: "string \<Rightarrow> time" where
  "ex_undate s = (if s = [] then 0 else if hd s = CHR ''-'' then - int (length (tl s)) else int (length (tl s)))"

definition ex_sign :: "string \<Rightarrow> Claims \<Rightarrow> error + string" where
  "ex_sign k c = Inr (concat (map ex_field [k, Claims_UserID c, Claims_Email c, Claims_Role c,
     Claims_Subject c, ex_date (Claims_IssuedAt c), ex_date (Claims_ExpiresAt c)]))"

definition ex_unverified :: "string \<Rightarrow> (string \<times> Claims) option" where
  "ex_unverified t =
     (case ex_split 7 t of
        [k, u, e, r, s, i, x] \<Rightarrow> Some (''HS256'', \<lparr>Claims_UserID = u, Claims_Email = e, Claims_Role = r,
          Claims_Subject = s, Claims_IssuedAt = ex_undate i, Claims_ExpiresAt = ex_undate x\<rparr>)
      | _ \<Rightarrow> None)"

definition ex_verify :: "string \<Rightarrow> string \<Rightarrow> string \<Rightarrow> bool" where
  "ex_verify alg k t \<longleftrightarrow> alg = ''HS256'' \<and> ex_split 1 t = [k]"

lemma ex_next_field [simp]: "ex_next (ex_field s @ t) = Some (s, t)"
proof (induction s)
  case Nil
  then show ?case by (cases t) simp_all
qed simp

lemma ex_next_last [simp]: "ex_next (ex_field s) = Some (s, [])"
  using ex_next_field [of s "[]"] by simp

lemma ex_undate_date [simp]: "ex_undate (ex_date t) = t"
  by (simp add: ex_undate_def ex_date_def)

definition ex_validate :: "time \<Rightarrow> Claims \<Rightarrow> bool" where
  "ex_validate now c \<longleftrightarrow> now < Claims_ExpiresAt c"

definition ex_produce :: "nat \<Rightarrow> produce_outcome" where
  "ex_produce n = Delivered"

definition ex_ext :: ext where
  "ex_ext = \<lparr>uuid_Scan = uuid_read, uuid_String = uuid_text, uuid_Parse = ex_parse, uuid_New = ex_new,
     sql_fault = ex_fault, db_now = int, skip_locked = ex_locked, pg_timestamp = id, jsonb = id,
     time_MarshalJSON = Itoa, time_Now = int, unicode_lower = id, unicode_upper = id,
     sha256_Sum256 = id, rand_Read = ex_rand, bcrypt_Generate = ex_generate,
     bcrypt_Compare = ex_compare, jwt_NumericDate = id, jwt_Sign = ex_sign,
     jwt_Unverified = ex_unverified, jwt_Verify = ex_verify, jwt_Validate = ex_validate,
     kafka_Produce = ex_produce\<rparr>"

lemmas ex_defs = ex_new_def ex_parse_def ex_fault_def ex_locked_def ex_rand_def ex_generate_def
  ex_compare_def ex_sign_def ex_unverified_def ex_verify_def ex_validate_def ex_produce_def ex_ext_def

lemma ex_laws [simp]: "uuid_laws ex_ext" "driver_laws ex_ext" "ext_laws ex_ext" "all_well ex_ext" "bcrypt_laws ex_ext"
  by (simp_all add: ex_defs uuid_laws_def driver_laws_def fault_errors_def ext_laws_def all_well_def
      bcrypt_laws_def) (simp_all add: uuid_read_def)

lemma ex_jwt_laws [simp]: "jwt_laws ex_ext"
  by (auto simp: jwt_laws_def ex_defs numeral_eq_Suc)

definition ex_init :: world where
  "ex_init = \<lparr>w_db = empty_db, w_tx = None, w_stmt = 0, w_uuid = 0, w_clock = 0, w_rand = 0,
     w_produce = 0, w_log = [], w_metrics = (\<lambda>_ _. 0)\<rparr>"

definition ex_cfg :: publisher_Config where
  "ex_cfg = \<lparr>pub_Topic = ''order.events'', pub_BatchSize = 50, pub_PollInterval = 2000000000\<rparr>"

lemma ex_sel [simp]:
  "uuid_Scan ex_ext = uuid_read" "uuid_String ex_ext = uuid_text" "sql_fault ex_ext n = NoFault"
  "uuid_New ex_ext n = uuid_text (of_nat (Suc n))" "db_now ex_ext n = int n" "skip_locked ex_ext n u = False"
  "pg_timestamp ex_ext t = t" "jsonb ex_ext v = v" "time_Now ex_ext n = int n"
  "bcrypt_Generate ex_ext n p = Inr (CHR ''$'' # p)" "bcrypt_Compare ex_ext h p = (h = CHR ''$'' # p)"
  "sha256_Sum256 ex_ext = id" "kafka_Produce ex_ext n = Delivered" "unicode_upper ex_ext = id"
  "jwt_Sign ex_ext k c = Inr (projr (ex_sign k c))" "jwt_NumericDate ex_ext t = t"
  "rand_Read ex_ext n = Inr (replicate 32 (char_of n))"
  by (simp_all add: ex_defs)

section \<open>A run\<close>

text \<open>A user registers, creates an order, pays it, and the events are published.\<close>

definition ex_register :: RegisterUserParams where
  "ex_register = \<lparr>rup_Email = '' Ann@Example.com '', rup_Password = ''secret'', rup_Role = ''''\<rparr>"

definition ex_ann :: User where
  "ex_ann = \<lparr>User_ID = 1, User_Email = ''ann@example.com'', User_PasswordHash = ''$secret'',
     User_Role = ''customer'', User_CreatedAt = 0, User_UpdatedAt = 0\<rparr>"

text \<open>
  Running a sequence: the first part is evaluated before the rest is looked at.
\<close>

lemma bindM_first: "m = m' \<Longrightarrow> bindM m f = bindM m' f"
  by simp

lemma ex_email: "normal_email ex_ext '' Ann@Example.com '' = ''ann@example.com''"
  by code_simp

lemmas run_defs = bindM_def mapErrM_def returnM_def throwM_def tryM_def liftM_def NewString_def Now_def
  Inc_def modifyM_def bump_metric_def Scan_def exec_def stmt_time_def WithTx_def begin_tx_def
  commit_tx_def rollback_tx_def Let_def

lemma ex_register_run:
  "RegisterUser ex_ext ex_register ex_init =
     (Inr ex_ann, ex_init\<lparr>w_db := empty_db\<lparr>tbl_users := [ex_ann]\<rparr>, w_stmt := 1, w_uuid := 1, w_rand := 1\<rparr>)"
  by (simp add: RegisterUser_def ex_register_def ex_email run_defs HashPassword_def store_CreateUser_def
      ex_init_def empty_db_def user_check_def ex_ann_def cong: bindM_first)

definition ex_registered :: world where
  "ex_registered = snd (RegisterUser ex_ext ex_register ex_init)"

lemmas ex_registered_eq = ex_registered_def [unfolded ex_register_run snd_conv]

text \<open>The user logs in and out again.\<close>

definition ex_service :: AuthService where
  "ex_service = \<lparr>as_tokenManager = \<lparr>tm_secret = ''key'', tm_ttl = 900\<rparr>, as_refreshTokenTTL = 3600\<rparr>"

definition ex_credentials :: LoginParams where
  "ex_credentials = \<lparr>lp_Email = '' Ann@Example.com '', lp_Password = ''secret''\<rparr>"

definition ex_token :: string where
  "ex_token = RawURLEncoding (replicate 32 (char_of (1 :: nat)))"

definition ex_claims :: Claims where
  "ex_claims = \<lparr>Claims_UserID = uuid_text 1, Claims_Email = ''ann@example.com'', Claims_Role = ''customer'',
     Claims_Subject = uuid_text 1, Claims_IssuedAt = 0, Claims_ExpiresAt = 900\<rparr>"

definition ex_access :: string where
  "ex_access = projr (ex_sign ''key'' ex_claims)"

definition ex_session :: RefreshToken where
  "ex_session = \<lparr>RefreshToken_ID = 2, RefreshToken_UserID = 1,
     RefreshToken_TokenHash = HashRefreshToken ex_ext ex_token, RefreshToken_ExpiresAt = 3601,
     RefreshToken_RevokedAt = None, RefreshToken_CreatedAt = 2\<rparr>"

lemma ex_login_run:
  "Login ex_ext ex_service ex_credentials ex_registered =
     (Inr \<lparr>lr_User = ex_ann, lr_AccessToken = ex_access, lr_RefreshToken = ex_token,
        lr_RefreshTokenExpiresAt = 3601\<rparr>,
      ex_registered\<lparr>w_db := (w_db ex_registered)\<lparr>tbl_refresh_tokens := [ex_session]\<rparr>,
        w_stmt := 3, w_uuid := 2, w_clock := 2, w_rand := 2\<rparr>)"
  by (simp add: Login_def ex_service_def ex_credentials_def ex_email run_defs CheckPasswordHash_def
      GenerateAccessToken_def GenerateRefreshToken_def rand_bytes_def store_GetUserByEmail_def
      sql_GetUserByEmail_def store_CreateRefreshToken_def ex_registered_eq ex_init_def empty_db_def
      ex_ann_def ex_session_def ex_access_def ex_claims_def ex_token_def cong: bindM_first)

definition ex_logged_in :: world where
  "ex_logged_in = snd (Login ex_ext ex_service ex_credentials ex_registered)"

lemmas ex_logged_in_eq = ex_logged_in_def [unfolded ex_login_run snd_conv]

lemma RawURLEncoding_nonempty: "s \<noteq> [] \<Longrightarrow> RawURLEncoding s \<noteq> []"
  by (cases s rule: RawURLEncoding.cases) (simp_all add: Let_def)

lemma ex_token_nonempty: "ex_token \<noteq> []"
  unfolding ex_token_def by (rule RawURLEncoding_nonempty) simp

lemma ex_logout_run:
  "Logout ex_ext ex_token ex_logged_in =
     (Inr (), ex_logged_in\<lparr>w_db := (w_db ex_logged_in)\<lparr>tbl_refresh_tokens :=
        [ex_session\<lparr>RefreshToken_RevokedAt := Some 4\<rparr>]\<rparr>, w_stmt := 5\<rparr>)"
  by (simp add: Logout_def ex_token_nonempty run_defs store_GetRefreshTokenByHash_def
      sql_GetRefreshTokenByHash_def store_RevokeRefreshToken_def sql_RevokeRefreshToken_def
      ex_logged_in_eq ex_registered_eq ex_init_def empty_db_def ex_session_def update_where_def
      cong: bindM_first)

definition ex_create :: CreateOrderParams where
  "ex_create = \<lparr>cop_UserID = uuid_text 1, cop_IdempotencyKey = ''k1'', cop_Method = ''POST'',
     cop_Path = ''/orders'', cop_AmountCents = 1999, cop_Currency = ''usd'', cop_Description = ''book''\<rparr>"

definition ex_order :: Order where
  "ex_order = \<lparr>Order_ID = 2, Order_UserID = 1, Order_Status = OrderStatusPendingPayment,
     Order_AmountCents = 1999, Order_Currency = ''USD'', Order_Description = Some ''book'',
     Order_CreatedAt = 2, Order_UpdatedAt = 2\<rparr>"

definition ex_created_event :: OutboxEvent where
  "ex_created_event = \<lparr>OutboxEvent_ID = 3, OutboxEvent_AggregateType = AggregateTypeOrder,
     OutboxEvent_AggregateID = 2, OutboxEvent_EventType = EventTypeOrderCreated,
     OutboxEvent_Payload = orderCreatedEventPayload (uuid_text 2) (uuid_text 1)
       OrderStatusPendingPayment 1999 ''USD'' ''book'',
     OutboxEvent_PublishedAt = None, OutboxEvent_Attempt = 0, OutboxEvent_LastError = None,
     OutboxEvent_CreatedAt = 2, OutboxEvent_PartitionKey = 2\<rparr>"

definition ex_created_key :: IdempotencyKey where
  "ex_created_key = \<lparr>IdempotencyKey_ID = 4, IdempotencyKey_UserID = 1, IdempotencyKey_Key = ''k1'',
     IdempotencyKey_Method = ''POST'', IdempotencyKey_Path = ''/orders'',
     IdempotencyKey_RequestHash = HashRequestBody ex_ext (createOrder_body 1999 ''USD'' ''book''),
     IdempotencyKey_ResponseBody = json_Order ex_ext ex_order,
     IdempotencyKey_StatusCode = Some StatusCreated, IdempotencyKey_ResourceType = Some ''order'',
     IdempotencyKey_ResourceID = Some 2, IdempotencyKey_CreatedAt = 2\<rparr>"

lemma ex_texts:
  "TrimSpace ''k1'' = ''k1''" "TrimSpace (ToUpper id ''usd'') = ''USD''" "TrimSpace ''book'' = ''book''"
  "TrimSpace ''k2'' = ''k2''"
  by code_simp+

lemma uuid_text_nonempty [simp]: "uuid_text u \<noteq> []"
  using uuid_lawsD(3) [OF ex_laws(1)] by simp

lemma ex_create_run:
  "CreateOrder ex_ext ex_create ex_registered =
     (Inr \<lparr>cor_Order = ex_order, cor_StatusCode = StatusCreated, cor_Cached = False\<rparr>,
      bump_metric ''order_service_orders_created_total'' []
        (ex_registered\<lparr>w_db := add_created ex_order ex_created_event ex_created_key (w_db ex_registered),
          w_stmt := 7, w_uuid := 4\<rparr>))"
  by (simp add: CreateOrder_def ex_create_def ex_texts run_defs CreateOrder_tx_def store_defs
      sql_GetIdempotencyKey_def ex_registered_eq ex_init_def empty_db_def order_check_def
      outbox_check_def pg_Text_def pg_Int4_def ex_ann_def add_created_def ex_order_def ex_created_event_def
      ex_created_key_def cong: bindM_first)

definition ex_created :: world where
  "ex_created = snd (CreateOrder ex_ext ex_create ex_registered)"

lemmas ex_created_eq = ex_created_def [unfolded ex_create_run snd_conv]

definition ex_pay :: PayOrderParams where
  "ex_pay = \<lparr>pop_UserID = uuid_text 1, pop_Role = ''customer'', pop_OrderID = uuid_text 2,
     pop_IdempotencyKey = ''k2'', pop_Method = ''POST'', pop_Path = ''/pay''\<rparr>"

definition ex_payment :: Payment where
  "ex_payment = \<lparr>Payment_ID = 5, Payment_OrderID = 2, Payment_Status = PaymentStatusSucceeded,
     Payment_AmountCents = 1999, Payment_Provider = PaymentProviderMock,
     Payment_ProviderRef = Some (''mock_'' @ uuid_text 5), Payment_FailureReason = None,
     Payment_CreatedAt = 8, Payment_UpdatedAt = 8\<rparr>"

definition ex_paid_event :: OutboxEvent where
  "ex_paid_event = \<lparr>OutboxEvent_ID = 6, OutboxEvent_AggregateType = AggregateTypePayment,
     OutboxEvent_AggregateID = 5, OutboxEvent_EventType = EventTypePaymentSucceeded,
     OutboxEvent_Payload = paymentEventPayload (uuid_text 5) (uuid_text 2) (uuid_text 1)
       PaymentStatusSucceeded 1999 ''USD'' PaymentProviderMock (''mock_'' @ uuid_text 5) '''',
     OutboxEvent_PublishedAt = None, OutboxEvent_Attempt = 0, OutboxEvent_LastError = None,
     OutboxEvent_CreatedAt = 8, OutboxEvent_PartitionKey = 2\<rparr>"

definition ex_paid_key :: IdempotencyKey where
  "ex_paid_key = \<lparr>IdempotencyKey_ID = 7, IdempotencyKey_UserID = 1, IdempotencyKey_Key = ''k2'',
     IdempotencyKey_Method = ''POST'', IdempotencyKey_Path = ''/pay'',
     IdempotencyKey_RequestHash = HashRequestBody ex_ext (payOrder_body (uuid_text 2)),
     IdempotencyKey_ResponseBody = json_Payment ex_ext ex_payment,
     IdempotencyKey_StatusCode = Some StatusOK, IdempotencyKey_ResourceType = Some ''payment'',
     IdempotencyKey_ResourceID = Some 5, IdempotencyKey_CreatedAt = 8\<rparr>"

lemma ex_mock: "mockPayment (uuid_text 5) = (PaymentStatusSucceeded, ''mock_'' @ uuid_text 5, '''')"
  by code_simp

lemma ex_pay_run:
  "PayOrder ex_ext ex_pay ex_created =
     (Inr \<lparr>por_Order = set_status OrderStatusPaid 8 ex_order, por_Payment = ex_payment,
        por_StatusCode = StatusOK, por_Cached = False\<rparr>,
      bump_metric ''order_service_payments_total'' [PaymentStatusSucceeded]
        (ex_created\<lparr>w_db := add_payment ex_payment OrderStatusPaid 8 ex_paid_event ex_paid_key (w_db ex_created),
          w_stmt := 15, w_uuid := 7\<rparr>))"
  by (simp add: PayOrder_def ex_pay_def ex_texts run_defs PayOrder_tx_def store_defs ex_mock
      sql_GetIdempotencyKey_def sql_GetOrderForUpdate_def sql_UpdateOrderStatus_def
      ex_registered_eq ex_created_eq ex_init_def empty_db_def order_check_def payment_check_def
      outbox_check_def pg_Text_def pg_Int4_def ex_ann_def add_created_def ex_order_def ex_created_event_def
      ex_created_key_def add_payment_def set_order_def set_status_def update_where_def ex_payment_def
      ex_paid_event_def ex_paid_key_def cong: bindM_first)

definition ex_paid :: world where
  "ex_paid = snd (PayOrder ex_ext ex_pay ex_created)"

lemmas ex_paid_eq = ex_paid_def [unfolded ex_pay_run snd_conv]

definition ex_published :: world where
  "ex_published = snd (PublishBatch ex_ext ex_cfg ex_paid)"

definition ex_consumed :: world where
  "ex_consumed = snd (Handle ex_ext ''order.events'' (Marshal (OutboxMessage_json ex_ext ex_paid_event)) ex_published)"

text \<open>The states of the run are states of the system.\<close>

abbreviation ex_reachable :: "world \<Rightarrow> bool" where
  "ex_reachable \<equiv> reachable system_init (service_step ex_ext ex_cfg)"

lemma ex_reachable:
  "ex_reachable ex_init" "ex_reachable ex_registered" "ex_reachable ex_created" "ex_reachable ex_paid"
  "ex_reachable ex_published" "ex_reachable ex_consumed"
proof -
  show 0: "ex_reachable ex_init" by (rule start) (simp add: system_init_def ex_init_def)
  show 1: "ex_reachable ex_registered" unfolding ex_registered_def
    by (rule reachable.step [OF 0 service_step.register]) (rule prod.collapse [symmetric])
  show 2: "ex_reachable ex_created" unfolding ex_created_def
    by (rule reachable.step [OF 1 service_step.create]) (rule prod.collapse [symmetric])
  show 3: "ex_reachable ex_paid" unfolding ex_paid_def
    by (rule reachable.step [OF 2 service_step.pay]) (rule prod.collapse [symmetric])
  show 4: "ex_reachable ex_published" unfolding ex_published_def
    by (rule reachable.step [OF 3 service_step.publish]) (rule prod.collapse [symmetric])
  show "ex_reachable ex_consumed" unfolding ex_consumed_def
    by (rule reachable.step [OF 4 service_step.consume]) (rule prod.collapse [symmetric])
qed

end
