(* ===== verification/Redis_Properties.thy ===== *)
theory Redis_Properties
  imports Distributed_Lock Rate_Limit Example
begin

text \<open>
  The properties of the lock on orders and of the rate limiter, with a Redis server that answers
  every call for the witnesses.
\<close>

section \<open>The lock on an order\<close>

lemma Acquire_refused:
  assumes "live (redis_clock R (w_redis_calls w)) (w_redis w) key = Some t" and "Acquire R E ttl key w = (r, w')"
  shows "\<exists>e. r = Inl e" and "redis_fault R (w_redis_calls w) = NoFault \<Longrightarrow> r = Inl ErrLockNotAcquired"
    and "w_redis w' = w_redis w"
proof -
  from assms(2) obtain x where x: "redis_do R (redis_SetNX key (uuid_New E (w_uuid w)) (redis_ttl R ttl))
      (w\<lparr>w_uuid := Suc (w_uuid w)\<rparr>) = (x, w')"
    and r: "r = (case x of Inl e \<Rightarrow> Inl e | Inr a \<Rightarrow> if a then Inr \<lparr>lock_key = key, lock_token = uuid_New E (w_uuid w)\<rparr>
      else Inl ErrLockNotAcquired)"
    by (auto simp: Acquire_run split: prod.splits sum.splits if_splits)
  from x show "\<exists>e. r = Inl e" "w_redis w' = w_redis w"
    by (cases rule: redis_do_cases; use r assms(1) in \<open>auto simp: redis_SetNX_def\<close>)+
  show "r = Inl ErrLockNotAcquired" if "redis_fault R (w_redis_calls w) = NoFault"
    using x r assms(1) that by (auto simp: redis_do_def Let_def redis_SetNX_def)
qed

text \<open>
  C31: The lock on an order excludes. From the moment a client has acquired it until it would expire,
  whatever other clients do meanwhile (acquire and release other locks, or try this one), the key
  keeps the client's token, nobody else acquires it, and the refusal is \<^verbatim>\<open>ErrLockNotAcquired\<close> unless the
  call itself failed.
\<close>

theorem lock_exclusive:
  assumes "mono (redis_clock R)" and "0 < redis_ttl R ttl"
    and "Acquire R E ttl key w = (Inr l, w1)" and "(lock_step R E l)\<^sup>*\<^sup>* w1 w2"
    and "redis_clock R (w_redis_calls w2) < redis_clock R (w_redis_calls w) + redis_ttl R ttl"
    and "Acquire R E ttl' key w2 = (r, w3)"
  shows "live (redis_clock R (w_redis_calls w2)) (w_redis w2) key = Some (lock_token l) \<and>
    (\<exists>e. r = Inl e) \<and> w_redis w3 = w_redis w2 \<and>
    (redis_fault R (w_redis_calls w2) = NoFault \<longrightarrow> r = Inl ErrLockNotAcquired)"
proof -
  note l = Acquire_InrD [OF assms(3,2,5)]
  have "live (redis_clock R (w_redis_calls w2)) (w_redis w2) key = Some (lock_token l)"
    using lock_steps_keep [OF assms(4,1) order_refl] l by simp
  with Acquire_refused [OF this assms(6)] show ?thesis by blast
qed

text \<open>
  C32: Releasing the lock before it expires frees it: the next client acquires it at once. A release that
  comes when the key holds another client's token changes nothing, so a client whose lock has
  expired cannot give up the lock of its successor.
\<close>

theorem lock_released:
  assumes "mono (redis_clock R)" and "0 < redis_ttl R ttl" and "0 < redis_ttl R ttl'"
    and "Acquire R E ttl key w = (Inr l, w1)" and "(lock_step R E l)\<^sup>*\<^sup>* w1 w2"
    and "Release R l w2 = (r, w3)"
    and "redis_fault R (w_redis_calls w2) = NoFault" and "redis_fault R (w_redis_calls w3) = NoFault"
  shows "(redis_clock R (w_redis_calls w2) < redis_clock R (w_redis_calls w) + redis_ttl R ttl \<longrightarrow>
      r = Inr () \<and> (\<exists>l' w4. Acquire R E ttl' key w3 = (Inr l', w4) \<and> lock_key l' = key)) \<and>
    (live (redis_clock R (w_redis_calls w2)) (w_redis w2) key \<noteq> Some (lock_token l) \<longrightarrow> w_redis w3 = w_redis w2)"
proof (intro conjI impI)
  let ?now = "redis_clock R (w_redis_calls w2)"
  have key: "lock_key l = key" using assms(4) by (auto simp: Acquire_run split: prod.splits sum.splits if_splits)
  have rel: "r = Inr () \<and> w_redis w3 = (if live ?now (w_redis w2) key = Some (lock_token l)
      then (w_redis w2)(key := None) else w_redis w2)"
    using assms(6,7) by (auto simp: Release_run redis_do_NoFault releaseScript_def key split: if_splits)
  then show "r = Inr ()" by blast
  show "w_redis w3 = w_redis w2" if "live ?now (w_redis w2) key \<noteq> Some (lock_token l)" using rel that by simp
  show "\<exists>l' w4. Acquire R E ttl' key w3 = (Inr l', w4) \<and> lock_key l' = key"
    if before: "?now < redis_clock R (w_redis_calls w) + redis_ttl R ttl"
  proof -
    note l = Acquire_InrD [OF assms(4,2) before]
    have "live ?now (w_redis w2) key = Some (lock_token l)"
      using lock_steps_keep [OF assms(5,1) order_refl] l by simp
    with rel have "w_redis w3 key = None" by simp
    with assms(8) show ?thesis by (simp add: Acquire_run redis_do_NoFault redis_SetNX_def live_def)
  qed
qed

section \<open>The rate limiter\<close>

text \<open>
  C33: The requests of one client to one scope in one window: however requests of other scopes and clients, with other limits, are mixed in
  (every login passes the limit of all requests before its own) and whatever calls fail, at most \<open>limit\<close> of them are let
  through, if this is the limit of that scope and as long as the server has not let the counter expire, which it does no earlier than a
  second after the length of the window.
\<close>

theorem rate_limited:
  assumes "serve_all R E window rs w = (outs, w')" and "mono (redis_clock R)"
    and "K = rate_key scope client start" and "w_redis w K = None" and "0 \<le> limit"
    and "CHR '':'' \<notin> set scope" and "\<forall>(s, c, l) \<in> set rs. CHR '':'' \<notin> set s"
    and "\<forall>(s, c, l) \<in> set rs. s = scope \<and> c = client \<longrightarrow> l \<le> limit"
    and "redis_clock R (w_redis_calls w') < redis_clock R (w_redis_calls w) + redis_ttl R (window + Second)"
  shows "int (let_through K outs) \<le> limit"
proof -
  have "\<forall>(s, c, l) \<in> set rs. (\<exists>t. rate_key s c t = K) \<longrightarrow> l \<le> limit"
    using rate_key_inj [OF _ _ assms(6)] assms(3,7,8) by fastforce
  from serve_all_counted [OF assms(1,2) _ order_refl order_refl assms(9) this, of 0] assms(4,5) show ?thesis
    by (simp add: counted_def)
qed

lemma Allow_InrD:
  assumes "Allow R E scope key limit window w = (Inr res, w')"
  obtains c where "res = limit_result limit window (time_Now E (w_clock w)) c"
    and "\<exists>m. redis_Incr (rate_key scope key (time_Truncate (time_Now E (w_clock w)) window))
      (redis_clock R (w_redis_calls w)) (w_redis w) = Inr (c, m)"
  using assms
proof (rule Allow_cases)
  fix c w1
  assume c: "redis_do R (redis_Incr (rate_key scope key (time_Truncate (time_Now E (w_clock w)) window)))
      (w\<lparr>w_clock := Suc (w_clock w)\<rparr>) = (c, w1)"
    and "\<forall>r. Inr res = (Inr r :: error + limit_Result) \<longrightarrow>
      (\<exists>n. c = Inr n \<and> r = limit_result limit window (time_Now E (w_clock w)) n)"
  then obtain n where n: "c = Inr n" "res = limit_result limit window (time_Now E (w_clock w)) n" by blast
  from c show thesis by (cases rule: redis_do_cases) (use n in \<open>auto intro: that\<close>)
qed

lemma time_Truncate_dvd: "0 < d \<Longrightarrow> d dvd time_Truncate t d - zero_time"
proof -
  assume "0 < d"
  then have "time_Truncate t d - zero_time = (t - zero_time) - (t - zero_time) mod d" by (simp add: time_Truncate_def)
  then show ?thesis by (simp only: dvd_minus_mod)
qed

lemma time_Truncate_within:
  assumes "0 < d" and "d dvd s - zero_time" and "s \<le> u" and "u < s + d"
  shows "time_Truncate u d = s"
proof -
  from assms(2) obtain k where "s - zero_time = d * k" by (auto elim: dvdE)
  then have "(u - zero_time) mod d = ((u - s) + d * k) mod d" by (simp add: algebra_simps)
  also have "\<dots> = u - s" using assms by simp
  finally show ?thesis using assms(1) by (simp add: time_Truncate_def)
qed

text \<open>
  What a client is told, as long as the counter holds no negative number: the limit, a remaining number of requests between 0 and the limit
  which is 0 for a request that is refused, and a time to wait that is positive and at most the length
  of the window. Until that time is over, requests of the client use the same counter; then a new
  window begins.
\<close>

lemma rate_limit_result:
  assumes "Allow R E scope key limit window w = (Inr res, w')" and "0 < window" and "0 \<le> limit"
    and "now = time_Now E (w_clock w)" and "start = time_Truncate now window"
    and "\<forall>v. live (redis_clock R (w_redis_calls w)) (w_redis w) (rate_key scope key start) = Some v \<longrightarrow>
      (\<exists>n. parse_int64 v = Some n \<and> 0 \<le> n)"
  shows "res_Limit res = limit \<and> 0 \<le> res_Remaining res \<and> res_Remaining res \<le> limit \<and>
    (\<not> res_Allowed res \<longrightarrow> res_Remaining res = 0) \<and>
    0 < res_RetryAfter res \<and> res_RetryAfter res \<le> window \<and>
    (\<forall>d. 0 \<le> d \<and> d < res_RetryAfter res \<longrightarrow> time_Truncate (now + d) window = start) \<and>
    time_Truncate (now + res_RetryAfter res) window = start + window"
proof -
  obtain c m where res: "res = limit_result limit window now c"
    and "redis_Incr (rate_key scope key start) (redis_clock R (w_redis_calls w)) (w_redis w) = Inr (c, m)"
    using Allow_InrD [OF assms(1)] assms(4,5) by metis
  with assms(6) have c: "0 < c" by (auto simp: redis_Incr_def split: option.splits if_splits)
  note b = limit_result_bounds [OF assms(2) c, of limit now]
  note t = time_Truncate_bounds [OF assms(2), of now]
  have retry: "res_RetryAfter res = start + window - now"
    using t by (simp add: res limit_result_def Let_def assms(5))
  note dvd = time_Truncate_dvd [OF assms(2), of now, folded assms(5)]
  have "time_Truncate (now + d) window = start" if "0 \<le> d" "d < res_RetryAfter res" for d
    by (rule time_Truncate_within [OF assms(2) dvd]) (use that retry t assms(5) in simp_all)
  moreover have "time_Truncate (start + window) window = start + window"
    by (rule time_Truncate_within [OF assms(2)]) (use dvd_add [OF dvd dvd_refl] assms(2) in \<open>simp_all add: algebra_simps\<close>)
  ultimately show ?thesis using b assms(3) retry
    by (auto simp: res limit_result_def Let_def)
qed

section \<open>Witnesses\<close>

text \<open>A server that answers every call, with a clock that counts the calls.\<close>

definition ex_redis :: redis_ext where
  "ex_redis = \<lparr>redis_fault = (\<lambda>n. NoFault), redis_clock = int, redis_ttl = id\<rparr>"

definition ex_redis_init :: redis_world where
  "ex_redis_init = world.extend ex_init (redis_world.fields Map.empty 0)"

lemma ex_redis_sel [simp]:
  "redis_fault ex_redis n = NoFault" "redis_clock ex_redis = int" "redis_ttl ex_redis t = t"
  by (simp_all add: ex_redis_def)

lemma ex_redis_init_sel [simp]:
  "w_redis ex_redis_init = Map.empty" "w_redis_calls ex_redis_init = 0" "w_uuid ex_redis_init = 0"
  "w_clock ex_redis_init = 0" "w_db ex_redis_init = empty_db"
  by (simp_all add: ex_redis_init_def ex_init_def world.defs redis_world.defs)

lemma mono_int: "mono int"
  by (simp add: mono_def)

definition ex_lock :: Lock where
  "ex_lock = \<lparr>lock_key = ''lock:order:1'', lock_token = uuid_text 1\<rparr>"

definition ex_locked_world :: redis_world where
  "ex_locked_world = ex_redis_init\<lparr>w_uuid := 1, w_redis_calls := 1,
     w_redis := [''lock:order:1'' \<mapsto> (uuid_text 1, Some 10)]\<rparr>"

lemma ex_acquire: "Acquire ex_redis ex_ext 10 ''lock:order:1'' ex_redis_init = (Inr ex_lock, ex_locked_world)"
  by (simp add: Acquire_run redis_do_NoFault redis_SetNX_def live_def ex_lock_def ex_locked_world_def)

text \<open>Another client tries to take the lock.\<close>

definition ex_contended_world :: redis_world where
  "ex_contended_world = snd (Acquire ex_redis ex_ext 10 ''lock:order:1'' ex_locked_world)"

lemma ex_contended: "(lock_step ex_redis ex_ext ex_lock)\<^sup>*\<^sup>* ex_locked_world ex_contended_world"
  unfolding ex_contended_world_def
  by (rule r_into_rtranclp, rule lock_step.acquire) (rule prod.collapse [symmetric])

lemma ex_contended_calls [simp]: "w_redis_calls ex_contended_world = 2"
  by (simp add: ex_contended_world_def Acquire_run redis_do_NoFault redis_SetNX_def live_def ex_locked_world_def)

theorem lock_exclusive_witness:
  "fst (Acquire ex_redis ex_ext 10 ''lock:order:1'' ex_redis_init) = Inr ex_lock \<and>
   fst (Acquire ex_redis ex_ext 5 ''lock:order:1'' ex_contended_world) = Inl ErrLockNotAcquired"
proof -
  obtain r w3 where r: "Acquire ex_redis ex_ext 5 ''lock:order:1'' ex_contended_world = (r, w3)" by (metis surj_pair)
  have "redis_clock ex_redis (w_redis_calls ex_contended_world) <
      redis_clock ex_redis (w_redis_calls ex_redis_init) + redis_ttl ex_redis 10" by simp
  from lock_exclusive [OF _ _ ex_acquire ex_contended this r] r ex_acquire show ?thesis
    by (simp add: mono_int)
qed

theorem lock_released_witness:
  "\<exists>l' w4. Acquire ex_redis ex_ext 5 ''lock:order:1'' (snd (Release ex_redis ex_lock ex_contended_world)) = (Inr l', w4) \<and>
    lock_key l' = ''lock:order:1''"
proof -
  have "Release ex_redis ex_lock ex_contended_world =
    (fst (Release ex_redis ex_lock ex_contended_world), snd (Release ex_redis ex_lock ex_contended_world))" by simp
  from lock_released [OF _ _ _ ex_acquire ex_contended this, of 5] show ?thesis by (simp add: mono_int)
qed

text \<open>Three logins of a client that may log in twice in a minute, each behind the limit of all requests.\<close>

definition ex_requests :: "(string \<times> string \<times> int) list" where
  "ex_requests = [(''global'', ''10.0.0.1'', 60), (''auth_login'', ''10.0.0.1'', 2), (''global'', ''10.0.0.1'', 60),
     (''auth_login'', ''10.0.0.1'', 2), (''global'', ''10.0.0.1'', 60), (''auth_login'', ''10.0.0.1'', 2)]"

definition ex_counter :: string where
  "ex_counter = rate_key ''auth_login'' ''10.0.0.1'' 0"

definition ex_global_counter :: string where
  "ex_global_counter = rate_key ''global'' ''10.0.0.1'' 0"

lemma ex_counters: "ex_counter \<noteq> ex_global_counter"
  by (simp add: ex_counter_def ex_global_counter_def rate_key_def)

lemma ex_window: "0 \<le> t \<Longrightarrow> t < Minute \<Longrightarrow> time_Truncate t Minute = 0"
  by (rule time_Truncate_within) (simp_all add: zero_time_def)

lemma ex_counts: "parse_int64 ''1'' = Some 1" "Itoa 2 = ''2''" "parse_int64 ''2'' = Some 2" "Itoa 3 = ''3''"
  by code_simp+

lemma ex_served:
  "fst (serve_all ex_redis ex_ext Minute ex_requests ex_redis_init) =
     [(ex_global_counter, True), (ex_counter, True), (ex_global_counter, True), (ex_counter, True),
      (ex_global_counter, True), (ex_counter, False)] \<and>
   w_redis_calls (snd (serve_all ex_redis ex_ext Minute ex_requests ex_redis_init)) = 8"
  using ex_counters ex_counters [symmetric]
  by (simp add: ex_requests_def Allow_def bindM_def Now_def returnM_def Let_def redis_do_NoFault ex_window
      redis_Incr_def redis_Expire_def live_def ex_counts limit_result_def flip: ex_counter_def ex_global_counter_def)

theorem rate_limited_witness:
  "let_through ex_counter (fst (serve_all ex_redis ex_ext Minute ex_requests ex_redis_init)) = 2 \<and>
   int (let_through ex_counter (fst (serve_all ex_redis ex_ext Minute ex_requests ex_redis_init))) \<le> 2"
proof -
  have "serve_all ex_redis ex_ext Minute ex_requests ex_redis_init =
    (fst (serve_all ex_redis ex_ext Minute ex_requests ex_redis_init),
     snd (serve_all ex_redis ex_ext Minute ex_requests ex_redis_init))" by simp
  from rate_limited [OF this _ ex_counter_def, of 2] show ?thesis
    using ex_served ex_counters by (simp add: mono_int ex_requests_def let_through_def)
qed

end
