(* ===== verification/Api_Example.thy ===== *)
theory Api_Example
  imports Api_Contract Redis_Properties
begin

text \<open>
  A router and a run of requests for the witnesses: routes matched segment by segment as chi does, no limits, a lock manager, and a
  client that registers, creates an order and pays it.
\<close>

section \<open>The libraries around the handlers\<close>

fun ex_segments :: "string list \<Rightarrow> string list \<Rightarrow> string option" where
  "ex_segments [] [] = Some ''''"
| "ex_segments (a # as) (b # bs) =
     (if a = ''{id}'' then (if b = '''' then None else map_option (\<lambda>_. b) (ex_segments as bs))
      else if a = b then ex_segments as bs else None)"
| "ex_segments _ _ = None"

fun ex_match :: "(string option \<times> string \<times> endpoint) list \<Rightarrow> string \<Rightarrow> string \<Rightarrow> (endpoint \<times> string \<times> string) option" where
  "ex_match [] m p = None"
| "ex_match ((m', pat, e) # rs) m p =
     (case ex_segments (Split pat CHR ''/'') (Split p CHR ''/'') of
        Some i \<Rightarrow> if m' = None \<or> m' = Some m then Some (e, pat, i) else ex_match rs m p
      | None \<Rightarrow> ex_match rs m p)"

definition ex_http :: http_ext where
  "ex_http = \<lparr>chi_Match = (\<lambda>rs m (p, raw). ex_match rs m (if raw \<noteq> '''' then raw else p)),
     chi_Unmatched = (\<lambda>m p w. http_Error ''404 page not found'' 404 w),
     prom_Handler = (\<lambda>c r w. Write '''' (WriteHeader StatusOK w))\<rparr>"

lemma ex_match_SomeD: "ex_match rs m p = Some (e, pat, i) \<Longrightarrow> \<exists>m'. (m', pat, e) \<in> set rs \<and> (m' = None \<or> m' = Some m)"
  by (induction rs m p rule: ex_match.induct) (auto split: option.splits if_splits)

lemma ex_http_laws [simp]: "chi_laws ex_http" "http_laws ex_http"
  by (auto simp: chi_laws_def http_laws_def ex_http_def intro: ex_match_SomeD)

definition ex_router :: RouterConfig where
  "ex_router = \<lparr>rc_AuthService = ex_service, rc_CookieSecure = True, rc_LockManager = Some 10, rc_RateLimiter = True,
     rc_RateLimitEnabled = False, rc_RateLimitRequestsPerMinute = 60, rc_AuthRateLimitRequestsPerMinute = 10,
     rc_LoginRateLimitRequestsPerMinute = 5, rc_CORSAllowedOrigin = ''''\<rparr>"

lemma ex_router_sel [simp]:
  "rateLimiter ex_router = False" "rc_CORSAllowedOrigin ex_router = ''''" "rc_AuthService ex_router = ex_service"
  "srv_lockManager (router_Server ex_router) = Some 10" "srv_authService (router_Server ex_router) = ex_service"
  "srv_cookieSecure (router_Server ex_router)"
  by (simp_all add: ex_router_def rateLimiter_def router_Server_def)

definition ex_response :: statusRecorder where
  "ex_response = \<lparr>sr_statusCode = 200, rw_status = None, rw_header = [], rw_cookies = [], rw_body = '''', rw_pattern = ''''\<rparr>"

lemma ex_response_sel [simp]:
  "starting ex_response" "rw_status ex_response = None" "rw_body ex_response = ''''" "rw_header ex_response = []"
  "rw_cookies ex_response = []"
  by (simp_all add: ex_response_def starting_def)

section \<open>Requests\<close>

definition ex_get :: "string \<Rightarrow> Request" where
  "ex_get path = \<lparr>req_Method = ''GET'', req_Path = path, req_RawPath = '''', req_Header = [], req_Cookies = [], req_Body = '''',
     req_RemoteAddr = ''10.0.0.1:4711'', req_URLParam_id = '''', req_claims = None\<rparr>"

definition ex_post :: "string \<Rightarrow> header \<Rightarrow> string \<Rightarrow> Request" where
  "ex_post path h body = (ex_get path)\<lparr>req_Method := ''POST'', req_Header := h, req_Body := body\<rparr>"

definition ex_register_body :: string where
  "ex_register_body = Marshal (JObj [(''email'', JStr '' Ann@Example.com ''), (''password'', JStr ''secret'')])"

lemma ex_register_decode:
  "Decode_registerRequest ex_register_body =
     Some \<lparr>reg_req_Email = '' Ann@Example.com '', reg_req_Password = ''secret'', reg_req_Role = ''''\<rparr>"
  using body_members_Marshal [of "[(''email'', JStr '' Ann@Example.com ''), (''password'', JStr ''secret'')]"]
  by (simp add: ex_register_body_def Decode_registerRequest_def plain_members_def is_ascii_def)

definition ex_register_request :: Request where
  "ex_register_request = ex_post ''/auth/register'' [] ex_register_body"

lemma ex_routes:
  "ex_match routes ''POST'' ''/auth/register'' = Some (AuthRegister, ''/auth/register'', '''')"
  "ex_match routes ''GET'' ''/orders'' = Some (OrdersList, ''/orders'', '''')"
  by code_simp+

lemma ex_register_params: "\<lparr>rup_Email = '' Ann@Example.com '', rup_Password = ''secret'', rup_Role = ''''\<rparr> = ex_register"
  by (simp add: ex_register_def)

lemma ex_register_service:
  fixes w :: "'z world_scheme"
  assumes "w_db w = empty_db" and "w_stmt w = 0" and "w_uuid w = 0" and "w_rand w = 0" and "w_tx w = None"
  shows "RegisterUser ex_ext ex_register w =
     (Inr ex_ann, w\<lparr>w_db := empty_db\<lparr>tbl_users := [ex_ann]\<rparr>, w_stmt := 1, w_uuid := 1, w_rand := 1\<rparr>)"
  using assms
  by (simp add: RegisterUser_def ex_register_def ex_email run_defs HashPassword_def store_CreateUser_def
      empty_db_def user_check_def ex_ann_def cong: bindM_first)

definition ex_api_registered :: redis_world where
  "ex_api_registered = snd (ServeHTTP ex_http ex_redis ex_ext ex_router ex_register_request ex_response ex_redis_init)"

lemma ex_redis_init_more [simp]: "w_stmt ex_redis_init = 0" "w_rand ex_redis_init = 0" "w_tx ex_redis_init = None" "w_log ex_redis_init = []"
  by (simp_all add: ex_redis_init_def ex_init_def world.defs redis_world.defs)

lemma ex_register_http:
  "fst (ServeHTTP ex_http ex_redis ex_ext ex_router ex_register_request ex_response ex_redis_init) =
     Inr (writeJSON StatusCreated (newUserResponse ex_ext ex_ann) (ex_response\<lparr>sr_statusCode := 200, rw_pattern := ''/auth/register''\<rparr>)) \<and>
   w_db ex_api_registered = empty_db\<lparr>tbl_users := [ex_ann]\<rparr> \<and> w_stmt ex_api_registered = 1 \<and> w_uuid ex_api_registered = 1 \<and>
   w_tx ex_api_registered = None \<and> w_log ex_api_registered = [] \<and> w_redis ex_api_registered = Map.empty \<and> w_redis_calls ex_api_registered = 0"
  by (simp add: ex_api_registered_def ServeHTTP_def metricsMiddleware_def route_def req_URL_def ex_http_def ex_register_request_def ex_post_def ex_get_def
      ex_routes route_handler_def rateLimitMiddleware_def handleRegister_def ex_register_decode
      ex_register_params ex_register_service bindM_def tryM_def Now_def returnM_def Inc_def modifyM_def bump_metric_def Let_def)

section \<open>A user, a session and an order\<close>

text \<open>The operations of the services on any world in which the user has registered.\<close>

lemma ex_create_service:
  fixes w :: "'z world_scheme"
  assumes "w_db w = empty_db\<lparr>tbl_users := [ex_ann]\<rparr>" and "w_stmt w = 1" and "w_uuid w = 1" and "w_tx w = None"
  shows "CreateOrder ex_ext ex_create w =
     (Inr \<lparr>cor_Order = ex_order, cor_StatusCode = StatusCreated, cor_Cached = False\<rparr>,
      bump_metric ''order_service_orders_created_total'' []
        (w\<lparr>w_db := add_created ex_order ex_created_event ex_created_key (w_db w), w_stmt := 7, w_uuid := 4\<rparr>))"
  using assms
  by (simp add: CreateOrder_def ex_create_def ex_texts run_defs CreateOrder_tx_def store_defs
      sql_GetIdempotencyKey_def empty_db_def order_check_def
      outbox_check_def pg_Text_def pg_Int4_def ex_ann_def add_created_def ex_order_def ex_created_event_def
      ex_created_key_def cong: bindM_first)

lemma ex_login_service:
  fixes w :: "'z world_scheme"
  assumes "w_db w = empty_db\<lparr>tbl_users := [ex_ann]\<rparr>" and "w_stmt w = 1" and "w_uuid w = 1" and "w_clock w = 0" and "w_rand w = 1"
    and "w_tx w = None"
  shows "Login ex_ext ex_service ex_credentials w =
     (Inr \<lparr>lr_User = ex_ann, lr_AccessToken = ex_access, lr_RefreshToken = ex_token, lr_RefreshTokenExpiresAt = 3601\<rparr>,
      w\<lparr>w_db := (w_db w)\<lparr>tbl_refresh_tokens := [ex_session]\<rparr>, w_stmt := 3, w_uuid := 2, w_clock := 2, w_rand := 2\<rparr>)"
  using assms
  by (simp add: Login_def ex_service_def ex_credentials_def ex_email run_defs CheckPasswordHash_def
      GenerateAccessToken_def GenerateRefreshToken_def rand_bytes_def store_GetUserByEmail_def
      sql_GetUserByEmail_def store_CreateRefreshToken_def empty_db_def
      ex_ann_def ex_session_def ex_access_def ex_claims_def ex_token_def cong: bindM_first)

definition ex_user_world :: redis_world where
  "ex_user_world = world.extend ex_registered (redis_world.fields Map.empty 0)"

lemma ex_user_world_sel [simp]:
  "w_db ex_user_world = empty_db\<lparr>tbl_users := [ex_ann]\<rparr>" "w_stmt ex_user_world = 1" "w_uuid ex_user_world = 1"
  "w_clock ex_user_world = 0" "w_rand ex_user_world = 1" "w_tx ex_user_world = None" "w_log ex_user_world = []"
  by (simp_all add: ex_user_world_def ex_registered_eq ex_init_def world.defs redis_world.defs)

definition ex_create_request :: Request where
  "ex_create_request = (ex_post ''/orders'' [(''Idempotency-Key'', ''k1'')]
     (Marshal (createOrder_body 1999 ''usd'' ''book'')))\<lparr>req_claims := Some ex_claims\<rparr>"

lemma ex_create_decode:
  "req_claims ex_create_request = Some ex_claims"
  "Decode_createOrderRequest (req_Body ex_create_request) =
     Some \<lparr>cor_req_AmountCents = 1999, cor_req_Currency = ''usd'', cor_req_Description = ''book''\<rparr>"
  "header_Get (req_Header ex_create_request) ''Idempotency-Key'' = ''k1''"
proof -
  have "header_Get [(''Idempotency-Key'', ''k1'')] ''Idempotency-Key'' = ''k1''" by code_simp
  then show "header_Get (req_Header ex_create_request) ''Idempotency-Key'' = ''k1''"
    by (simp add: ex_create_request_def ex_post_def)
qed (use Decode_createOrder_Marshal [of 1999 "''usd''" "''book''"] in
  \<open>simp_all add: ex_create_request_def ex_post_def is_ascii_def\<close>)

definition ex_login_body :: string where
  "ex_login_body = Marshal (JObj [(''email'', JStr '' Ann@Example.com ''), (''password'', JStr ''secret'')])"

lemma ex_login_decode:
  "Decode_loginRequest ex_login_body = Some \<lparr>log_req_Email = '' Ann@Example.com '', log_req_Password = ''secret''\<rparr>"
  using body_members_Marshal [of "[(''email'', JStr '' Ann@Example.com ''), (''password'', JStr ''secret'')]"]
  by (simp add: ex_login_body_def Decode_loginRequest_def plain_members_def is_ascii_def)

text \<open>A request without an access token, served by the whole router.\<close>

lemma ex_unauthenticated:
  "\<exists>w' z'. ServeHTTP ex_http ex_redis ex_ext ex_router (ex_get ''/orders'') ex_response ex_user_world = (Inr w', z') \<and>
    rw_status w' = Some StatusUnauthorized \<and> rw_pattern w' = ''/orders''"
  by (simp add: ServeHTTP_def metricsMiddleware_def route_def req_URL_def ex_http_def ex_get_def
      ex_routes route_handler_def requireAuth_def header_Get_def bindM_def tryM_def Now_def returnM_def Inc_def modifyM_def
      bump_metric_def Let_def) (simp add: writeJSONError_def writeJSON_def header_Set_def WriteHeader_def Write_def)

end
