(* ===== verification/Order_Properties.thy ===== *)
theory Order_Properties
  imports Example "HOL-Library.Multiset"
begin

text \<open>
  What a caller of the order service can rely on: operations that fail change nothing, what
  each operation returns and stores, replies of repeated requests, conflicts, and who may act
  on which order. The statements are about whole operations, from any state.
\<close>

section \<open>Failed operations\<close>

definition no_lost_answer :: "ext \<Rightarrow> bool" where
  "no_lost_answer E \<longleftrightarrow> (\<forall>n e. sql_fault E n \<noteq> Lost e)"

lemma WithTx_error_same_db:
  "no_lost_answer E \<Longrightarrow> WithTx E fn w = (Inl e, w') \<Longrightarrow> w_db w' = w_db w"
  by (drule WithTx_InlD) (auto simp: no_lost_answer_def)

lemma reads_then_tx:
  assumes "bindM (tryM m) (\<lambda>found. case found of Inr k \<Rightarrow> replay k | Inl _ \<Rightarrow> bindM (WithTx E tx) post) w = (Inl e, w')"
    and "no_lost_answer E" and "keeps same_db m" and "\<And>k. keeps same_db (replay k)"
    and "\<And>x. throws (\<lambda>_. False) (post x)"
  shows "w_db w' = w_db w"
proof -
  obtain v w1 where m: "m w = (v, w1)" by (metis surj_pair)
  note w1 = same_dbD [OF assms(3) m]
  show ?thesis
  proof (cases v)
    case (Inl x)
    with assms(1) m have "bindM (WithTx E tx) post w1 = (Inl e, w')"
      by (simp add: bindM_def tryM_def)
    with assms(5) have "WithTx E tx w1 = (Inl e, w')" by (auto simp: run_iff throws_def)
    from WithTx_error_same_db [OF assms(2) this] w1 show ?thesis by simp
  next
    case (Inr k)
    with assms(1) m have "replay k w1 = (Inl e, w')" by (simp add: bindM_def tryM_def)
    from same_dbD [OF assms(4) this] w1 show ?thesis by simp
  qed
qed

lemma CreateOrder_error_same_db:
  assumes "CreateOrder E params w = (Inl e, w')" and "no_lost_answer E"
  shows "w_db w' = w_db w"
  using assms
  by (auto simp: CreateOrder_def Let_def run_iff(1-6) split: if_splits
      elim!: reads_then_tx intro!: keeps_rules throws_rules)

lemma PayOrder_error_same_db:
  assumes "PayOrder E params w = (Inl e, w')" and "no_lost_answer E"
  shows "w_db w' = w_db w"
  using assms
  by (auto simp: PayOrder_def Let_def run_iff(1-6) split: if_splits
      elim!: reads_then_tx intro!: keeps_rules throws_rules)

lemma CancelOrder_error_same_db:
  assumes "CancelOrder E params w = (Inl e, w')" and "no_lost_answer E"
  shows "w_db w' = w_db w"
  using assms WithTx_error_same_db
  by (auto simp: CancelOrder_def run_iff(1-6) split: if_splits)

text \<open>
  C4: an operation of the order service that returns an error has changed nothing, as long as
  no answer of the database is lost on the way (a commit whose acknowledgement never arrives is
  the one case in which the program cannot know).
\<close>

theorem order_operations_atomic:
  assumes "no_lost_answer E"
    and "CreateOrder E cp w = (Inl e, w') \<or> PayOrder E pp w = (Inl e, w') \<or> CancelOrder E xp w = (Inl e, w')"
  shows "w_db w' = w_db w"
  using assms CreateOrder_error_same_db PayOrder_error_same_db CancelOrder_error_same_db by blast

section \<open>Fresh and repeated requests\<close>

text \<open>The normalised parts of a request, and the key row it matches.\<close>

definition order_currency :: "ext \<Rightarrow> CreateOrderParams \<Rightarrow> string" where
  "order_currency E params = TrimSpace (ToUpper (unicode_upper E) (cop_Currency params))"

definition order_hash :: "ext \<Rightarrow> CreateOrderParams \<Rightarrow> string" where
  "order_hash E params = HashRequestBody E (createOrder_body (cop_AmountCents params)
     (order_currency E params) (TrimSpace (cop_Description params)))"

definition pay_hash :: "ext \<Rightarrow> PayOrderParams \<Rightarrow> string" where
  "pay_hash E params = HashRequestBody E (payOrder_body (pop_OrderID params))"

definition key_of :: "ext \<Rightarrow> string \<Rightarrow> string \<Rightarrow> IdempotencyKey \<Rightarrow> bool" where
  "key_of E user key k \<longleftrightarrow>
     uuid_Scan E user = Some (IdempotencyKey_UserID k) \<and> IdempotencyKey_Key k = TrimSpace key"

definition same_request :: "string \<Rightarrow> string \<Rightarrow> string \<Rightarrow> IdempotencyKey \<Rightarrow> bool" where
  "same_request method path hash k \<longleftrightarrow> IdempotencyKey_Method k = method \<and>
     IdempotencyKey_Path k = path \<and> IdempotencyKey_RequestHash k = hash"

definition reply_code :: "IdempotencyKey \<Rightarrow> int" where
  "reply_code k = (let c = int4_Int32 (IdempotencyKey_StatusCode k) in if c = 0 then StatusOK else c)"

definition create_input_ok :: "ext \<Rightarrow> CreateOrderParams \<Rightarrow> bool" where
  "create_input_ok E params \<longleftrightarrow> TrimSpace (cop_IdempotencyKey params) \<noteq> '''' \<and>
     cop_UserID params \<noteq> '''' \<and> 0 < cop_AmountCents params \<and> order_currency E params \<noteq> ''''"

lemma CreateOrder_input:
  assumes "CreateOrder E params w = (v, w')" and "\<not> create_input_ok E params"
  shows "v \<in> {Inl ErrIdempotencyKeyRequired, Inl ErrInvalidInput}" and "w' = w"
  using assms
  by (auto simp: CreateOrder_def Let_def create_input_ok_def order_currency_def run_iff)

lemma CreateOrder_unfold:
  assumes "create_input_ok E params"
  shows "CreateOrder E params =
    bindM (tryM (store_GetIdempotencyKey E (cop_UserID params) (TrimSpace (cop_IdempotencyKey params)))) (\<lambda>found.
      case found of
        Inr existing \<Rightarrow> CreateOrder_replay E params (order_hash E params) existing
      | Inl _ \<Rightarrow>
          bindM (WithTx E (CreateOrder_tx E params (TrimSpace (cop_IdempotencyKey params))
            (order_currency E params) (TrimSpace (cop_Description params)) (order_hash E params))) (\<lambda>createdOrder.
          bindM (Inc ''order_service_orders_created_total'' []) (\<lambda>_.
          returnM \<lparr>cor_Order = createdOrder, cor_StatusCode = StatusCreated, cor_Cached = False\<rparr>)))"
  using assms unfolding CreateOrder_def Let_def create_input_ok_def order_currency_def order_hash_def
  by auto

text \<open>A lookup of an idempotency key that works, and what follows.\<close>

lemma lookup_found:
  assumes "sql_fault E (w_stmt w) = NoFault" and "keys_ok (w_db w)"
    and "k \<in> set (tbl_idempotency_keys (w_db w))" and "key_of E user key k"
  shows "store_GetIdempotencyKey E user (TrimSpace key) w = (Inr k, w\<lparr>w_stmt := Suc (w_stmt w)\<rparr>)"
proof -
  have "sql_GetIdempotencyKey (idem_key k) t (w_db w) = Inr (k, w_db w)" for t
    using assms(2,3) by (intro idempotency_keys.sel_present) (auto simp: keys_ok_def)
  with assms(1,4) show ?thesis
    by (simp add: store_GetIdempotencyKey_def key_of_def bindM_run_Inr [OF Scan_run] exec_NoFault)
qed

lemma lookup_order:
  assumes "sql_fault E (w_stmt w) = NoFault" and "keys_ok (w_db w)" and "uuid_laws E"
    and "r \<in> set (tbl_orders (w_db w))"
  shows "store_GetOrder E (uuid_String E (Order_ID r)) w = (Inr r, w\<lparr>w_stmt := Suc (w_stmt w)\<rparr>)"
proof -
  have "sql_GetOrder (Order_ID r) t (w_db w) = Inr (r, w_db w)" for t
    using assms(2,4) by (intro orders_by_id.sel_present) (auto simp: keys_ok_def)
  with assms(1,3) show ?thesis
    by (simp add: store_GetOrder_def bindM_run_Inr [OF Scan_run] exec_NoFault)
qed

lemma lookup_payment:
  assumes "sql_fault E (w_stmt w) = NoFault" and "keys_ok (w_db w)" and "uuid_laws E"
    and "p \<in> set (tbl_payments (w_db w))"
  shows "store_GetPayment E (uuid_String E (Payment_ID p)) w = (Inr p, w\<lparr>w_stmt := Suc (w_stmt w)\<rparr>)"
proof -
  have "sql_GetPayment (Payment_ID p) t (w_db w) = Inr (p, w_db w)" for t
    using assms(2,4) by (intro payments_by_id.sel_present) (auto simp: keys_ok_def)
  with assms(1,3) show ?thesis
    by (simp add: store_GetPayment_def bindM_run_Inr [OF Scan_run] exec_NoFault)
qed

text \<open>
  From now on the database answers.
\<close>

definition answers_from :: "ext \<Rightarrow> 'z world_scheme \<Rightarrow> bool" where
  "answers_from E w \<longleftrightarrow> (\<forall>n \<ge> w_stmt w. sql_fault E n = NoFault)"

lemma answers_fromD [simp]:
  "answers_from E w \<Longrightarrow> sql_fault E (w_stmt w) = NoFault"
  "answers_from E w \<Longrightarrow> sql_fault E (Suc (w_stmt w)) = NoFault"
  "answers_from E w \<Longrightarrow> sql_fault E (Suc (Suc (w_stmt w))) = NoFault"
  by (simp_all add: answers_from_def)

lemma CreateOrder_cached:
  assumes "create_input_ok E params" and "uuid_laws E" and "answers_from E w" and "keys_ok (w_db w)"
    and "k \<in> set (tbl_idempotency_keys (w_db w))" and "key_of E (cop_UserID params) (cop_IdempotencyKey params) k"
    and "same_request (cop_Method params) (cop_Path params) (order_hash E params) k"
    and "IdempotencyKey_ResourceID k = Some (Order_ID r)" and "r \<in> set (tbl_orders (w_db w))"
  shows "CreateOrder E params w = (Inr \<lparr>cor_Order = r, cor_StatusCode = reply_code k, cor_Cached = True\<rparr>,
    w\<lparr>w_stmt := Suc (Suc (w_stmt w))\<rparr>)"
proof -
  let ?w1 = "w\<lparr>w_stmt := Suc (w_stmt w)\<rparr>"
  note found = lookup_found [OF answers_fromD(1) [OF assms(3)] assms(4-6)]
  have "store_GetOrder E (uuid_String E (Order_ID r)) ?w1 = (Inr r, ?w1\<lparr>w_stmt := Suc (w_stmt ?w1)\<rparr>)"
    by (rule lookup_order) (use assms in simp_all)
  then show ?thesis
    using assms(7,8)
    by (simp add: CreateOrder_unfold [OF assms(1)] bindM_def tryM_def found CreateOrder_replay_def
        same_request_def uuid_StringOpt_def returnM_def reply_code_def Let_def)
qed

lemma CreateOrder_conflict:
  assumes "create_input_ok E params" and "answers_from E w" and "keys_ok (w_db w)"
    and "k \<in> set (tbl_idempotency_keys (w_db w))" and "key_of E (cop_UserID params) (cop_IdempotencyKey params) k"
    and "\<not> same_request (cop_Method params) (cop_Path params) (order_hash E params) k"
  shows "CreateOrder E params w = (Inl ErrIdempotencyConflict, w\<lparr>w_stmt := Suc (w_stmt w)\<rparr>)"
proof -
  note found = lookup_found [OF answers_fromD(1) [OF assms(2)] assms(3-5)]
  show ?thesis
    using assms(6)
    by (auto simp: CreateOrder_unfold [OF assms(1)] bindM_def tryM_def found CreateOrder_replay_def
        same_request_def throwM_def)
qed

definition pay_input_ok :: "PayOrderParams \<Rightarrow> bool" where
  "pay_input_ok params \<longleftrightarrow> pop_UserID params \<noteq> '''' \<and> pop_OrderID params \<noteq> '''' \<and>
     TrimSpace (pop_IdempotencyKey params) \<noteq> ''''"

lemma PayOrder_input:
  assumes "PayOrder E params w = (v, w')" and "\<not> pay_input_ok params"
  shows "v \<in> {Inl ErrIdempotencyKeyRequired, Inl ErrInvalidInput}" and "w' = w"
  using assms by (auto simp: PayOrder_def Let_def pay_input_ok_def run_iff)

lemma PayOrder_unfold:
  assumes "pay_input_ok params"
  shows "PayOrder E params =
    bindM (tryM (store_GetIdempotencyKey E (pop_UserID params) (TrimSpace (pop_IdempotencyKey params)))) (\<lambda>found.
      case found of
        Inr existing \<Rightarrow> PayOrder_replay E params (pay_hash E params) existing
      | Inl _ \<Rightarrow>
          bindM (WithTx E (PayOrder_tx E params (TrimSpace (pop_IdempotencyKey params)) (pay_hash E params))) (\<lambda>result.
          bindM (Inc ''order_service_payments_total'' [Payment_Status (por_Payment result)]) (\<lambda>_.
          returnM result)))"
  using assms unfolding PayOrder_def Let_def pay_input_ok_def pay_hash_def by auto

lemma PayOrder_cached:
  assumes "pay_input_ok params" and "uuid_laws E" and "answers_from E w" and "keys_ok (w_db w)"
    and "k \<in> set (tbl_idempotency_keys (w_db w))" and "key_of E (pop_UserID params) (pop_IdempotencyKey params) k"
    and "same_request (pop_Method params) (pop_Path params) (pay_hash E params) k"
    and "IdempotencyKey_ResourceID k = Some (Payment_ID p)" and "p \<in> set (tbl_payments (w_db w))"
    and "r \<in> set (tbl_orders (w_db w))" and "Payment_OrderID p = Order_ID r"
  shows "PayOrder E params w = (Inr \<lparr>por_Order = r, por_Payment = p, por_StatusCode = reply_code k,
    por_Cached = True\<rparr>, w\<lparr>w_stmt := Suc (Suc (Suc (w_stmt w)))\<rparr>)"
proof -
  let ?w1 = "w\<lparr>w_stmt := Suc (w_stmt w)\<rparr>"
  let ?w2 = "w\<lparr>w_stmt := Suc (Suc (w_stmt w))\<rparr>"
  note found = lookup_found [OF answers_fromD(1) [OF assms(3)] assms(4-6)]
  have "store_GetPayment E (uuid_String E (Payment_ID p)) ?w1 = (Inr p, ?w1\<lparr>w_stmt := Suc (w_stmt ?w1)\<rparr>)"
    by (rule lookup_payment) (use assms in simp_all)
  moreover have "store_GetOrder E (uuid_String E (Order_ID r)) ?w2 = (Inr r, ?w2\<lparr>w_stmt := Suc (w_stmt ?w2)\<rparr>)"
    by (rule lookup_order) (use assms in simp_all)
  ultimately show ?thesis
    using assms(7,8,11)
    by (simp add: PayOrder_unfold [OF assms(1)] bindM_def tryM_def found PayOrder_replay_def
        same_request_def uuid_StringOpt_def returnM_def reply_code_def Let_def)
qed

lemma PayOrder_conflict:
  assumes "pay_input_ok params" and "answers_from E w" and "keys_ok (w_db w)"
    and "k \<in> set (tbl_idempotency_keys (w_db w))" and "key_of E (pop_UserID params) (pop_IdempotencyKey params) k"
    and "\<not> same_request (pop_Method params) (pop_Path params) (pay_hash E params) k"
  shows "PayOrder E params w = (Inl ErrIdempotencyConflict, w\<lparr>w_stmt := Suc (w_stmt w)\<rparr>)"
proof -
  note found = lookup_found [OF answers_fromD(1) [OF assms(2)] assms(3-5)]
  show ?thesis
    using assms(6)
    by (auto simp: PayOrder_unfold [OF assms(1)] bindM_def tryM_def found PayOrder_replay_def
        same_request_def throwM_def)
qed

text \<open>
  What a call leaves behind when it returned a result or changed the database: the key row of
  the request, and the row it stands for.
\<close>

lemma reply_code_new: "IdempotencyKey_StatusCode k = Some c \<Longrightarrow> 0 < c \<Longrightarrow> reply_code k = c"
  by (simp add: reply_code_def int4_Int32_def)

lemma idempotent_cases:
  assumes "bindM (tryM m) (\<lambda>found. case found of Inr k \<Rightarrow> replay k | Inl _ \<Rightarrow> rest) w = (v, w')"
  obtains (replay) k w1 where "m w = (Inr k, w1)" and "replay k w1 = (v, w')"
  | (fresh) e w1 where "m w = (Inl e, w1)" and "rest w1 = (v, w')"
proof -
  obtain f w1 where "m w = (f, w1)" by (metis surj_pair)
  with assms that show thesis by (cases f) (auto simp: bindM_def tryM_def)
qed

lemma lookup_frame:
  assumes "store_GetIdempotencyKey E u k w = (r, w1)"
  shows "w_db w1 = w_db w" and "w_uuid w1 = w_uuid w"
proof -
  show "w_db w1 = w_db w" by (rule same_dbD [OF keeps_reads(4) assms])
  show "w_uuid w1 = w_uuid w"
    using assms by (cases r) (auto simp: store_GetIdempotencyKey_def run_iff dest: exec_frame)
qed

lemma WithTx_took_effect:
  fixes w :: "'z world_scheme"
  assumes "WithTx E fn w = (v, w')" and "(\<exists>x. v = Inr x) \<or> w_db w' \<noteq> w_db w"
  obtains x and w1 w2 :: "'z world_scheme" where "w_db w1 = w_db w" and "w_tx w1 = Some (db_now E (w_stmt w))"
    and "w_uuid w1 = w_uuid w" and "fn w1 = (Inr x, w2)" and "w_db w' = w_db w2" and "\<And>y. v = Inr y \<Longrightarrow> y = x"
  using assms(1)
proof (cases rule: WithTx_cases)
  case (no_begin e)
  with assms(2) begin_tx_Inl show ?thesis by auto
next
  case (rolled_back e w1 w2)
  with assms(2) show ?thesis by (auto simp: rollback_tx_def)
next
  case (no_commit e x w1 w2)
  then have "w_db w' = w_db w2" using assms(2) commit_tx_Inl(1) [OF no_commit(3)] by auto
  with no_commit show ?thesis using that [of w1 x w2] begin_tx_InrD [OF no_commit(1)] by simp
next
  case (committed x w1 w2)
  show ?thesis
    by (rule that [OF begin_tx_InrD(1,2,4) [OF committed(1)] committed(2)])
      (simp_all add: commit_tx_Inr(1) [OF committed(3)] committed(4))
qed

lemma CreateOrder_fresh:
  assumes "WithTx E (CreateOrder_tx E params key cur ds hash) w = (v, w')" and "uuid_laws E"
    and "(\<exists>x. v = Inr x) \<or> w_db w' \<noteq> w_db w"
  obtains r e k where "w_db w' = add_created r e k (w_db w)"
    and "uuid_Scan E (cop_UserID params) = Some (Order_UserID r)"
    and "Order_ID r \<notin> Order_ID ` set (tbl_orders (w_db w))"
    and "Order_Status r = OrderStatusPendingPayment"
    and "Order_AmountCents r = cop_AmountCents params"
    and "Order_Currency r = cur" and "Order_Description r = pg_Text ds"
    and "new_event E (w_db w) e AggregateTypeOrder (Order_ID r) EventTypeOrderCreated r"
    and "new_key (w_db w) k ''order'' (Order_ID r) StatusCreated"
    and "created_key params key hash r k" and "\<And>x. v = Inr x \<Longrightarrow> x = r"
proof (rule WithTx_took_effect [OF assms(1,3)])
  fix x w1 w2
  assume db: "w_db w1 = w_db w" "w_db w' = w_db w2" and v: "\<And>y. v = Inr y \<Longrightarrow> y = x"
    and tx: "CreateOrder_tx E params key cur ds hash w1 = (Inr x, w2)"
  show thesis
    by (rule CreateOrder_tx_spec [OF tx assms(2)]) (use that [of x] db v in \<open>simp del: add_created_tables\<close>)
qed

lemma PayOrder_fresh:
  assumes "WithTx E (PayOrder_tx E params key hash) w = (v, w')" and "uuid_laws E"
    and "(\<exists>x. v = Inr x) \<or> w_db w' \<noteq> w_db w"
  obtains r p e k t where "r \<in> set (tbl_orders (w_db w))"
    and "uuid_Scan E (pop_OrderID params) = Some (Order_ID r)"
    and "may_act E (pop_Role params) (pop_UserID params) r" and "payable r"
    and "w_db w' = add_payment p (order_status_after (Payment_Status p)) t e k (w_db w)"
    and "new_payment (w_db w) p r (Payment_Status p)"
    and "Payment_Status p = fst (mockPayment (uuid_New E (w_uuid w)))"
    and "new_event E (w_db w) e AggregateTypePayment (Payment_ID p)
      (payment_event_type (Payment_Status p)) r"
    and "new_key (w_db w) k ''payment'' (Payment_ID p) StatusOK" and "paid_key E params key hash k"
    and "\<And>x. v = Inr x \<Longrightarrow> x = \<lparr>por_Order = set_status (order_status_after (Payment_Status p)) t r,
      por_Payment = p, por_StatusCode = StatusOK, por_Cached = False\<rparr>"
proof (rule WithTx_took_effect [OF assms(1,3)])
  fix x w1 w2
  assume db: "w_db w1 = w_db w" "w_db w' = w_db w2" and v: "\<And>y. v = Inr y \<Longrightarrow> y = x"
    and t: "w_tx w1 = Some (db_now E (w_stmt w))" and u: "w_uuid w1 = w_uuid w"
    and tx: "PayOrder_tx E params key hash w1 = (Inr x, w2)"
  have tx': "w_tx w1 \<noteq> None" using t by simp
  show thesis
    by (rule PayOrder_tx_spec [OF tx assms(2) tx'])
      (use that [of _ _ "stmt_time E w1"] db v u in \<open>simp del: add_payment_tables\<close>)
qed

lemma CancelOrder_fresh:
  assumes "WithTx E (CancelOrder_tx E params) w = (v, w')" and "uuid_laws E"
    and "(\<exists>x. v = Inr x) \<or> w_db w' \<noteq> w_db w"
  obtains r e t where "r \<in> set (tbl_orders (w_db w))"
    and "uuid_Scan E (xop_OrderID params) = Some (Order_ID r)"
    and "may_act E (xop_Role params) (xop_UserID params) r" and "payable r"
    and "w_db w' = add_cancelled (Order_ID r) t e (w_db w)"
    and "new_event E (w_db w) e AggregateTypeOrder (Order_ID r) EventTypeOrderCancelled r"
    and "\<And>x. v = Inr x \<Longrightarrow> x = set_status OrderStatusCancelled t r"
proof (rule WithTx_took_effect [OF assms(1,3)])
  fix x w1 w2
  assume db: "w_db w1 = w_db w" "w_db w' = w_db w2" and v: "\<And>y. v = Inr y \<Longrightarrow> y = x"
    and t: "w_tx w1 = Some (db_now E (w_stmt w))"
    and tx: "CancelOrder_tx E params w1 = (Inr x, w2)"
  have tx': "w_tx w1 \<noteq> None" using t by simp
  show thesis
    by (rule CancelOrder_tx_spec [OF tx assms(2) tx'])
      (use that [of _ "stmt_time E w1"] db v in \<open>simp del: add_cancelled_tables\<close>)
qed

lemma CreateOrder_left_key:
  assumes "CreateOrder E params w = (v, w')" and "uuid_laws E" and "(\<exists>res. v = Inr res) \<or> w_db w' \<noteq> w_db w"
  obtains k r where "k \<in> set (tbl_idempotency_keys (w_db w'))"
    and "key_of E (cop_UserID params) (cop_IdempotencyKey params) k"
    and "same_request (cop_Method params) (cop_Path params) (order_hash E params) k"
    and "IdempotencyKey_ResourceID k = Some (Order_ID r)" and "r \<in> set (tbl_orders (w_db w'))"
    and "\<And>res. v = Inr res \<Longrightarrow> cor_Order res = r \<and> cor_StatusCode res = reply_code k"
    and "create_input_ok E params"
    and "w_db w' \<noteq> w_db w \<longrightarrow> tbl_orders (w_db w') = tbl_orders (w_db w) @ [r] \<and> reply_code k = StatusCreated"
proof -
  have input: "create_input_ok E params" using CreateOrder_input [OF assms(1)] assms(3) by auto
  let ?key = "TrimSpace (cop_IdempotencyKey params)"
  obtain found w1 where f: "store_GetIdempotencyKey E (cop_UserID params) ?key w = (found, w1)"
    by (metis surj_pair)
  note w1 = same_dbD [OF keeps_reads(4) f]
  show thesis
  proof (cases found)
    case (Inr k)
    note k = store_GetIdempotencyKey_InrD [OF f [unfolded Inr]]
    have run: "CreateOrder_replay E params (order_hash E params) k w1 = (v, w')"
      using assms(1) f Inr by (simp add: CreateOrder_unfold [OF input] bindM_def tryM_def)
    have db: "w_db w' = w_db w" using same_dbD [OF keeps_replay(1) run] w1 by simp
    with assms(3) obtain res where res: "v = Inr res" by auto
    with run obtain r where r: "same_request (cop_Method params) (cop_Path params) (order_hash E params) k"
      "store_GetOrder E (uuid_StringOpt E (IdempotencyKey_ResourceID k)) w1 = (Inr r, w')"
      "cor_Order res = r" "cor_StatusCode res = reply_code k"
      by (auto simp: CreateOrder_replay_def same_request_def run_iff Let_def reply_code_def split: if_splits)
    note r' = store_GetOrder_InrD [OF r(2)]
    then have "IdempotencyKey_ResourceID k = Some (Order_ID r)"
      using assms(2) by (cases "IdempotencyKey_ResourceID k") (auto simp: uuid_StringOpt_def)
    then show thesis using that [of k r] k r r' db w1 res input by (simp add: key_of_def)
  next
    case (Inl e)
    obtain x w2 where tx: "WithTx E (CreateOrder_tx E params ?key (order_currency E params)
        (TrimSpace (cop_Description params)) (order_hash E params)) w1 = (x, w2)" by (metis surj_pair)
    have run: "bindM (WithTx E (CreateOrder_tx E params ?key (order_currency E params)
        (TrimSpace (cop_Description params)) (order_hash E params))) (\<lambda>createdOrder.
          bindM (Inc ''order_service_orders_created_total'' []) (\<lambda>_.
          returnM \<lparr>cor_Order = createdOrder, cor_StatusCode = StatusCreated, cor_Cached = False\<rparr>)) w1 = (v, w')"
      using assms(1) f Inl by (simp add: CreateOrder_unfold [OF input] bindM_def tryM_def)
    from run tx have x: "w_db w' = w_db w2"
      "v = (case x of Inl e \<Rightarrow> Inl e | Inr r \<Rightarrow> Inr \<lparr>cor_Order = r, cor_StatusCode = StatusCreated, cor_Cached = False\<rparr>)"
      by (auto simp: bindM_def Inc_def modifyM_def returnM_def split: sum.splits)
    have eff: "(\<exists>r. x = Inr r) \<or> w_db w2 \<noteq> w_db w1" using assms(3) x w1 by (auto split: sum.splits)
    show thesis
    proof (rule CreateOrder_fresh [OF tx assms(2) eff])
      fix r e k assume "w_db w2 = add_created r e k (w_db w1)"
        "uuid_Scan E (cop_UserID params) = Some (Order_UserID r)"
        "new_key (w_db w1) k ''order'' (Order_ID r) StatusCreated"
        "created_key params ?key (order_hash E params) r k" "\<And>y. x = Inr y \<Longrightarrow> y = r"
      then show thesis
        using that [of k r] x w1 input reply_code_new [of k StatusCreated]
        by (auto simp: key_of_def same_request_def created_key_def new_key_def split: sum.splits)
    qed
  qed
qed

lemma PayOrder_left_key:
  assumes "PayOrder E params w = (v, w')" and "uuid_laws E" and "(\<exists>res. v = Inr res) \<or> w_db w' \<noteq> w_db w"
  obtains k p r where "k \<in> set (tbl_idempotency_keys (w_db w'))"
    and "key_of E (pop_UserID params) (pop_IdempotencyKey params) k"
    and "same_request (pop_Method params) (pop_Path params) (pay_hash E params) k"
    and "IdempotencyKey_ResourceID k = Some (Payment_ID p)" and "p \<in> set (tbl_payments (w_db w'))"
    and "r \<in> set (tbl_orders (w_db w'))" and "Payment_OrderID p = Order_ID r"
    and "\<And>res. v = Inr res \<Longrightarrow> por_Payment res = p \<and> por_Order res = r \<and> por_StatusCode res = reply_code k"
    and "pay_input_ok params"
    and "w_db w' \<noteq> w_db w \<longrightarrow> tbl_payments (w_db w') = tbl_payments (w_db w) @ [p] \<and> reply_code k = StatusOK"
proof -
  have input: "pay_input_ok params" using PayOrder_input [OF assms(1)] assms(3) by auto
  let ?key = "TrimSpace (pop_IdempotencyKey params)"
  obtain found w1 where f: "store_GetIdempotencyKey E (pop_UserID params) ?key w = (found, w1)"
    by (metis surj_pair)
  note w1 = same_dbD [OF keeps_reads(4) f]
  show thesis
  proof (cases found)
    case (Inr k)
    note k = store_GetIdempotencyKey_InrD [OF f [unfolded Inr]]
    have run: "PayOrder_replay E params (pay_hash E params) k w1 = (v, w')"
      using assms(1) f Inr by (simp add: PayOrder_unfold [OF input] bindM_def tryM_def)
    have db: "w_db w' = w_db w" using same_dbD [OF keeps_replay(2) run] w1 by simp
    with assms(3) obtain res where res: "v = Inr res" by auto
    with run obtain p r w2 where r: "same_request (pop_Method params) (pop_Path params) (pay_hash E params) k"
      "store_GetPayment E (uuid_StringOpt E (IdempotencyKey_ResourceID k)) w1 = (Inr p, w2)"
      "store_GetOrder E (uuid_String E (Payment_OrderID p)) w2 = (Inr r, w')"
      "por_Payment res = p" "por_Order res = r" "por_StatusCode res = reply_code k"
      by (auto simp: PayOrder_replay_def same_request_def run_iff Let_def reply_code_def split: if_splits)
    note p' = store_GetPayment_InrD [OF r(2)] and r' = store_GetOrder_InrD [OF r(3)]
    then have "IdempotencyKey_ResourceID k = Some (Payment_ID p)"
      using assms(2) by (cases "IdempotencyKey_ResourceID k") (auto simp: uuid_StringOpt_def)
    then show thesis using that [of k p r] k r p' r' db w1 res input assms(2) by (simp add: key_of_def)
  next
    case (Inl e)
    obtain x w2 where tx: "WithTx E (PayOrder_tx E params ?key (pay_hash E params)) w1 = (x, w2)"
      by (metis surj_pair)
    have run: "bindM (WithTx E (PayOrder_tx E params ?key (pay_hash E params))) (\<lambda>result.
          bindM (Inc ''order_service_payments_total'' [Payment_Status (por_Payment result)]) (\<lambda>_.
          returnM result)) w1 = (v, w')"
      using assms(1) f Inl by (simp add: PayOrder_unfold [OF input] bindM_def tryM_def)
    from run tx have x: "w_db w' = w_db w2" "v = x"
      by (auto simp: bindM_def Inc_def modifyM_def returnM_def split: sum.splits)
    have eff: "(\<exists>r. x = Inr r) \<or> w_db w2 \<noteq> w_db w1" using assms(3) x w1 by auto
    show thesis
    proof (rule PayOrder_fresh [OF tx assms(2) eff])
      fix r p e k t assume a: "r \<in> set (tbl_orders (w_db w1))"
        "w_db w2 = add_payment p (order_status_after (Payment_Status p)) t e k (w_db w1)"
        "new_payment (w_db w1) p r (Payment_Status p)"
        "new_key (w_db w1) k ''payment'' (Payment_ID p) StatusOK"
        "paid_key E params ?key (pay_hash E params) k"
        "\<And>y. x = Inr y \<Longrightarrow> y = \<lparr>por_Order = set_status (order_status_after (Payment_Status p)) t r,
          por_Payment = p, por_StatusCode = StatusOK, por_Cached = False\<rparr>"
      let ?r = "set_status (order_status_after (Payment_Status p)) t r"
      have r: "?r \<in> set (tbl_orders (w_db w'))" "Payment_OrderID p = Order_ID ?r"
        using a(1,3) set_order_memI [OF a(1), of "Order_ID r"] by (simp_all add: x(1) a(2) new_payment_def)
      have "reply_code k = StatusOK" using a(4) by (intro reply_code_new) (simp_all add: new_key_def)
      then show thesis
        by (intro that [of k p ?r]) (use r x w1 input a(2,4,5) in
          \<open>auto simp: key_of_def same_request_def paid_key_def new_key_def dest: a(6)\<close>)
    qed
  qed
qed

section \<open>The guarantees\<close>

lemma service_steps_grow:
  assumes "(service_step E cfg)\<^sup>*\<^sup>* w w'" and "ext_laws E" and "schema_ok (w_db w)"
  shows "grows (w_db w) (w_db w')" and "schema_ok (w_db w')"
  using services.steps_grow [OF assms] services.steps_schema [OF assms] by simp_all

lemma service_step_create_schema:
  "CreateOrder E cp w = (v, w') \<Longrightarrow> ext_laws E \<Longrightarrow> schema_ok (w_db w) \<Longrightarrow> schema_ok (w_db w')"
  "PayOrder E pp w = (v', w') \<Longrightarrow> ext_laws E \<Longrightarrow> schema_ok (w_db w) \<Longrightarrow> schema_ok (w_db w')"
  by (blast intro: service_step_schema service_step.create service_step.pay)+

lemma grows_order: "grows d d' \<Longrightarrow> r \<in> set (tbl_orders d) \<Longrightarrow> \<exists>r' \<in> set (tbl_orders d'). same_order r r'"
  by (simp add: grows_def)

lemma grows_key: "grows d d' \<Longrightarrow> k \<in> set (tbl_idempotency_keys d) \<Longrightarrow> k \<in> set (tbl_idempotency_keys d')"
  by (auto simp: grows_def)

lemma grows_payment: "grows d d' \<Longrightarrow> p \<in> set (tbl_payments d) \<Longrightarrow> p \<in> set (tbl_payments d')"
  by (auto simp: grows_def)

text \<open>
  C8: creating an order is idempotent. Once a call of \<^verbatim>\<open>CreateOrder\<close> has returned an order, or has
  changed the database at all (its answer may have been lost), the same request made again,
  after any number of steps of any process, gives that order with the status code of the first
  answer, marked as cached, and changes nothing. The order may have moved on in the meantime;
  its identity, owner, amount, currency and description are the same.
\<close>

theorem CreateOrder_idempotent:
  assumes "ext_laws E" and "schema_ok (w_db w)"
    and first: "CreateOrder E params w = (v, w1)" "(\<exists>res. v = Inr res) \<or> w_db w1 \<noteq> w_db w"
    and later: "(service_step E cfg)\<^sup>*\<^sup>* w1 w2" "answers_from E w2"
  shows "\<exists>r code w3. CreateOrder E params w2 =
      (Inr \<lparr>cor_Order = r, cor_StatusCode = code, cor_Cached = True\<rparr>, w3) \<and> w_db w3 = w_db w2 \<and>
    (\<forall>res. v = Inr res \<longrightarrow> same_order (cor_Order res) r \<and> cor_StatusCode res = code) \<and>
    (w_db w1 \<noteq> w_db w \<longrightarrow>
      (\<exists>new. tbl_orders (w_db w1) = tbl_orders (w_db w) @ [new] \<and> same_order new r) \<and> code = StatusCreated)"
proof -
  have laws: "uuid_laws E" using assms(1) by (simp add: ext_laws_def)
  have ok: "schema_ok (w_db w1)" using first(1) assms(1,2) by (rule service_step_create_schema)
  note grow = service_steps_grow [OF later(1) assms(1) ok]
  obtain k r where k: "k \<in> set (tbl_idempotency_keys (w_db w1))"
    "key_of E (cop_UserID params) (cop_IdempotencyKey params) k"
    "same_request (cop_Method params) (cop_Path params) (order_hash E params) k"
    "IdempotencyKey_ResourceID k = Some (Order_ID r)" "r \<in> set (tbl_orders (w_db w1))"
    "\<And>res. v = Inr res \<Longrightarrow> cor_Order res = r \<and> cor_StatusCode res = reply_code k"
    "create_input_ok E params"
    "w_db w1 \<noteq> w_db w \<longrightarrow> tbl_orders (w_db w1) = tbl_orders (w_db w) @ [r] \<and> reply_code k = StatusCreated"
    by (rule CreateOrder_left_key [OF first(1) laws first(2)]) blast
  obtain r' where r': "r' \<in> set (tbl_orders (w_db w2))" "same_order r r'"
    using grows_order [OF grow(1) k(5)] by blast
  have "IdempotencyKey_ResourceID k = Some (Order_ID r')" using k(4) r'(2) by (simp add: same_orderD)
  from CreateOrder_cached [OF k(7) laws later(2) _ grows_key [OF grow(1) k(1)] k(2,3) this r'(1)] grow(2)
  show ?thesis using k(6,8) r'(2) by (fastforce simp: schema_ok_def)
qed

text \<open>
  C9: paying is idempotent in the same sense: the repeated request gives the payment that was
  made by the first one, whatever has happened since, and no second payment.
\<close>

theorem PayOrder_idempotent:
  assumes "ext_laws E" and "schema_ok (w_db w)"
    and first: "PayOrder E params w = (v, w1)" "(\<exists>res. v = Inr res) \<or> w_db w1 \<noteq> w_db w"
    and later: "(service_step E cfg)\<^sup>*\<^sup>* w1 w2" "answers_from E w2"
  shows "\<exists>p r code w3. PayOrder E params w2 =
      (Inr \<lparr>por_Order = r, por_Payment = p, por_StatusCode = code, por_Cached = True\<rparr>, w3) \<and>
    w_db w3 = w_db w2 \<and>
    (\<forall>res. v = Inr res \<longrightarrow> por_Payment res = p \<and> same_order (por_Order res) r \<and> por_StatusCode res = code) \<and>
    (w_db w1 \<noteq> w_db w \<longrightarrow> tbl_payments (w_db w1) = tbl_payments (w_db w) @ [p] \<and> code = StatusOK)"
proof -
  have laws: "uuid_laws E" using assms(1) by (simp add: ext_laws_def)
  have ok: "schema_ok (w_db w1)" using first(1) assms(1,2) by (rule service_step_create_schema)
  note grow = service_steps_grow [OF later(1) assms(1) ok]
  obtain k p r where k: "k \<in> set (tbl_idempotency_keys (w_db w1))"
    "key_of E (pop_UserID params) (pop_IdempotencyKey params) k"
    "same_request (pop_Method params) (pop_Path params) (pay_hash E params) k"
    "IdempotencyKey_ResourceID k = Some (Payment_ID p)" "p \<in> set (tbl_payments (w_db w1))"
    "r \<in> set (tbl_orders (w_db w1))" "Payment_OrderID p = Order_ID r"
    "\<And>res. v = Inr res \<Longrightarrow> por_Payment res = p \<and> por_Order res = r \<and> por_StatusCode res = reply_code k"
    "pay_input_ok params"
    "w_db w1 \<noteq> w_db w \<longrightarrow> tbl_payments (w_db w1) = tbl_payments (w_db w) @ [p] \<and> reply_code k = StatusOK"
    by (rule PayOrder_left_key [OF first(1) laws first(2)]) blast
  obtain r' where r': "r' \<in> set (tbl_orders (w_db w2))" "same_order r r'"
    using grows_order [OF grow(1) k(6)] by blast
  have "Payment_OrderID p = Order_ID r'" using k(7) r'(2) by (simp add: same_orderD)
  from PayOrder_cached [OF k(9) laws later(2) _ grows_key [OF grow(1) k(1)] k(2-4)
      grows_payment [OF grow(1) k(5)] r'(1) this] grow(2)
  show ?thesis using k(8,10) r'(2) by (fastforce simp: schema_ok_def)
qed

text \<open>
  C10: a key that was used for another request is refused: the same user and key with another
  method, path or body gets a conflict, and nothing changes.
\<close>

theorem idempotency_conflict:
  assumes "answers_from E w" and "keys_ok (w_db w)" and "k \<in> set (tbl_idempotency_keys (w_db w))"
  shows "(create_input_ok E cp \<and> key_of E (cop_UserID cp) (cop_IdempotencyKey cp) k \<and>
      \<not> same_request (cop_Method cp) (cop_Path cp) (order_hash E cp) k \<longrightarrow>
      (\<exists>w'. CreateOrder E cp w = (Inl ErrIdempotencyConflict, w') \<and> w_db w' = w_db w)) \<and>
    (pay_input_ok pp \<and> key_of E (pop_UserID pp) (pop_IdempotencyKey pp) k \<and>
      \<not> same_request (pop_Method pp) (pop_Path pp) (pay_hash E pp) k \<longrightarrow>
      (\<exists>w'. PayOrder E pp w = (Inl ErrIdempotencyConflict, w') \<and> w_db w' = w_db w))"
  using CreateOrder_conflict [OF _ assms] PayOrder_conflict [OF _ assms] by auto

text \<open>
  C11: two requests with the same user and key cannot both create. Requests that looked the key up
  before either of them committed both go on to their transaction; whichever commits second,
  after any steps in between, fails and changes nothing.
\<close>

theorem duplicate_create_refused:
  assumes "ext_laws E" and "schema_ok (w_db w)" and "no_lost_answer E"
    and first: "WithTx E (CreateOrder_tx E p1 key c1 d1 h1) w = (Inr r, w1)"
    and later: "(service_step E cfg)\<^sup>*\<^sup>* w1 w2"
    and second: "WithTx E (CreateOrder_tx E p2 key c2 d2 h2) w2 = (v, w3)"
    and same: "uuid_Scan E (cop_UserID p2) = uuid_Scan E (cop_UserID p1)"
  shows "(\<exists>e. v = Inl e) \<and> w_db w3 = w_db w2"
proof -
  have laws: "uuid_laws E" using assms(1) by (simp add: ext_laws_def)
  have ok: "schema_ok (w_db w1)"
    using service_step_schema [OF service_step.create_late [OF first] assms(1,2)] .
  note grow = service_steps_grow [OF later assms(1) ok]
  obtain r1 e k where 1: "w_db w1 = add_created r1 e k (w_db w)"
    "uuid_Scan E (cop_UserID p1) = Some (Order_UserID r1)" "created_key p1 key h1 r1 k"
    by (rule CreateOrder_fresh [OF first laws]) auto
  then have k: "k \<in> set (tbl_idempotency_keys (w_db w2))" using grow(1) by (auto intro: grows_key)
  have err: "\<exists>e. v = Inl e"
  proof (rule ccontr)
    assume "\<nexists>e. v = Inl e"
    then have "\<exists>x. v = Inr x" by (cases v) auto
    then obtain r2 e2 k2 where 2: "uuid_Scan E (cop_UserID p2) = Some (Order_UserID r2)"
      "new_key (w_db w2) k2 ''order'' (Order_ID r2) StatusCreated" "created_key p2 key h2 r2 k2"
      using CreateOrder_fresh [OF second laws] by metis
    have "idem_key k2 = idem_key k" using 1 2 same by (simp add: created_key_def)
    with 2(2) k show False by (simp add: new_key_def rev_image_eqI)
  qed
  then show ?thesis using WithTx_error_same_db [OF assms(3)] second by blast
qed

section \<open>What the operations do\<close>

text \<open>
  C5: a payment attempt that is not a repetition. It is made on an order that exists, by its owner or
  an admin, and only while the order awaits payment or after a failed attempt. The provider's
  verdict is that of the mock on the new payment's identifier. One transaction adds the
  payment for the full amount, moves the order to paid or failed, and adds the event for the
  topic and the idempotency key; nothing else changes, and the caller gets exactly what was
  stored.
\<close>

theorem PayOrder_pays:
  assumes "PayOrder E params w = (Inr res, w')" and "uuid_laws E" and "\<not> por_Cached res"
  shows "\<exists>r t e k. r \<in> set (tbl_orders (w_db w)) \<and> uuid_Scan E (pop_OrderID params) = Some (Order_ID r) \<and>
    may_act E (pop_Role params) (pop_UserID params) r \<and> payable r \<and>
    Payment_Status (por_Payment res) = fst (mockPayment (uuid_New E (w_uuid w))) \<and>
    new_payment (w_db w) (por_Payment res) r (Payment_Status (por_Payment res)) \<and>
    por_Order res = set_status (order_status_after (Payment_Status (por_Payment res))) t r \<and>
    por_StatusCode res = StatusOK \<and>
    new_event E (w_db w) e AggregateTypePayment (Payment_ID (por_Payment res))
      (payment_event_type (Payment_Status (por_Payment res))) r \<and>
    new_key (w_db w) k ''payment'' (Payment_ID (por_Payment res)) StatusOK \<and>
    key_of E (pop_UserID params) (pop_IdempotencyKey params) k \<and>
    same_request (pop_Method params) (pop_Path params) (pay_hash E params) k \<and>
    w_db w' = add_payment (por_Payment res) (order_status_after (Payment_Status (por_Payment res))) t e k (w_db w)"
proof -
  have input: "pay_input_ok params" using PayOrder_input [OF assms(1)] by auto
  let ?key = "TrimSpace (pop_IdempotencyKey params)"
  from assms(1) obtain x w1 w2 where
    f: "store_GetIdempotencyKey E (pop_UserID params) ?key w = (Inl x, w1)"
    and tx: "WithTx E (PayOrder_tx E params ?key (pay_hash E params)) w1 = (Inr res, w2)"
    and w': "w_db w' = w_db w2"
    unfolding PayOrder_unfold [OF input]
  proof (cases rule: idempotent_cases)
    case (replay k w1)
    with assms(3) show ?thesis by (auto simp: PayOrder_replay_def run_iff Let_def split: if_splits)
  qed (auto simp: run_iff)
  note w1 = lookup_frame [OF f]
  have eff: "(\<exists>x. (Inr res :: error + PayOrderResult) = Inr x) \<or> w_db w2 \<noteq> w_db w1" by simp
  show ?thesis
  proof (rule PayOrder_fresh [OF tx assms(2) eff])
    fix r p e k t
    assume a: "r \<in> set (tbl_orders (w_db w1))" "uuid_Scan E (pop_OrderID params) = Some (Order_ID r)"
      "may_act E (pop_Role params) (pop_UserID params) r" "payable r"
      "w_db w2 = add_payment p (order_status_after (Payment_Status p)) t e k (w_db w1)"
      "new_payment (w_db w1) p r (Payment_Status p)"
      "Payment_Status p = fst (mockPayment (uuid_New E (w_uuid w1)))"
      "new_event E (w_db w1) e AggregateTypePayment (Payment_ID p) (payment_event_type (Payment_Status p)) r"
      "new_key (w_db w1) k ''payment'' (Payment_ID p) StatusOK" "paid_key E params ?key (pay_hash E params) k"
      "\<And>x. Inr res = Inr x \<Longrightarrow> x = \<lparr>por_Order = set_status (order_status_after (Payment_Status p)) t r,
        por_Payment = p, por_StatusCode = StatusOK, por_Cached = False\<rparr>"
    have res: "por_Payment res = p" "por_StatusCode res = StatusOK"
      "por_Order res = set_status (order_status_after (Payment_Status p)) t r"
      using a(11) [OF refl] by simp_all
    have "key_of E (pop_UserID params) (pop_IdempotencyKey params) k"
      "same_request (pop_Method params) (pop_Path params) (pay_hash E params) k"
      using a(10) by (simp_all add: paid_key_def key_of_def same_request_def)
    with a(1-9) show ?thesis unfolding res w' w1 by (intro exI [of _ r] exI [of _ t] exI [of _ e] exI [of _ k]) blast
  qed
qed

text \<open>
  C6: creating an order that is not a repetition. One transaction adds an order with a new
  identifier for the caller, awaiting payment, with the amount, the currency in upper case and
  the trimmed description of the request, together with its event and its idempotency key;
  nothing else changes.
\<close>

theorem CreateOrder_creates:
  assumes "CreateOrder E params w = (Inr res, w')" and "uuid_laws E" and "\<not> cor_Cached res"
  shows "\<exists>e k. w_db w' = add_created (cor_Order res) e k (w_db w) \<and>
    Order_ID (cor_Order res) \<notin> Order_ID ` set (tbl_orders (w_db w)) \<and>
    uuid_Scan E (cop_UserID params) = Some (Order_UserID (cor_Order res)) \<and>
    Order_Status (cor_Order res) = OrderStatusPendingPayment \<and>
    Order_AmountCents (cor_Order res) = cop_AmountCents params \<and> 0 < cop_AmountCents params \<and>
    Order_Currency (cor_Order res) = order_currency E params \<and>
    text_String (Order_Description (cor_Order res)) = TrimSpace (cop_Description params) \<and>
    cor_StatusCode res = StatusCreated \<and>
    new_event E (w_db w) e AggregateTypeOrder (Order_ID (cor_Order res)) EventTypeOrderCreated (cor_Order res) \<and>
    new_key (w_db w) k ''order'' (Order_ID (cor_Order res)) StatusCreated \<and>
    key_of E (cop_UserID params) (cop_IdempotencyKey params) k \<and>
    same_request (cop_Method params) (cop_Path params) (order_hash E params) k"
proof -
  have input: "create_input_ok E params" using CreateOrder_input [OF assms(1)] by auto
  let ?key = "TrimSpace (cop_IdempotencyKey params)"
  from assms(1) obtain x w1 w2 r where
    f: "store_GetIdempotencyKey E (cop_UserID params) ?key w = (Inl x, w1)"
    and tx: "WithTx E (CreateOrder_tx E params ?key (order_currency E params)
      (TrimSpace (cop_Description params)) (order_hash E params)) w1 = (Inr r, w2)"
    and w': "w_db w' = w_db w2" and res: "cor_Order res = r" "cor_StatusCode res = StatusCreated"
    unfolding CreateOrder_unfold [OF input]
  proof (cases rule: idempotent_cases)
    case (replay k w1)
    with assms(3) show ?thesis by (auto simp: CreateOrder_replay_def run_iff Let_def split: if_splits)
  qed (auto simp: run_iff)
  note w1 = lookup_frame [OF f]
  have eff: "(\<exists>x. (Inr r :: error + Order) = Inr x) \<or> w_db w2 \<noteq> w_db w1" by simp
  show ?thesis
  proof (rule CreateOrder_fresh [OF tx assms(2) eff])
    fix q e k
    assume a: "w_db w2 = add_created q e k (w_db w1)"
      "uuid_Scan E (cop_UserID params) = Some (Order_UserID q)"
      "Order_ID q \<notin> Order_ID ` set (tbl_orders (w_db w1))"
      "Order_Status q = OrderStatusPendingPayment" "Order_AmountCents q = cop_AmountCents params"
      "Order_Currency q = order_currency E params"
      "Order_Description q = pg_Text (TrimSpace (cop_Description params))"
      "new_event E (w_db w1) e AggregateTypeOrder (Order_ID q) EventTypeOrderCreated q"
      "new_key (w_db w1) k ''order'' (Order_ID q) StatusCreated"
      "created_key params ?key (order_hash E params) q k" "\<And>x. Inr r = Inr x \<Longrightarrow> x = q"
    have q: "q = r" using a(11) by simp
    have "key_of E (cop_UserID params) (cop_IdempotencyKey params) k"
      "same_request (cop_Method params) (cop_Path params) (order_hash E params) k"
      using a(2,10) by (simp_all add: created_key_def key_of_def same_request_def)
    with a(1-9) input show ?thesis
      unfolding res w' w1 q by (intro exI [of _ e] exI [of _ k]) (simp add: create_input_ok_def)
  qed
qed

text \<open>
  C7: cancelling. An order that awaits payment or whose payment failed is cancelled, by its owner or
  an admin, together with its event; nothing else changes.
\<close>

theorem CancelOrder_cancels:
  assumes "CancelOrder E params w = (Inr q, w')" and "uuid_laws E"
  shows "\<exists>r t e. r \<in> set (tbl_orders (w_db w)) \<and> uuid_Scan E (xop_OrderID params) = Some (Order_ID r) \<and>
    may_act E (xop_Role params) (xop_UserID params) r \<and> payable r \<and>
    q = set_status OrderStatusCancelled t r \<and>
    new_event E (w_db w) e AggregateTypeOrder (Order_ID r) EventTypeOrderCancelled r \<and>
    w_db w' = add_cancelled (Order_ID r) t e (w_db w)"
proof -
  from assms(1) have tx: "WithTx E (CancelOrder_tx E params) w = (Inr q, w')"
    by (auto simp: CancelOrder_def run_iff split: if_splits)
  have eff: "(\<exists>x. (Inr q :: error + Order) = Inr x) \<or> w_db w' \<noteq> w_db w" by simp
  show ?thesis by (rule CancelOrder_fresh [OF tx assms(2) eff]) blast
qed

section \<open>Who may do what\<close>

lemma for_update_found:
  assumes "sql_fault E (w_stmt w) = NoFault" and "keys_ok (w_db w)"
    and "r \<in> set (tbl_orders (w_db w))" and "uuid_Scan E s = Some (Order_ID r)"
  shows "store_GetOrderForUpdate E s w = (Inr r, w\<lparr>w_stmt := Suc (w_stmt w)\<rparr>)"
proof -
  have "sql_GetOrderForUpdate (Order_ID r) t (w_db w) = Inr (r, w_db w)" for t
    using assms(2,3) by (intro orders_for_update.sel_present) (auto simp: keys_ok_def)
  with assms(1,4) show ?thesis
    by (simp add: store_GetOrderForUpdate_def bindM_run_Inr [OF Scan_run] exec_NoFault)
qed

definition refusal :: "ext \<Rightarrow> string \<Rightarrow> string \<Rightarrow> Order \<Rightarrow> error option" where
  "refusal E role user r =
     (if \<not> may_act E role user r then Some ErrOrderForbidden
      else if \<not> payable r then Some ErrOrderInvalidStatus else None)"

lemma PayOrder_tx_refused:
  assumes "sql_fault E (w_stmt w) = NoFault" and "keys_ok (w_db w)" and "r \<in> set (tbl_orders (w_db w))"
    and "uuid_Scan E (pop_OrderID params) = Some (Order_ID r)"
    and "refusal E (pop_Role params) (pop_UserID params) r = Some e"
  shows "PayOrder_tx E params key hash w = (Inl e, w\<lparr>w_stmt := Suc (w_stmt w)\<rparr>)"
proof -
  note found = for_update_found [OF assms(1-4)]
  show ?thesis
    using assms(5)
    by (cases "may_act E (pop_Role params) (pop_UserID params) r")
      (auto simp: PayOrder_tx_def bindM_def mapErrM_def found refusal_def may_act_def payable_def throwM_def
        split: if_splits cong: if_weak_cong)
qed

lemma CancelOrder_tx_refused:
  assumes "sql_fault E (w_stmt w) = NoFault" and "keys_ok (w_db w)" and "r \<in> set (tbl_orders (w_db w))"
    and "uuid_Scan E (xop_OrderID params) = Some (Order_ID r)"
    and "refusal E (xop_Role params) (xop_UserID params) r = Some e"
  shows "CancelOrder_tx E params w = (Inl e, w\<lparr>w_stmt := Suc (w_stmt w)\<rparr>)"
proof -
  note found = for_update_found [OF assms(1-4)]
  show ?thesis
    using assms(5)
    by (cases "may_act E (xop_Role params) (xop_UserID params) r")
      (auto simp: CancelOrder_tx_def bindM_def mapErrM_def found refusal_def may_act_def payable_def throwM_def
        split: if_splits cong: if_weak_cong)
qed

lemma WithTx_refused:
  assumes "answers_from E w"
    and "fn (w\<lparr>w_stmt := Suc (w_stmt w), w_tx := Some (db_now E (w_stmt w))\<rparr>) = (Inl e, w2)"
  shows "WithTx E fn w = (Inl e, rollback_tx (w_db w) w2)"
  using assms by (simp add: WithTx_def begin_tx_def Let_def)

lemma CancelOrder_refused:
  assumes "answers_from E w" and "keys_ok (w_db w)" and "r \<in> set (tbl_orders (w_db w))" and "uuid_laws E"
    and "uuid_Scan E (xop_OrderID params) = Some (Order_ID r)" and "xop_UserID params \<noteq> ''''"
    and "refusal E (xop_Role params) (xop_UserID params) r = Some e"
  shows "\<exists>w'. CancelOrder E params w = (Inl e, w') \<and> w_db w' = w_db w"
proof -
  let ?w1 = "w\<lparr>w_stmt := Suc (w_stmt w), w_tx := Some (db_now E (w_stmt w))\<rparr>"
  have "xop_OrderID params \<noteq> ''''" using assms(4,5) by auto
  moreover have "CancelOrder_tx E params ?w1 = (Inl e, ?w1\<lparr>w_stmt := Suc (w_stmt ?w1)\<rparr>)"
    by (rule CancelOrder_tx_refused) (use assms in simp_all)
  then have "WithTx E (CancelOrder_tx E params) w = (Inl e, rollback_tx (w_db w) (?w1\<lparr>w_stmt := Suc (w_stmt ?w1)\<rparr>))"
    by (rule WithTx_refused [OF assms(1)])
  ultimately show ?thesis using assms(6) by (simp add: CancelOrder_def rollback_tx_def)
qed

lemma lookup_missing:
  assumes "sql_fault E (w_stmt w) = NoFault" and "\<forall>k \<in> set (tbl_idempotency_keys (w_db w)). \<not> key_of E user key k"
  shows "\<exists>e. store_GetIdempotencyKey E user (TrimSpace key) w = (Inl e, w) \<or>
    store_GetIdempotencyKey E user (TrimSpace key) w = (Inl e, w\<lparr>w_stmt := Suc (w_stmt w)\<rparr>)"
proof (cases "uuid_Scan E user")
  case (Some u)
  with assms(2) have "(u, TrimSpace key) \<notin> idem_key ` set (tbl_idempotency_keys (w_db w))"
    by (auto simp: key_of_def)
  from idempotency_keys.sel_missing [OF this] Some assms(1) show ?thesis
    by (auto simp: store_GetIdempotencyKey_def bindM_run_Inr [OF Scan_run] exec_NoFault)
qed (auto simp: store_GetIdempotencyKey_def bindM_def Scan_def throwM_def)

lemma PayOrder_refused:
  assumes "answers_from E w" and "keys_ok (w_db w)" and "r \<in> set (tbl_orders (w_db w))"
    and "uuid_Scan E (pop_OrderID params) = Some (Order_ID r)" and input: "pay_input_ok params"
    and "\<forall>k \<in> set (tbl_idempotency_keys (w_db w)). \<not> key_of E (pop_UserID params) (pop_IdempotencyKey params) k"
    and "refusal E (pop_Role params) (pop_UserID params) r = Some e"
  shows "\<exists>w'. PayOrder E params w = (Inl e, w') \<and> w_db w' = w_db w"
proof -
  let ?key = "TrimSpace (pop_IdempotencyKey params)"
  obtain x w0 where f: "store_GetIdempotencyKey E (pop_UserID params) ?key w = (Inl x, w0)"
    and w0: "w0 = w \<or> w0 = w\<lparr>w_stmt := Suc (w_stmt w)\<rparr>"
    using lookup_missing [OF answers_fromD(1) [OF assms(1)] assms(6)] by auto
  have a0: "answers_from E w0" using w0 assms(1) by (auto simp: answers_from_def)
  let ?w1 = "w0\<lparr>w_stmt := Suc (w_stmt w0), w_tx := Some (db_now E (w_stmt w0))\<rparr>"
  have "PayOrder_tx E params ?key (pay_hash E params) ?w1 = (Inl e, ?w1\<lparr>w_stmt := Suc (w_stmt ?w1)\<rparr>)"
    by (rule PayOrder_tx_refused) (use assms w0 a0 in auto)
  note tx = WithTx_refused [where fn = "PayOrder_tx E params ?key (pay_hash E params)", OF a0 this]
  have "PayOrder E params w = (Inl e, rollback_tx (w_db w0) (?w1\<lparr>w_stmt := Suc (w_stmt ?w1)\<rparr>))"
    unfolding PayOrder_unfold [OF input] by (simp add: bindM_def tryM_def f tx)
  with w0 show ?thesis by (auto simp: rollback_tx_def)
qed

lemma GetOrder_result:
  assumes "answers_from E w" and "keys_ok (w_db w)" and "r \<in> set (tbl_orders (w_db w))"
    and "uuid_Scan E (gop_OrderID params) = Some (Order_ID r)"
  shows "GetOrder E params w = (if may_act E (gop_Role params) (gop_UserID params) r then Inr r
    else Inl ErrOrderForbidden, w\<lparr>w_stmt := Suc (w_stmt w)\<rparr>)"
proof -
  have "sql_GetOrder (Order_ID r) t (w_db w) = Inr (r, w_db w)" for t
    using assms(2,3) by (intro orders_by_id.sel_present) (auto simp: keys_ok_def)
  with assms(1,4) have "store_GetOrder E (gop_OrderID params) w = (Inr r, w\<lparr>w_stmt := Suc (w_stmt w)\<rparr>)"
    by (simp add: store_GetOrder_def bindM_run_Inr [OF Scan_run] exec_NoFault)
  then show ?thesis
    by (auto simp: GetOrder_def bindM_def mapErrM_def may_act_def throwM_def returnM_def)
qed

text \<open>
  C12: who is refused. A caller who is neither the owner nor an admin is told that the order is
  forbidden, a payment or cancellation of an order that is paid or cancelled is told that its
  status is wrong, and nothing changes; an order is shown to its owner and to admins only.
\<close>

theorem acting_refused:
  assumes "answers_from E w" and "keys_ok (w_db w)" and "uuid_laws E"
    and "r \<in> set (tbl_orders (w_db w))" and "uuid_Scan E oid = Some (Order_ID r)"
    and "xop_OrderID xp = oid" and "xop_UserID xp \<noteq> ''''"
    and "pop_OrderID pp = oid" and "pay_input_ok pp"
    and "\<forall>k \<in> set (tbl_idempotency_keys (w_db w)). \<not> key_of E (pop_UserID pp) (pop_IdempotencyKey pp) k"
    and "gop_OrderID gp = oid"
  shows "(refusal E (xop_Role xp) (xop_UserID xp) r = Some e \<longrightarrow>
      (\<exists>w'. CancelOrder E xp w = (Inl e, w') \<and> w_db w' = w_db w)) \<and>
    (refusal E (pop_Role pp) (pop_UserID pp) r = Some e \<longrightarrow>
      (\<exists>w'. PayOrder E pp w = (Inl e, w') \<and> w_db w' = w_db w)) \<and>
    (\<exists>w'. GetOrder E gp w = (if may_act E (gop_Role gp) (gop_UserID gp) r then Inr r
      else Inl ErrOrderForbidden, w') \<and> w_db w' = w_db w)"
  using CancelOrder_refused [OF assms(1,2,4,3)] PayOrder_refused [OF assms(1,2,4)]
    GetOrder_result [OF assms(1,2,4)] assms(5-11) by auto

text \<open>
  C13: the list of orders. An admin sees every order, anyone else exactly the orders of the user, both
  newest first.
\<close>

theorem ListOrders_lists:
  assumes "answers_from E w" and "lop_Role params \<noteq> ''admin'' \<longrightarrow> uuid_Scan E (lop_UserID params) = Some u"
  shows "\<exists>rs w'. ListOrders E params w = (Inr rs, w') \<and> w_db w' = w_db w \<and>
    mset rs = mset (filter (\<lambda>r. lop_Role params = ''admin'' \<or> Order_UserID r = u) (tbl_orders (w_db w))) \<and>
    sorted_wrt (\<lambda>a b. Order_CreatedAt b \<le> Order_CreatedAt a) rs"
proof -
  have sorted: "sorted_wrt (\<lambda>a b. Order_CreatedAt b \<le> Order_CreatedAt a)
      (sort_key (\<lambda>r. - Order_CreatedAt r) rs)" for rs
    using sorted_sort_key [of "\<lambda>r. - Order_CreatedAt r" rs] by (simp add: sorted_map)
  show ?thesis
    using assms sorted
    by (cases "lop_Role params = ''admin''")
      (auto simp: ListOrders_def store_ListOrders_def store_ListOrdersByUser_def sql_ListOrders_def
        sql_ListOrdersByUser_def exec_NoFault bindM_run_Inr [OF Scan_run])
qed

section \<open>The guarantees on the run of the example\<close>

lemma ex_schema: "ex_reachable w \<Longrightarrow> schema_ok (w_db w)"
  using services.reachable_ok(1) [of ex_ext ex_cfg w] by simp

lemma ex_keys: "ex_reachable w \<Longrightarrow> keys_ok (w_db w)"
  using ex_schema by (simp add: schema_ok_def)

lemma ex_no_lost [simp]: "no_lost_answer ex_ext"
  by (simp add: no_lost_answer_def)

lemma ex_answers [simp]: "answers_from ex_ext w"
  by (simp add: answers_from_def)

lemmas ex_run_defs = run_defs store_defs sql_GetIdempotencyKey_def sql_GetOrderForUpdate_def
  sql_UpdateOrderStatus_def ex_registered_eq ex_created_eq ex_paid_eq ex_init_def empty_db_def
  order_check_def payment_check_def outbox_check_def pg_Text_def pg_Int4_def ex_ann_def add_created_def
  ex_order_def ex_created_event_def ex_created_key_def add_payment_def set_order_def set_status_def
  update_where_def ex_payment_def ex_paid_event_def ex_paid_key_def

definition ex_pay_again :: PayOrderParams where
  "ex_pay_again = ex_pay\<lparr>pop_IdempotencyKey := ''k1 x''\<rparr>"

lemma ex_text_again: "TrimSpace ''k1 x'' = ''k1 x''"
  by code_simp

lemma ex_pay_again_run: "fst (PayOrder ex_ext ex_pay_again ex_paid) = Inl ErrOrderInvalidStatus"
  by (simp add: PayOrder_def ex_pay_again_def ex_pay_def ex_text_again PayOrder_tx_def ex_run_defs
      cong: bindM_first)

theorem order_operations_atomic_witness:
  "fst (PayOrder ex_ext ex_pay_again ex_paid) = Inl ErrOrderInvalidStatus \<and>
    w_db (snd (PayOrder ex_ext ex_pay_again ex_paid)) = w_db ex_paid"
  using order_operations_atomic [OF ex_no_lost, of _ ex_paid ErrOrderInvalidStatus
      "snd (PayOrder ex_ext ex_pay_again ex_paid)" ex_pay_again] ex_pay_again_run
  by (metis prod.collapse)

definition ex_cancel :: CancelOrderParams where
  "ex_cancel = \<lparr>xop_UserID = uuid_text 1, xop_Role = ''customer'', xop_OrderID = uuid_text 2\<rparr>"

lemma ex_cancel_run: "\<exists>w'. CancelOrder ex_ext ex_cancel ex_created =
    (Inr (set_status OrderStatusCancelled 7 ex_order), w')"
  by (simp add: CancelOrder_def ex_cancel_def CancelOrder_tx_def ex_run_defs cong: bindM_first)

theorem PayOrder_pays_witness:
  "\<exists>r t e k. r \<in> set (tbl_orders (w_db ex_created)) \<and> may_act ex_ext ''customer'' (uuid_text 1) r \<and> payable r \<and>
    w_db ex_paid = add_payment ex_payment (order_status_after (Payment_Status ex_payment)) t e k (w_db ex_created)"
proof -
  have run: "PayOrder ex_ext ex_pay ex_created = (Inr \<lparr>por_Order = set_status OrderStatusPaid 8 ex_order,
      por_Payment = ex_payment, por_StatusCode = StatusOK, por_Cached = False\<rparr>, ex_paid)"
    by (simp add: ex_pay_run ex_paid_eq)
  from PayOrder_pays [OF run ex_laws(1)] show ?thesis by (auto simp: ex_pay_def)
qed

theorem CreateOrder_creates_witness:
  "\<exists>e k. w_db ex_created = add_created ex_order e k (w_db ex_registered) \<and>
    Order_Currency ex_order = order_currency ex_ext ex_create"
proof -
  have run: "CreateOrder ex_ext ex_create ex_registered =
      (Inr \<lparr>cor_Order = ex_order, cor_StatusCode = StatusCreated, cor_Cached = False\<rparr>, ex_created)"
    by (simp add: ex_create_run ex_created_eq)
  from CreateOrder_creates [OF run ex_laws(1)] show ?thesis by auto
qed

theorem CancelOrder_cancels_witness:
  "\<exists>w' r t e. CancelOrder ex_ext ex_cancel ex_created = (Inr (set_status OrderStatusCancelled t r), w') \<and>
    r \<in> set (tbl_orders (w_db ex_created)) \<and> w_db w' = add_cancelled (Order_ID r) t e (w_db ex_created)"
proof -
  obtain w' where run: "CancelOrder ex_ext ex_cancel ex_created =
      (Inr (set_status OrderStatusCancelled 7 ex_order), w')" using ex_cancel_run by blast
  from CancelOrder_cancels [OF run ex_laws(1)] run show ?thesis by metis
qed

lemma ex_steps:
  "(service_step ex_ext ex_cfg)\<^sup>*\<^sup>* ex_created ex_paid" "(service_step ex_ext ex_cfg)\<^sup>*\<^sup>* ex_paid ex_published"
proof -
  show "(service_step ex_ext ex_cfg)\<^sup>*\<^sup>* ex_created ex_paid" unfolding ex_paid_def
    by (rule r_into_rtranclp, rule service_step.pay) (rule prod.collapse [symmetric])
  show "(service_step ex_ext ex_cfg)\<^sup>*\<^sup>* ex_paid ex_published" unfolding ex_published_def
    by (rule r_into_rtranclp, rule service_step.publish) (rule prod.collapse [symmetric])
qed

theorem CreateOrder_idempotent_witness:
  "\<exists>r code w3. CreateOrder ex_ext ex_create ex_paid =
      (Inr \<lparr>cor_Order = r, cor_StatusCode = code, cor_Cached = True\<rparr>, w3) \<and> same_order ex_order r"
proof -
  have run: "CreateOrder ex_ext ex_create ex_registered =
      (Inr \<lparr>cor_Order = ex_order, cor_StatusCode = StatusCreated, cor_Cached = False\<rparr>, ex_created)"
    by (simp add: ex_create_run ex_created_eq)
  from CreateOrder_idempotent [OF ex_laws(3) ex_schema [OF ex_reachable(2)] run _ ex_steps(1)] show ?thesis
    by fastforce
qed

theorem PayOrder_idempotent_witness:
  "\<exists>r code w3. PayOrder ex_ext ex_pay ex_published =
      (Inr \<lparr>por_Order = r, por_Payment = ex_payment, por_StatusCode = code, por_Cached = True\<rparr>, w3)"
proof -
  have run: "PayOrder ex_ext ex_pay ex_created = (Inr \<lparr>por_Order = set_status OrderStatusPaid 8 ex_order,
      por_Payment = ex_payment, por_StatusCode = StatusOK, por_Cached = False\<rparr>, ex_paid)"
    by (simp add: ex_pay_run ex_paid_eq)
  from PayOrder_idempotent [OF ex_laws(3) ex_schema [OF ex_reachable(3)] run _ ex_steps(2)] show ?thesis
    by fastforce
qed

text \<open>The key of the first request, used for another method.\<close>

definition ex_other :: CreateOrderParams where
  "ex_other = ex_create\<lparr>cop_Method := ''PUT''\<rparr>"

lemma ex_other_input:
  "create_input_ok ex_ext ex_other \<and> key_of ex_ext (cop_UserID ex_other) (cop_IdempotencyKey ex_other) ex_created_key \<and>
    \<not> same_request (cop_Method ex_other) (cop_Path ex_other) (order_hash ex_ext ex_other) ex_created_key"
  by (simp add: create_input_ok_def ex_other_def ex_create_def order_currency_def ex_texts key_of_def
      same_request_def ex_created_key_def)

lemma uuid_text_inject [simp]: "uuid_text u = uuid_text v \<longleftrightarrow> u = v"
  by (metis option.inject uuid_read_text)

theorem idempotency_conflict_witness:
  "\<exists>w'. CreateOrder ex_ext ex_other ex_created = (Inl ErrIdempotencyConflict, w') \<and> w_db w' = w_db ex_created"
proof -
  have "ex_created_key \<in> set (tbl_idempotency_keys (w_db ex_created))" by (simp add: ex_created_eq)
  from idempotency_conflict [OF ex_answers ex_keys [OF ex_reachable(3)] this, of ex_other ex_pay] ex_other_input
  show ?thesis by blast
qed

abbreviation ex_tx :: "(unit, Order) io" where
  "ex_tx \<equiv> CreateOrder_tx ex_ext ex_create ''k1'' ''USD'' ''book'' ''''"

lemma ex_tx_run: "\<exists>r w'. WithTx ex_ext ex_tx ex_registered = (Inr r, w')"
  by (simp add: ex_create_def CreateOrder_tx_def ex_run_defs cong: bindM_first)

theorem duplicate_create_refused_witness:
  "\<exists>r w1 e. WithTx ex_ext ex_tx ex_registered = (Inr r, w1) \<and> fst (WithTx ex_ext ex_tx w1) = Inl e \<and>
    w_db (snd (WithTx ex_ext ex_tx w1)) = w_db w1"
proof -
  obtain r w1 where run: "WithTx ex_ext ex_tx ex_registered = (Inr r, w1)" using ex_tx_run by blast
  from duplicate_create_refused [OF ex_laws(3) ex_schema [OF ex_reachable(2)] ex_no_lost run
      rtranclp.rtrancl_refl prod.collapse [symmetric] refl] run
  show ?thesis by blast
qed

text \<open>Another user tries to cancel, and the owner to cancel a paid order.\<close>

theorem acting_refused_witness:
  "(\<exists>w'. CancelOrder ex_ext (ex_cancel\<lparr>xop_UserID := uuid_text 9\<rparr>) ex_paid = (Inl ErrOrderForbidden, w') \<and>
      w_db w' = w_db ex_paid) \<and>
    (\<exists>w'. PayOrder ex_ext ex_pay_again ex_paid = (Inl ErrOrderInvalidStatus, w') \<and> w_db w' = w_db ex_paid)"
proof -
  let ?r = "set_status OrderStatusPaid 8 ex_order"
  have r: "?r \<in> set (tbl_orders (w_db ex_paid))"
    by (simp add: ex_paid_eq ex_created_eq set_order_def update_where_def ex_payment_def ex_order_def)
  have fresh: "\<forall>k \<in> set (tbl_idempotency_keys (w_db ex_paid)).
      \<not> key_of ex_ext (pop_UserID ex_pay_again) (pop_IdempotencyKey ex_pay_again) k"
    by (simp add: ex_paid_eq ex_created_eq ex_registered_eq ex_init_def empty_db_def key_of_def
        ex_pay_again_def ex_text_again ex_created_key_def ex_paid_key_def)
  have input: "pay_input_ok ex_pay_again" "pop_OrderID ex_pay_again = uuid_text 2"
    "xop_OrderID (ex_cancel\<lparr>xop_UserID := uuid_text 9\<rparr>) = uuid_text 2"
    "xop_UserID (ex_cancel\<lparr>xop_UserID := uuid_text 9\<rparr>) \<noteq> ''''"
    "uuid_Scan ex_ext (uuid_text 2) = Some (Order_ID ?r)"
    by (simp_all add: pay_input_ok_def ex_pay_again_def ex_pay_def ex_text_again ex_cancel_def ex_order_def)
  note refused = acting_refused [OF ex_answers ex_keys [OF ex_reachable(4)] ex_laws(1) r input(5,3,4,2,1) fresh,
      of "\<lparr>gop_UserID = '''', gop_Role = '''', gop_OrderID = uuid_text 2\<rparr>"]
  have "refusal ex_ext (xop_Role (ex_cancel\<lparr>xop_UserID := uuid_text 9\<rparr>))
      (xop_UserID (ex_cancel\<lparr>xop_UserID := uuid_text 9\<rparr>)) ?r = Some ErrOrderForbidden"
    "refusal ex_ext (pop_Role ex_pay_again) (pop_UserID ex_pay_again) ?r = Some ErrOrderInvalidStatus"
    by (simp_all add: refusal_def may_act_def payable_def ex_cancel_def ex_pay_again_def ex_pay_def ex_order_def)
  with refused show ?thesis by auto
qed

theorem ListOrders_lists_witness:
  "\<exists>rs w'. ListOrders ex_ext \<lparr>lop_UserID = uuid_text 1, lop_Role = ''customer''\<rparr> ex_paid = (Inr rs, w') \<and>
    length rs = 1"
proof -
  let ?p = "\<lparr>lop_UserID = uuid_text 1, lop_Role = ''customer''\<rparr>"
  have one: "length (filter (\<lambda>r. Order_UserID r = 1) (tbl_orders (w_db ex_paid))) = 1"
    by (simp add: ex_paid_eq ex_created_eq ex_registered_eq ex_init_def empty_db_def set_order_def
        update_where_def ex_payment_def ex_order_def set_status_def)
  obtain rs w' where "ListOrders ex_ext ?p ex_paid = (Inr rs, w')"
    "mset rs = mset (filter (\<lambda>r. lop_Role ?p = ''admin'' \<or> Order_UserID r = 1) (tbl_orders (w_db ex_paid)))"
    using ListOrders_lists [OF ex_answers, of ?p 1 ex_paid] by auto
  moreover from this(2) have "length rs = 1" using one by (simp flip: size_mset)
  ultimately show ?thesis by blast
qed

end
