(* ===== verification/Api_Properties.thy ===== *)
theory Api_Properties
  imports Api_Example Order_Properties
begin

text \<open>
  What a client of the HTTP API can rely on, from the request to the response and the tables. The statements are about
  \<open>ServeHTTP\<close>, the whole router, where they can be, and about a handler where they concern one route.
\<close>

section \<open>The API as a system\<close>

text \<open>
  A request is served, a process in the background (or a request that was interrupted between its look at an idempotency key
  and its transaction) takes a step, or some client of Redis changes keys.
\<close>

inductive api_step ::
    "http_ext \<Rightarrow> redis_ext \<Rightarrow> ext \<Rightarrow> RouterConfig \<Rightarrow> publisher_Config \<Rightarrow> 'z redis_world_scheme \<Rightarrow> 'z redis_world_scheme \<Rightarrow> bool"
  for H :: http_ext and R :: redis_ext and E :: ext and rcfg :: RouterConfig and cfg :: publisher_Config where
  request: "ServeHTTP H R E rcfg r rw w = (v, w') \<Longrightarrow> api_step H R E rcfg cfg w w'"
| background: "service_step E cfg w w' \<Longrightarrow> api_step H R E rcfg cfg w w'"
| redis: "api_step H R E rcfg cfg w (w\<lparr>w_redis := m, w_redis_calls := n\<rparr>)"

lemma serve_effect:
  assumes "ServeHTTP H R E rcfg r rw w = (v, w')" and "uuid_laws E"
  shows "w_log w' = w_log w" and "w_db w' = w_db w \<or> db_change E (w_db w) (w_db w')"
  using keepsD [OF api.no_message assms(1)] keepsD [OF api.effect [OF assms(2)] assms(1)]
  by (simp_all add: same_log_def db_step_def)

interpretation apis: order_system "api_step H R E rcfg cfg" E cfg for H R E rcfg cfg
proof
  fix w w' :: "'a redis_world_scheme"
  assume "api_step H R E rcfg cfg w w'" "ext_laws E" "schema_ok (w_db w)"
  then show "system_effect E cfg w w'"
  proof cases
    case (request r rw v)
    with serve_effect [OF request] \<open>ext_laws E\<close> show ?thesis by (simp add: system_effect_def ext_laws_def)
  next
    case background
    with \<open>ext_laws E\<close> \<open>schema_ok (w_db w)\<close> show ?thesis by (intro service_step_effect)
  next
    case (redis m n)
    then show ?thesis by (simp add: system_effect_def)
  qed
qed

text \<open>
  C26: whatever requests are made to the API, mixed with steps of the publisher, the consumer and interrupted
  requests, whatever fails, and whatever happens to Redis: an order has exactly one succeeded payment if it is
  paid and none otherwise, every payment is over its amount, and once it is paid or cancelled it stays so with the same
  owner, amount, currency and description. Redis, with the locks in it, is not needed for this.
\<close>

theorem api_orders_charged_once:
  assumes "ext_laws E" and "reachable system_init (api_step H R E rcfg cfg) w"
    and "r \<in> set (tbl_orders (w_db w))" and "(api_step H R E rcfg cfg)\<^sup>*\<^sup>* w w'"
  shows "length (succeeded (w_db w) (Order_ID r)) = (if Order_Status r = OrderStatusPaid then 1 else 0) \<and>
    (\<forall>p \<in> set (payments_of (w_db w) (Order_ID r)). Payment_AmountCents p = Order_AmountCents r) \<and>
    (\<exists>r' \<in> set (tbl_orders (w_db w')). same_order r r' \<and>
      (Order_Status r \<in> {OrderStatusPaid, OrderStatusCancelled} \<longrightarrow> Order_Status r' = Order_Status r))"
proof -
  note ok = apis.reachable_ok [OF assms(2,1)]
  have row: "ledger_row (w_db w) r" using ok(2) assms(3) by (simp add: books_def ledger_def)
  obtain r' where r': "r' \<in> set (tbl_orders (w_db w'))" "same_order r r'"
    using apis.steps_grow [OF assms(4,1) ok(1)] assms(3) by (auto simp: grows_def)
  have keys: "keys_ok (w_db w)" "keys_ok (w_db w')"
    using ok(1) apis.steps_schema [OF assms(4,1) ok(1)] by (simp_all add: schema_ok_def)
  have "Order_Status r' = Order_Status r" if "Order_Status r \<in> {OrderStatusPaid, OrderStatusCancelled}"
    using lifecycle_final [OF apis.steps_lifecycle [OF assms(4,1) ok(1)] status_map_mem [OF keys(1) assms(3)] that]
      status_map_mem [OF keys(2) r'(1)] r'(2) by (simp add: same_order_def)
  with row r' show ?thesis by (auto simp: ledger_row_def)
qed

section \<open>Access\<close>

text \<open>The token of a request, and when a token opens a route.\<close>

definition bearer :: "Request \<Rightarrow> string option" where
  "bearer r =
     (case Fields (header_Get (req_Header r) ''Authorization'') of
        [scheme, t] \<Rightarrow> if EqualFold scheme ''Bearer'' then Some t else None
      | _ \<Rightarrow> None)"

definition token_claims :: "ext \<Rightarrow> TokenManager \<Rightarrow> time \<Rightarrow> string \<Rightarrow> Claims option" where
  "token_claims E m now t =
     (case jwt_Unverified E t of
        Some (alg, c) \<Rightarrow>
          if alg = ''HS256'' \<and> jwt_Verify E alg (tm_secret m) t \<and> jwt_Validate E now c \<and>
            Claims_UserID c \<noteq> '''' \<and> Claims_Email c \<noteq> '''' \<and> Claims_Role c \<noteq> ''''
          then Some c else None
      | None \<Rightarrow> None)"

definition protected :: "endpoint \<Rightarrow> bool" where
  "protected e \<longleftrightarrow> e \<in> {Me, OrdersCreate, OrdersList, OrdersGet, OrdersPay, OrdersCancel}"

lemma ParseAccessToken_Inr:
  "ParseAccessToken E m t w = (Inr c, w') \<Longrightarrow> token_claims E m (time_Now E (w_clock w)) t = Some c"
  by (auto simp: ParseAccessToken_def token_claims_def run_iff split: option.splits if_splits)

lemma ParseAccessToken_same_db: "keeps same_db (ParseAccessToken E m t)"
  unfolding ParseAccessToken_def by (auto intro!: keeps_rules same_db_rules split: option.split)

lemma writeJSONError_status [simp]: "rw_status w = None \<Longrightarrow> rw_status (writeJSONError c msg w) = Some c"
  by (simp add: writeJSONError_def)

lemma requireAuth_refuses:
  fixes z :: "'z redis_world_scheme"
  assumes "\<forall>t. bearer r = Some t \<longrightarrow> token_claims E (as_tokenManager (srv_authService s)) (time_Now E (w_clock z)) t = None"
    and "rw_status w = None"
  shows "\<exists>w' z'. requireAuth E s h r w z = (Inr w', z') \<and> rw_status w' = Some StatusUnauthorized \<and> w_db z' = w_db z"
proof (cases "bearer r")
  case None
  then show ?thesis using assms(2)
    by (auto simp: requireAuth_def bearer_def Let_def returnM_def split: list.splits if_splits)
next
  case (Some t)
  then obtain scheme where f: "Fields (header_Get (req_Header r) ''Authorization'') = [scheme, t]" "EqualFold scheme ''Bearer''"
    by (auto simp: bearer_def split: list.splits if_splits)
  obtain v z1 where v: "ParseAccessToken E (as_tokenManager (srv_authService s)) t z = (v, z1)" by (metis surj_pair)
  with assms(1) Some obtain e where "v = Inl e" by (cases v) (auto dest!: ParseAccessToken_Inr)
  with f v same_dbD [OF ParseAccessToken_same_db v] assms(2) show ?thesis
    by (auto simp: requireAuth_def Let_def bindM_def tryM_def returnM_def)
qed

text \<open>A handler that refuses a request when the clock has been read \<open>n\<close> times before, and the middleware in front of it.\<close>

definition refuses :: "int set \<Rightarrow> nat \<Rightarrow> 'z handler \<Rightarrow> Request \<Rightarrow> bool" where
  "refuses codes n h r \<longleftrightarrow>
     (\<forall>w z. starting w \<longrightarrow> w_clock z = n \<longrightarrow>
        (\<exists>w' z' c. h r w z = (Inr w', z') \<and> rw_status w' = Some c \<and> c \<in> codes \<and> w_db z' = w_db z))"

lemma refusesI:
  "(\<And>w z. starting w \<Longrightarrow> w_clock z = n \<Longrightarrow>
      \<exists>w' z' c. h r w z = (Inr w', z') \<and> rw_status w' = Some c \<and> c \<in> codes \<and> w_db z' = w_db z) \<Longrightarrow>
    refuses codes n h r"
  by (simp add: refuses_def)

lemma refuses_limited:
  assumes "refuses codes (if b \<and> 0 < l then Suc n else n) h r"
  shows "refuses (codes \<union> {StatusTooManyRequests, StatusInternalServerError}) n (rateLimitMiddleware b R E scope l h) r"
proof (rule refusesI)
  fix w and z :: "'a redis_world_scheme"
  assume w: "starting w" and n: "w_clock z = n"
  have h: "\<exists>w' z' c. h r w0 z0 = (Inr w', z') \<and> rw_status w' = Some c \<and> c \<in> codes \<and> w_db z' = w_db z0"
    if "starting w0" "w_clock z0 = (if b \<and> 0 < l then Suc n else n)" for w0 z0 using assms that by (simp add: refuses_def)
  obtain v z1 where v: "Allow R E scope (clientIPFromRequest r) l Minute z = (v, z1)" by (metis surj_pair)
  note z1 = same_dbD [OF same_db_locks(3) v] and clock = Allow_clock [OF v]
  have inc: "Inc n ls z1 = (Inr (), bump_metric n ls z1)" for n ls by (simp add: run_iff)
  show "\<exists>w' z' c. rateLimitMiddleware b R E scope l h r w z = (Inr w', z') \<and> rw_status w' = Some c \<and>
      c \<in> codes \<union> {StatusTooManyRequests, StatusInternalServerError} \<and> w_db z' = w_db z"
  proof (cases "\<not> b \<or> l \<le> 0")
    case True
    with h [OF w, of z] n show ?thesis by (auto simp: rateLimitMiddleware_def)
  next
    case False
    show ?thesis
    proof (cases v)
      case (Inl e)
      with False v z1 w show ?thesis
        by (auto simp: rateLimitMiddleware_def bindM_def tryM_def returnM_def starting_def)
    next
      case (Inr res)
      let ?w1 = "header_Set ''RateLimit-Remaining'' (Itoa (res_Remaining res)) (header_Set ''RateLimit-Limit'' (Itoa (res_Limit res)) w)"
      show ?thesis
      proof (cases "res_Allowed res")
        case True
        have "starting ?w1" using w by simp
        from h [OF this, of "bump_metric ''order_service_rate_limit_allowed_total'' [scope] z1"] True False Inr v z1 clock n
        show ?thesis by (fastforce simp: rateLimitMiddleware_def bindM_def tryM_def Let_def inc bump_metric_def)
      next
        case no: False
        with False Inr v z1 w show ?thesis
          by (auto simp: rateLimitMiddleware_def bindM_def tryM_def Let_def inc returnM_def starting_def)
      qed
    qed
  qed
qed

lemma refuses_cors:
  assumes "refuses codes n h r" and "req_Method r \<noteq> ''OPTIONS''"
  shows "refuses codes n (corsMiddleware origin h) r"
  using assms by (auto simp: refuses_def corsMiddleware_def Let_def)

lemma refuses_measured:
  assumes "refuses codes (Suc n) h r"
  shows "refuses codes n (metricsMiddleware E h) r"
proof (rule refusesI)
  fix w and z :: "'a redis_world_scheme"
  assume "starting w" and n: "w_clock z = n"
  then have "starting (w\<lparr>sr_statusCode := StatusOK\<rparr>)" by (simp add: starting_def)
  moreover have "w_clock (z\<lparr>w_clock := Suc (w_clock z)\<rparr>) = Suc n" using n by simp
  ultimately obtain w' z' c where "h r (w\<lparr>sr_statusCode := StatusOK\<rparr>) (z\<lparr>w_clock := Suc (w_clock z)\<rparr>) = (Inr w', z')"
    "rw_status w' = Some c" "c \<in> codes" "w_db z' = w_db z" using assms unfolding refuses_def by fastforce
  then show "\<exists>w' z' c. metricsMiddleware E h r w z = (Inr w', z') \<and> rw_status w' = Some c \<and> c \<in> codes \<and> w_db z' = w_db z"
    by (auto simp: metricsMiddleware_def bindM_def Now_def returnM_def Inc_def modifyM_def Let_def)
qed

lemma refuses_route:
  assumes "refuses codes n (route_handler H R E cfg e :: 'z handler) (r\<lparr>req_URLParam_id := i\<rparr>)"
    and "chi_Match H routes (req_Method r) (req_URL r) = Some (e, pattern, i)"
  shows "refuses codes n (route H R E cfg :: 'z handler) r"
proof (rule refusesI)
  fix w and z :: "'z redis_world_scheme"
  assume "starting w" and n: "w_clock z = n"
  then have "starting (w\<lparr>rw_pattern := pattern\<rparr>)" by simp
  with assms n show "\<exists>w' z' c. route H R E cfg r w z = (Inr w', z') \<and> rw_status w' = Some c \<and> c \<in> codes \<and> w_db z' = w_db z"
    unfolding refuses_def route_def by fastforce
qed

lemma refuses_serve:
  assumes "refuses codes (Suc n) (route H R E cfg :: 'z handler) r" and "req_Method r \<noteq> ''OPTIONS''"
  shows "refuses codes n (ServeHTTP H R E cfg :: 'z handler) r"
  using refuses_measured [OF refuses_cors [OF assms]] refuses_measured [OF assms(1)]
  by (simp add: ServeHTTP_def)

lemma route_method:
  assumes "chi_laws H" and "chi_Match H routes m p = Some (e, pat, i)" and "app_endpoint e"
  shows "m \<in> {''GET'', ''POST''}"
  using assms unfolding chi_laws_def by (fastforce simp: routes_def app_endpoint_def)

lemma bearer_param [simp]: "bearer (r\<lparr>req_URLParam_id := i\<rparr>) = bearer r"
  by (simp add: bearer_def)

lemma protected_refuses:
  assumes "protected e"
    and "\<forall>t. bearer r = Some t \<longrightarrow> token_claims E (as_tokenManager (rc_AuthService cfg)) (time_Now E n) t = None"
  shows "refuses {StatusUnauthorized} n (endpoint_handler H R E cfg e) r"
  using assms requireAuth_refuses [of r E "router_Server cfg"]
  by (intro refusesI) (auto simp: protected_def router_Server_def starting_def)

text \<open>
  How often the clock is read before the access token is checked: once for the metrics, and once by the global limiter if there is one.
\<close>

definition clock_before_auth :: "RouterConfig \<Rightarrow> nat" where
  "clock_before_auth cfg = (if rateLimiter cfg \<and> 0 < rc_RateLimitRequestsPerMinute cfg then 2 else 1)"

text \<open>
  C27: no access without a valid token. On a route that needs authentication, a request without a bearer token, or with one
  that is not signed with the service's key and HS256, lacks an identity, or has expired at the moment it is checked (it may have been
  valid before, even when the request arrived), is answered 401 (or 429 or 500 by the rate limiter, if there is one), and changes no table
  and sends no message.
\<close>

theorem unauthenticated_refused:
  fixes z :: "'z redis_world_scheme"
  assumes "chi_laws H" and "uuid_laws E" and "chi_Match H routes (req_Method r) (req_URL r) = Some (e, pattern, i)" and "protected e"
    and "now = time_Now E (w_clock z + clock_before_auth cfg)"
    and "\<forall>t. bearer r = Some t \<longrightarrow> token_claims E (as_tokenManager (rc_AuthService cfg)) now t = None"
    and "starting w"
  shows "\<exists>w' z' c. ServeHTTP H R E cfg r w z = (Inr w', z') \<and> rw_status w' = Some c \<and>
    c \<in> {StatusUnauthorized} \<union> (if rateLimiter cfg then {StatusTooManyRequests, StatusInternalServerError} else {}) \<and>
    w_db z' = w_db z \<and> w_log z' = w_log z"
proof -
  let ?codes = "{StatusUnauthorized} \<union> (if rateLimiter cfg then {StatusTooManyRequests, StatusInternalServerError} else {})"
  let ?n = "Suc (w_clock z)"
  have "req_Method r \<noteq> ''OPTIONS''"
    using route_method [OF assms(1,3)] assms(4) by (auto simp: protected_def app_endpoint_def)
  moreover have h: "refuses {StatusUnauthorized} (w_clock z + clock_before_auth cfg) (endpoint_handler H R E cfg e :: 'z handler)
      (r\<lparr>req_URLParam_id := i\<rparr>)"
    using assms(5,6) by (intro protected_refuses [OF assms(4)]) simp
  have "refuses ?codes ?n (route_handler H R E cfg e :: 'z handler) (r\<lparr>req_URLParam_id := i\<rparr>)"
  proof (cases "rateLimiter cfg")
    case True
    have "app_endpoint e" using assms(4) by (auto simp: protected_def app_endpoint_def)
    moreover have clock: "w_clock z + clock_before_auth cfg = (if True \<and> 0 < rc_RateLimitRequestsPerMinute cfg then Suc ?n else ?n)"
      using True by (simp add: clock_before_auth_def)
    ultimately show ?thesis
      using True refuses_limited [OF h [unfolded clock], of R E "''global''"] by (simp add: route_handler_def)
  next
    case False
    with h show ?thesis by (simp add: route_handler_def clock_before_auth_def)
  qed
  then have "refuses ?codes ?n (route H R E cfg :: 'z handler) r" using assms(3) by (rule refuses_route)
  ultimately have "refuses ?codes (w_clock z) (ServeHTTP H R E cfg :: 'z handler) r"
    by (intro refuses_serve)
  with assms(7) obtain w' z' c where "ServeHTTP H R E cfg r w z = (Inr w', z')" "rw_status w' = Some c" "c \<in> ?codes"
    "w_db z' = w_db z" unfolding refuses_def by metis
  with serve_effect(1) [OF this(1) assms(2)] show ?thesis by blast
qed

section \<open>The order lock\<close>

lemma acquireOrderLock_busy:
  fixes z :: "'z redis_world_scheme"
  assumes "srv_lockManager s = Some ttl" and "rw_status w = None"
    and "live (redis_clock R (w_redis_calls z)) (w_redis z) (orderLockKey i) = Some token"
  shows "\<exists>w' z'. acquireOrderLock R E s w i z = (Inr (Inl w'), z') \<and> w_db z' = w_db z \<and> w_redis z' = w_redis z \<and>
    rw_status w' \<in> {Some StatusConflict, Some StatusInternalServerError} \<and>
    (redis_fault R (w_redis_calls z) = NoFault \<longrightarrow> w' = writeJSONError StatusConflict ''order is being processed'' w)"
proof -
  obtain v z' where v: "Acquire R E ttl (orderLockKey i) z = (v, z')" by (metis surj_pair)
  note no = Acquire_refused [OF assms(3) v]
  from no(1) obtain e where "v = Inl e" by blast
  with v no same_dbD [OF same_db_locks(1) v] assms(1,2) show ?thesis
    by (auto simp: acquireOrderLock_def bindM_def tryM_def returnM_def)
qed

text \<open>
  C30: one request at a time. While the lock on an order is held, a request to pay or cancel it is answered 409
  (``order is being processed''), or 500 if Redis did not answer, without a look at the tables: nothing
  is changed there or in Redis.
\<close>

theorem order_busy:
  fixes z :: "'z redis_world_scheme"
  assumes "srv_lockManager s = Some ttl" and "rw_status w = None" and "req_claims r = Some claims" and "req_URLParam_id r \<noteq> ''''"
    and "live (redis_clock R (w_redis_calls z)) (w_redis z) (orderLockKey (req_URLParam_id r)) = Some token"
    and "handlePayOrder R E s r w z = (v, z') \<or> handleCancelOrder R E s r w z = (v, z')"
  shows "w_db z' = w_db z \<and> w_redis z' = w_redis z \<and>
    (\<exists>w'. v = Inr w' \<and> rw_status w' \<in> {Some StatusConflict, Some StatusInternalServerError} \<and>
      (redis_fault R (w_redis_calls z) = NoFault \<longrightarrow> w' = writeJSONError StatusConflict ''order is being processed'' w))"
proof -
  from acquireOrderLock_busy [OF assms(1,2,5), of E] obtain w' z1 where
    a: "acquireOrderLock R E s w (req_URLParam_id r) z = (Inr (Inl w'), z1)" "w_db z1 = w_db z" "w_redis z1 = w_redis z"
      "rw_status w' \<in> {Some StatusConflict, Some StatusInternalServerError}"
      "redis_fault R (w_redis_calls z) = NoFault \<longrightarrow> w' = writeJSONError StatusConflict ''order is being processed'' w"
    by blast
  from assms(6) have "v = Inr w' \<and> z' = z1"
    by (auto simp: handlePayOrder_def handleCancelOrder_def assms(3,4) Let_def bindM_def a(1) returnM_def)
  with a show ?thesis by blast
qed

section \<open>Failed requests\<close>

text \<open>
  \<open>quiet m\<close>: when the computation ends in an error response, the tables are as they were.
\<close>

definition failed :: "statusRecorder \<Rightarrow> bool" where
  "failed w \<longleftrightarrow> (\<exists>c. rw_status w = Some c \<and> StatusBadRequest \<le> c)"

definition quiet :: "('z, statusRecorder) rio \<Rightarrow> bool" where
  "quiet m \<longleftrightarrow> (\<forall>z w' z'. m z = (Inr w', z') \<longrightarrow> failed w' \<longrightarrow> w_db z' = w_db z)"

lemma quietD: "quiet m \<Longrightarrow> m z = (Inr w', z') \<Longrightarrow> failed w' \<Longrightarrow> w_db z' = w_db z"
  by (simp add: quiet_def)

lemma quiet_same_db: "keeps same_db m \<Longrightarrow> quiet m"
  by (auto simp: quiet_def dest: same_dbD)

lemma quiet_return: "quiet (returnM w)"
  by (simp add: quiet_def returnM_def)

lemma quiet_after_reads:
  assumes "keeps same_db m" and "\<And>x. quiet (f x)"
  shows "quiet (bindM m f)"
  unfolding quiet_def
proof (intro allI impI)
  fix z w' z' assume run: "bindM m f z = (Inr w', z')" and bad: "failed w'"
  then obtain x z1 where "m z = (Inr x, z1)" "f x z1 = (Inr w', z')" by (auto simp: run_iff)
  with bad same_dbD [OF assms(1)] quietD [OF assms(2)] show "w_db z' = w_db z" by metis
qed

lemma quiet_before_reads:
  assumes "quiet m" and "\<And>w. keeps same_db (f w)" and "\<And>w z w' z'. f w z = (Inr w', z') \<Longrightarrow> failed w' \<Longrightarrow> failed w"
  shows "quiet (bindM m f)"
  unfolding quiet_def
proof (intro allI impI)
  fix z w' z' assume run: "bindM m f z = (Inr w', z')" and bad: "failed w'"
  then obtain w z1 where "m z = (Inr w, z1)" "f w z1 = (Inr w', z')" by (auto simp: run_iff)
  with bad same_dbD [OF assms(2)] quietD [OF assms(1)] assms(3) show "w_db z' = w_db z" by metis
qed

text \<open>An operation whose error leaves the tables alone, and whose value is answered by a success.\<close>

lemma quiet_try:
  assumes "\<And>z e z'. m z = (Inl e, z') \<Longrightarrow> w_db z' = w_db z"
    and "\<And>z x z'. m z = (Inr x, z') \<Longrightarrow> w_db z' = w_db z \<or> gives (\<lambda>w. \<not> failed w) (f (Inr x))"
    and "\<And>v. keeps same_db (f v)"
  shows "quiet (bindM (tryM m) f)"
  unfolding quiet_def
proof (intro allI impI)
  fix z w' z' assume run: "bindM (tryM m) f z = (Inr w', z')" and bad: "failed w'"
  then obtain v z1 where v: "m z = (v, z1)" "f v z1 = (Inr w', z')" by (auto simp: run_iff)
  have "w_db z1 = w_db z"
  proof (cases v)
    case (Inl e)
    with v(1) assms(1) show ?thesis by simp
  next
    case (Inr x)
    with v bad assms(2) [of z x z1] show ?thesis by (auto dest: givesD)
  qed
  with same_dbD [OF assms(3) v(2)] show "w_db z' = w_db z" by simp
qed

lemma quiet_cases:
  "(\<And>x. quiet (f x)) \<Longrightarrow> (\<And>y. quiet (g y)) \<Longrightarrow> quiet (case v of Inl x \<Rightarrow> f x | Inr y \<Rightarrow> g y)"
  "quiet m \<Longrightarrow> (\<And>x. quiet (h x)) \<Longrightarrow> quiet (case u of None \<Rightarrow> m | Some x \<Rightarrow> h x)"
  "quiet m \<Longrightarrow> quiet n \<Longrightarrow> quiet (if b then m else n)"
  by (simp_all split: sum.split option.split)

lemma failed_writeJSON [simp]: "starting w \<Longrightarrow> failed (writeJSON c v w) \<longleftrightarrow> StatusBadRequest \<le> c"
  by (auto simp: failed_def starting_def)

lemma exec_error_same_db: "exec E q z = (Inl e, z') \<Longrightarrow> no_lost_answer E \<Longrightarrow> w_db z' = w_db z"
  by (auto simp: exec_def Let_def no_lost_answer_def split: fault.splits sum.splits)

lemma RegisterUser_error_same_db:
  assumes "RegisterUser E params z = (Inl e, z')" and "no_lost_answer E"
  shows "w_db z' = w_db z"
  using assms exec_error_same_db [OF _ assms(2)]
  by (fastforce simp: RegisterUser_def Let_def run_iff HashPassword_def store_CreateUser_def Scan_def
      split: if_splits option.splits)

lemma Login_error_same_db:
  assumes "Login E s params z = (Inl e, z')" and "no_lost_answer E"
  shows "w_db z' = w_db z"
proof -
  have create: "w_db z2 = w_db z1" if "store_CreateRefreshToken E p z1 = (Inl x, z2)" for p x and z1 z2 :: "'a world_scheme"
    using that exec_error_same_db [OF _ assms(2)]
    by (fastforce simp: store_CreateRefreshToken_def run_iff Scan_def split: option.splits)
  show ?thesis
  proof (cases "normal_email E (lp_Email params) = '''' \<or> lp_Password params = ''''")
    case True
    with assms(1) show ?thesis by (auto simp: Login_def run_iff)
  next
    case False
    obtain v z1 where u: "store_GetUserByEmail E (normal_email E (lp_Email params)) z = (v, z1)" by (metis surj_pair)
    have z1: "w_db z1 = w_db z" using same_dbD [OF keeps_reads(6) u] .
    show ?thesis
      using assms(1) False u z1
        same_dbD [OF keeps_same_db_tokens(1)] same_dbD [OF keeps_same_db_tokens(2)]
      by (fastforce simp: Login_def Let_def run_iff dest: create split: if_splits)
  qed
qed

lemma CreateOrder_code:
  assumes "CreateOrder E params z = (Inr res, z')"
  shows "cor_StatusCode res = StatusCreated \<or> w_db z' = w_db z"
proof -
  have ok: "create_input_ok E params" using CreateOrder_input(1) [OF assms] by auto
  obtain v z1 where v: "store_GetIdempotencyKey E (cop_UserID params) (TrimSpace (cop_IdempotencyKey params)) z = (v, z1)"
    by (metis surj_pair)
  have z1: "w_db z1 = w_db z" using same_dbD [OF keeps_reads(4) v] .
  show ?thesis
  proof (cases v)
    case (Inl e)
    with assms v show ?thesis unfolding CreateOrder_unfold [OF ok] by (auto simp: run_iff)
  next
    case (Inr k)
    with assms v have "CreateOrder_replay E params (order_hash E params) k z1 = (Inr res, z')"
      unfolding CreateOrder_unfold [OF ok] by (simp add: run_iff)
    with same_dbD [OF keeps_replay(1) this] z1 show ?thesis by simp
  qed
qed

lemma PayOrder_tx_code: "PayOrder_tx E params key hash z = (Inr res, z') \<Longrightarrow> por_StatusCode res = StatusOK"
  by (auto simp: PayOrder_tx_def run_iff Let_def mockPayment_def split: if_splits)

lemma PayOrder_code:
  assumes "PayOrder E params z = (Inr res, z')"
  shows "por_StatusCode res = StatusOK \<or> w_db z' = w_db z"
proof -
  have ok: "pay_input_ok params"
    using assms by (auto simp: PayOrder_def pay_input_ok_def Let_def run_iff split: if_splits)
  obtain v z1 where v: "store_GetIdempotencyKey E (pop_UserID params) (TrimSpace (pop_IdempotencyKey params)) z = (v, z1)"
    by (metis surj_pair)
  have z1: "w_db z1 = w_db z" using same_dbD [OF keeps_reads(4) v] .
  show ?thesis
  proof (cases v)
    case (Inl e)
    with assms v show ?thesis unfolding PayOrder_unfold [OF ok]
      by (auto simp: run_iff elim!: WithTx_InrD dest: PayOrder_tx_code)
  next
    case (Inr k)
    with assms v have "PayOrder_replay E params (pay_hash E params) k z1 = (Inr res, z')"
      unfolding PayOrder_unfold [OF ok] by (simp add: run_iff)
    with same_dbD [OF keeps_replay(2) this] z1 show ?thesis by simp
  qed
qed

lemma succeeds: "starting w \<Longrightarrow> c < StatusBadRequest \<Longrightarrow> gives (\<lambda>w. \<not> failed w) (returnM (writeJSON c v w))"
  by (intro gives_basics(1)) simp

lemma quiet_writers:
  assumes "no_lost_answer E" and "starting w"
  shows "quiet (handleRegister E r w)" and "quiet (handleCreateOrder E r w)" and "quiet (handleLogin E s r w)"
proof -
  note reads = keeps_rules same_db_rules
  show "quiet (handleRegister E r w)"
    unfolding handleRegister_def
    by (intro quiet_cases quiet_return quiet_try reads; simp add: RegisterUser_error_same_db [OF _ assms(1)] succeeds assms(2))
  show "quiet (handleCreateOrder E r w)"
    unfolding handleCreateOrder_def
    by (intro quiet_cases quiet_return quiet_try reads)
      (auto dest: CreateOrder_error_same_db [OF _ assms(1)] dest!: CreateOrder_code intro: succeeds [OF assms(2)])
  show "quiet (handleLogin E s r w)"
    unfolding handleLogin_def
    by (intro quiet_cases quiet_return quiet_try reads)
      (auto simp: Login_error_same_db [OF _ assms(1)] intro!: succeeds gives_bindM [OF gives_cookies(1) [OF assms(2)]])
qed

lemma quiet_logout: "starting w \<Longrightarrow> quiet (handleLogout E s r w)"
  by (auto simp: quiet_def handleLogout_def run_iff clearRefreshTokenCookie_def failed_def starting_def split: option.splits)

text \<open>The lock around an operation does not touch the tables.\<close>

lemma succeeds_released:
  assumes "starting w" and "c < StatusBadRequest"
  shows "gives (\<lambda>w. \<not> failed w) (bindM (releaseOrderLock R lo) (\<lambda>_. returnM (writeJSON c v w)))"
  by (rule gives_bindM [OF gives_locks(2) [OF assms(1)]]) (intro succeeds assms)

lemma quiet_locked:
  assumes "no_lost_answer E" and "starting w"
  shows "quiet (handlePayOrder R E s r w)" and "quiet (handleCancelOrder R E s r w)"
proof -
  show "quiet (handlePayOrder R E s r w)"
    unfolding handlePayOrder_def Let_def
    by (intro quiet_cases quiet_return quiet_after_reads [OF same_db_order_locks(1)] quiet_try keeps_rules same_db_rules)
      (auto dest: PayOrder_error_same_db [OF _ assms(1)] dest!: PayOrder_code intro: succeeds_released [OF assms(2)])
  show "quiet (handleCancelOrder R E s r w)"
    unfolding handleCancelOrder_def Let_def
    by (intro quiet_cases quiet_return quiet_after_reads [OF same_db_order_locks(1)] quiet_try keeps_rules same_db_rules)
      (auto dest: CancelOrder_error_same_db [OF _ assms(1)] intro: succeeds_released [OF assms(2)])
qed

text \<open>The middleware and the router pass it on.\<close>

lemma quiet_middleware:
  assumes "\<And>r w. starting w \<Longrightarrow> quiet (h r w)" and "starting w"
  shows "quiet (requireAuth E s h r w)" and "quiet (rateLimitMiddleware b R E scope l h r w)"
    and "quiet (corsMiddleware origin h r w)" and "quiet (metricsMiddleware E h r w)"
proof -
  show "quiet (requireAuth E s h r w)"
    unfolding requireAuth_def Let_def
    by (auto intro!: quiet_cases quiet_return quiet_after_reads [OF keeps_tryM [OF ParseAccessToken_same_db]] assms split: list.split)
  show "quiet (rateLimitMiddleware b R E scope l h r w)"
    unfolding rateLimitMiddleware_def Let_def
    by (auto intro!: quiet_cases quiet_return quiet_after_reads [OF keeps_tryM [OF same_db_locks(3)]] quiet_after_reads [OF keeps_Inc] assms)
  show "quiet (corsMiddleware origin h r w)"
    unfolding corsMiddleware_def Let_def by (intro quiet_cases quiet_return assms) (simp add: assms(2))
  have w: "starting (w\<lparr>sr_statusCode := StatusOK\<rparr>)" using assms(2) by (simp add: starting_def)
  show "quiet (metricsMiddleware E h r w)"
    unfolding metricsMiddleware_def Let_def
    by (intro quiet_after_reads [OF keeps_Now] quiet_before_reads assms(1) [OF w] keeps_rules same_db_rules)
      (auto simp: run_iff)
qed

lemmas quiet_reads = same_db_handlers [THEN quiet_same_db]
  quiet_after_reads [OF keeps_getsM [OF reflp_same_db], where f = "\<lambda>x. returnM (g x)" for g, OF quiet_return]

lemma quiet_serve:
  assumes "no_lost_answer E" and "starting w"
  shows "quiet (ServeHTTP H R E cfg r w)"
proof -
  have endpoint: "quiet (endpoint_handler H R E cfg e r w)" if "starting w" for e r w
    by (cases e)
      (simp_all add: quiet_middleware quiet_writers quiet_locked quiet_logout quiet_reads that assms(1))
  have handler: "quiet (route_handler H R E cfg e r w)" if "starting w" for e r w
    using that by (auto simp: route_handler_def intro!: quiet_middleware endpoint)
  have router: "quiet (route H R E cfg r w)" if "starting w" for r w
    using that by (auto simp: route_def intro!: quiet_return handler split: option.split)
  show ?thesis using assms(2) by (auto simp: ServeHTTP_def intro!: quiet_middleware router)
qed

text \<open>
  C28: an error response means that nothing happened. Whatever the request, if the API answers with a status of 400 or more the tables are
  as they were, as long as no answer of the database is lost on the way.
\<close>

theorem error_response_no_change:
  assumes "no_lost_answer E" and "starting w" and "ServeHTTP H R E cfg r w z = (Inr w', z')"
    and "rw_status w' = Some c" and "StatusBadRequest \<le> c"
  shows "w_db z' = w_db z"
  using quietD [OF quiet_serve [OF assms(1,2)] assms(3)] assms(4,5) by (auto simp: failed_def)

section \<open>Witnesses\<close>

definition ex_api_created :: redis_world where
  "ex_api_created = snd (CreateOrder ex_ext ex_create ex_api_registered)"

lemma ex_api_created_order: "ex_order \<in> set (tbl_orders (w_db ex_api_created))"
  using ex_register_http by (simp add: ex_api_created_def ex_create_service bump_metric_def add_created_def)

lemma ex_api_reachable: "reachable system_init (api_step ex_http ex_redis ex_ext ex_router ex_cfg) ex_api_created"
proof -
  have "reachable system_init (api_step ex_http ex_redis ex_ext ex_router ex_cfg) ex_redis_init"
    by (rule reachable.start) (simp add: system_init_def)
  moreover have "api_step ex_http ex_redis ex_ext ex_router ex_cfg ex_redis_init ex_api_registered"
    unfolding ex_api_registered_def by (rule api_step.request, rule prod.collapse [symmetric])
  moreover have "api_step ex_http ex_redis ex_ext ex_router ex_cfg ex_api_registered ex_api_created"
    unfolding ex_api_created_def
    by (rule api_step.background, rule service_step.create, rule prod.collapse [symmetric])
  ultimately show ?thesis by (blast intro: reachable.step)
qed

theorem api_orders_charged_once_witness:
  "\<exists>r' \<in> set (tbl_orders (w_db (ex_api_created\<lparr>w_redis := Map.empty, w_redis_calls := 9\<rparr>))). same_order ex_order r' \<and>
    succeeded (w_db ex_api_created) (Order_ID ex_order) = []"
proof -
  have "(api_step ex_http ex_redis ex_ext ex_router ex_cfg)\<^sup>*\<^sup>* ex_api_created (ex_api_created\<lparr>w_redis := Map.empty, w_redis_calls := 9\<rparr>)"
    by (rule r_into_rtranclp, rule api_step.redis)
  from api_orders_charged_once [OF ex_laws(3) ex_api_reachable ex_api_created_order this] show ?thesis
    by (auto simp: ex_order_def split: if_splits)
qed

text \<open>A token of the service that expires at the time 3, and a request with it that is served from the time 5 on.\<close>

definition ex_expiring :: Claims where
  "ex_expiring = \<lparr>Claims_UserID = ''1'', Claims_Email = ''a@b.c'', Claims_Role = ''customer'', Claims_Subject = ''1'',
     Claims_IssuedAt = 0, Claims_ExpiresAt = 3\<rparr>"

definition ex_expired_request :: Request where
  "ex_expired_request = (ex_get ''/orders'')\<lparr>req_Header := [(''Authorization'', ''Bearer '' @ projr (ex_sign ''key'' ex_expiring))]\<rparr>"

lemma ex_expired_bearer: "bearer ex_expired_request = Some (projr (ex_sign ''key'' ex_expiring))"
  by code_simp

lemma ex_expired_claims:
  "token_claims ex_ext (as_tokenManager ex_service) now (projr (ex_sign ''key'' ex_expiring)) = (if now < 3 then Some ex_expiring else None)"
proof -
  let ?t = "projr (ex_sign ''key'' ex_expiring)"
  have "plain_claims ex_ext ex_expiring" by (simp add: plain_claims_def ex_expiring_def is_ascii_def)
  then have "jwt_Unverified ex_ext ?t = Some (''HS256'', ex_expiring) \<and> jwt_Verify ex_ext ''HS256'' ''key'' ?t"
    using ex_jwt_laws ex_sel(15) [of "''key''" ex_expiring] unfolding jwt_laws_def by blast
  moreover have "jwt_Validate ex_ext now ex_expiring \<longleftrightarrow> now < 3" using ex_jwt_laws by (simp add: jwt_laws_def ex_expiring_def)
  ultimately show ?thesis by (simp add: token_claims_def ex_service_def) (simp add: ex_expiring_def)
qed

theorem unauthenticated_refused_witness:
  "(\<exists>t c. bearer ex_expired_request = Some t \<and> token_claims ex_ext (as_tokenManager ex_service) 2 t = Some c) \<and>
   (\<exists>w' z'. ServeHTTP ex_http ex_redis ex_ext ex_router ex_expired_request ex_response (ex_user_world\<lparr>w_clock := 5\<rparr>) = (Inr w', z') \<and>
    rw_status w' = Some StatusUnauthorized \<and> w_db z' = w_db ex_user_world)"
proof -
  have "chi_Match ex_http routes (req_Method ex_expired_request) (req_URL ex_expired_request) = Some (OrdersList, ''/orders'', '''')"
    by (simp add: ex_http_def ex_expired_request_def ex_get_def req_URL_def ex_routes)
  moreover have "time_Now ex_ext (w_clock (ex_user_world\<lparr>w_clock := 5\<rparr>) + clock_before_auth ex_router) = 6"
    by (simp add: clock_before_auth_def)
  ultimately show ?thesis
    using unauthenticated_refused [of ex_http ex_ext ex_expired_request OrdersList "''/orders''" "''''" 6 "ex_user_world\<lparr>w_clock := 5\<rparr>"
      ex_router ex_response ex_redis]
    by (auto simp: protected_def ex_expired_bearer ex_expired_claims)
qed

theorem order_busy_witness:
  "\<exists>w' z'. handlePayOrder ex_redis ex_ext (router_Server ex_router)
      ((ex_post ''/orders/1/pay'' [] '''')\<lparr>req_URLParam_id := ''1'', req_claims := Some ex_claims\<rparr>) ex_response ex_locked_world = (Inr w', z') \<and>
    w' = writeJSONError StatusConflict ''order is being processed'' ex_response \<and> w_db z' = w_db ex_locked_world"
proof -
  let ?r = "(ex_post ''/orders/1/pay'' [] '''')\<lparr>req_URLParam_id := ''1'', req_claims := Some ex_claims\<rparr>"
  obtain v z' where v: "handlePayOrder ex_redis ex_ext (router_Server ex_router) ?r ex_response ex_locked_world = (v, z')"
    by (metis surj_pair)
  have "live (redis_clock ex_redis (w_redis_calls ex_locked_world)) (w_redis ex_locked_world) (orderLockKey (req_URLParam_id ?r)) =
      Some (uuid_text 1)"
    by (simp add: ex_locked_world_def live_def orderLockKey_def)
  from order_busy [OF ex_router_sel(4) ex_response_sel(2) _ _ this disjI1 [OF v]] v show ?thesis by auto
qed

theorem error_response_no_change_witness:
  "\<exists>w' z'. ServeHTTP ex_http ex_redis ex_ext ex_router (ex_get ''/orders'') ex_response ex_user_world = (Inr w', z') \<and>
    rw_status w' = Some StatusUnauthorized \<and> w_db z' = w_db ex_user_world"
proof -
  obtain w' z' where run: "ServeHTTP ex_http ex_redis ex_ext ex_router (ex_get ''/orders'') ex_response ex_user_world = (Inr w', z')"
    "rw_status w' = Some StatusUnauthorized" using ex_unauthenticated by blast
  from error_response_no_change [OF ex_no_lost ex_response_sel(1) run] run show ?thesis by simp
qed

end
