(* ===== verification/Api_Results.thy ===== *)
theory Api_Results
  imports Api_Properties
begin

text \<open>
  What the routes of the API answer: a request over the limit, a login, a repeated creation, a registration with an email that is
  taken; and the counter of requests. The witnesses are runs of the handlers in the environment of \<open>Api_Example\<close>.
\<close>

section \<open>Limits and metrics\<close>

text \<open>
  The address a request is counted under is the first one of \<^verbatim>\<open>X-Forwarded-For\<close>. Proxies add to the end of the header, so this is what the client
  wrote: a client that writes another address with each request is never over a limit.
\<close>

lemma hd_split_on: "sep \<notin> set s \<Longrightarrow> hd (split_on sep cur (s @ sep # t)) = cur @ s"
  by (induction s arbitrary: cur) auto

lemma client_chooses_address:
  assumes "header_Get (req_Header r) ''X-Forwarded-For'' = s @ CHR '','' # t" and "CHR '','' \<notin> set s" and "TrimSpace s \<noteq> ''''"
  shows "clientIPFromRequest r = TrimSpace s"
  using assms hd_split_on [of "CHR '',''" s "''''" t] by (simp add: clientIPFromRequest_def Split_def Let_def)

lemma header_names:
  "canonical ''Retry-After'' = ''Retry-After''" "canonical ''RateLimit-Remaining'' = ''Ratelimit-Remaining''"
  "canonical ''RateLimit-Limit'' = ''Ratelimit-Limit''" "canonical ''Content-Type'' = ''Content-Type''"
  by code_simp+

text \<open>
  C34: what a request over the limit gets. The handler behind the limiter is not run; the answer is 429 with the limit, 0 remaining
  requests, and a number of seconds to wait between 1 and 60, and the metric of blocked requests of the
  scope is counted up.
\<close>

theorem over_limit_response:
  assumes "Allow R E scope (clientIPFromRequest r) limit Minute z = (Inr res, z1)" and "0 < limit" and "\<not> res_Allowed res"
    and "starting w"
  shows "\<exists>w' k. rateLimitMiddleware True R E scope limit next r w z =
      (Inr w', bump_metric ''order_service_rate_limit_blocked_total'' [scope] z1) \<and>
    rw_status w' = Some StatusTooManyRequests \<and> w_db z1 = w_db z \<and>
    header_Get (rw_header w') ''RateLimit-Limit'' = Itoa limit \<and> header_Get (rw_header w') ''RateLimit-Remaining'' = Itoa 0 \<and>
    header_Get (rw_header w') ''Retry-After'' = Itoa k \<and> 1 \<le> k \<and> k \<le> 60"
proof -
  obtain c where res: "res = limit_result limit Minute (time_Now E (w_clock z)) c"
    by (rule Allow_InrD [OF assms(1)]) blast
  with assms(3) have "limit < c" by (simp add: limit_result_def Let_def)
  with assms(2) have c: "0 < c" "res_Remaining res = 0" "res_Limit res = limit"
    by (simp_all add: res limit_result_def Let_def)
  note b = limit_result_bounds(3,4) [of Minute c limit "time_Now E (w_clock z)", folded res]
  define secs where "secs = int_Seconds (res_RetryAfter res)"
  have k: "1 \<le> (if secs < 1 then 1 else secs)" "(if secs < 1 then 1 else secs) \<le> 60"
    using b c(1) by (auto simp: secs_def int_Seconds_def)
  let ?k = "if secs < 1 then 1 else secs"
  let ?w = "header_Set ''Retry-After'' (Itoa ?k) (header_Set ''RateLimit-Remaining'' (Itoa (res_Remaining res))
      (header_Set ''RateLimit-Limit'' (Itoa (res_Limit res)) w))"
  let ?w' = "writeJSONError StatusTooManyRequests ''rate limit exceeded'' ?w"
  have none: "rw_status w = None" "rw_status ?w = None" using assms(4) by (simp_all add: starting_def)
  have "rateLimitMiddleware True R E scope limit next r w z =
      (Inr ?w', bump_metric ''order_service_rate_limit_blocked_total'' [scope] z1)"
    using assms(1-3) by (simp add: rateLimitMiddleware_def bindM_def tryM_def returnM_def Let_def secs_def run_iff Inc_def modifyM_def)
  moreover have "header_Get (rw_header ?w') ''RateLimit-Limit'' = Itoa limit \<and>
      header_Get (rw_header ?w') ''RateLimit-Remaining'' = Itoa 0 \<and> header_Get (rw_header ?w') ''Retry-After'' = Itoa ?k"
    using none c by (simp add: writeJSONError_def header_names) (simp add: header_Set_def header_names)
  moreover have "rw_status ?w' = Some StatusTooManyRequests" using none by simp
  ultimately show ?thesis using same_dbD [OF same_db_locks(3) assms(1)] k by blast
qed

text \<open>
  C37: every request is counted once, under the status that was sent: the counter of its method, the pattern of its route
  (or its path when there is none) and its status goes up by one, and no other label of that metric moves.
\<close>

theorem request_counted:
  assumes "http_laws H" and "starting w" and "ServeHTTP H R E cfg r w z = (v, z')"
  shows "\<exists>w' c. v = Inr w' \<and> rw_status w' = Some c \<and>
    w_metrics z' ''order_service_http_requests_total'' =
      (w_metrics z ''order_service_http_requests_total'')
        ([req_Method r, if rw_pattern w' \<noteq> '''' then rw_pattern w' else req_Path r, Itoa c] :=
          Suc (w_metrics z ''order_service_http_requests_total''
            [req_Method r, if rw_pattern w' \<noteq> '''' then rw_pattern w' else req_Path r, Itoa c]))"
proof -
  let ?n = "''order_service_http_requests_total''"
  let ?inner = "if rc_CORSAllowedOrigin cfg \<noteq> '''' then corsMiddleware (rc_CORSAllowedOrigin cfg) (route H R E cfg) else route H R E cfg"
  let ?w = "w\<lparr>sr_statusCode := StatusOK\<rparr>" and ?z = "z\<lparr>w_clock := Suc (w_clock z)\<rparr>"
  have w: "starting ?w" using assms(2) by (simp add: starting_def)
  obtain u z1 where u: "?inner r ?w ?z = (u, z1)" by (metis surj_pair)
  have "gives recorded (?inner r ?w)"
    by (simp add: http_handler.answers [OF http_handler.cors [OF route_contract] assms(1) w]
        http_handler.answers [OF route_contract assms(1) w])
  from givesD [OF this u] obtain w' where w': "u = Inr w'" "rw_status w' = Some (sr_statusCode w')" by (auto simp: recorded_def)
  have "keeps (same_http_metric ?n) (?inner r ?w)"
    by (simp add: http_metric.middleware(3) http_metric.route)
  from keepsD [OF this u] have same: "w_metrics z1 ?n = w_metrics z ?n"
    by (simp add: same_http_metric_def service_metrics_def limiter_metrics_def)
  have "v = Inr w' \<and> w_metrics z' ?n = (w_metrics z1 ?n)
      ([req_Method r, if rw_pattern w' \<noteq> '''' then rw_pattern w' else req_Path r, Itoa (sr_statusCode w')] :=
        Suc (w_metrics z1 ?n [req_Method r, if rw_pattern w' \<noteq> '''' then rw_pattern w' else req_Path r, Itoa (sr_statusCode w')]))"
    using assms(3) u w'(1)
    by (auto simp: ServeHTTP_def metricsMiddleware_def bindM_def Now_def Let_def Inc_def modifyM_def returnM_def bump_metric_def)
  with w'(2) same show ?thesis by auto
qed

section \<open>Sessions\<close>

lemma writeJSONError_not_ok: "rw_status w = None \<Longrightarrow> rw_status (writeJSONError c msg w) = Some d \<longleftrightarrow> d = c"
  by auto

lemma handleLogin_OK:
  fixes z :: "'z redis_world_scheme"
  assumes "handleLogin E s r w z = (Inr w', z')" and "rw_status w' = Some StatusOK" and "rw_status w = None"
  obtains req res and z1 :: "'z redis_world_scheme" where "Decode_loginRequest (req_Body r) = Some req"
    and "Login E (srv_authService s) \<lparr>lp_Email = log_req_Email req, lp_Password = log_req_Password req\<rparr> z = (Inr res, z1)"
    and "z' = z1\<lparr>w_clock := Suc (w_clock z1)\<rparr>"
    and "w' = writeJSON StatusOK (loginResponse E (lr_AccessToken res) (lr_User res))
      (SetCookie (refresh_cookie s (lr_RefreshToken res) (lr_RefreshTokenExpiresAt res)
        (max 0 (int_Seconds (lr_RefreshTokenExpiresAt res - time_Now E (w_clock z1))))) w)"
proof (cases "Decode_loginRequest (req_Body r)")
  case None
  with assms show ?thesis by (auto simp: handleLogin_def run_iff)
next
  case (Some req)
  obtain v z1 where v: "Login E (srv_authService s) \<lparr>lp_Email = log_req_Email req, lp_Password = log_req_Password req\<rparr> z = (v, z1)"
    by (metis surj_pair)
  show ?thesis
  proof (cases v)
    case (Inl e)
    with assms Some v show ?thesis by (auto simp: handleLogin_def run_iff split: if_splits)
  next
    case (Inr res)
    with assms(1) Some v have "z' = z1\<lparr>w_clock := Suc (w_clock z1)\<rparr>"
      "w' = writeJSON StatusOK (loginResponse E (lr_AccessToken res) (lr_User res))
        (SetCookie (refresh_cookie s (lr_RefreshToken res) (lr_RefreshTokenExpiresAt res)
          (max 0 (int_Seconds (lr_RefreshTokenExpiresAt res - time_Now E (w_clock z1))))) w)"
      by (simp_all add: handleLogin_def run_iff setRefreshTokenCookie_def Let_def max_def not_less)
    with Some Inr v show ?thesis by (intro that) simp_all
  qed
qed

lemma int_Seconds_max: "0 \<le> max 0 (int_Seconds d)" "max 0 (int_Seconds d) * Second \<le> max 0 d"
  by (auto simp: int_Seconds_def max_def)

text \<open>
  C35: what a login gives. The response 200 means that the email and password are those of a user; its body carries an access
  token that the API reads back as this user's identity until it expires, its cookie carries a
  refresh token that is not readable by scripts, does not outlive the session, and whose hash is stored
  with a new session of the user that is not revoked.
\<close>

theorem login_session:
  fixes z :: "'z redis_world_scheme"
  assumes "uuid_laws E" and "jwt_laws E" and "schema_ok (w_db z)"
    and "handleLogin E s r w z = (Inr w', z')" and "rw_status w' = Some StatusOK" and "starting w"
  shows "\<exists>req user accessToken token expires age t n.
    Decode_loginRequest (req_Body r) = Some req \<and> user \<in> set (tbl_users (w_db z)) \<and>
    User_Email user = normal_email E (log_req_Email req) \<and> bcrypt_Compare E (User_PasswordHash user) (log_req_Password req) \<and>
    rw_body w' = rw_body w @ Marshal (loginResponse E accessToken user) @ [CHR 0x0A] \<and>
    rw_cookies w' = rw_cookies w @ [refresh_cookie s token expires age] \<and>
    0 \<le> age \<and> age * Second \<le> max 0 (expires - time_Now E n) \<and>
    t \<in> set (tbl_refresh_tokens (w_db z')) \<and> RefreshToken_TokenHash t = HashRefreshToken E token \<and>
    RefreshToken_UserID t = User_ID user \<and> RefreshToken_RevokedAt t = None \<and>
    RefreshToken_ExpiresAt t = pg_timestamp E expires \<and>
    (list_all is_ascii (uuid_String E (User_ID user)) \<longrightarrow> list_all is_ascii (User_Email user) \<longrightarrow>
      (\<forall>z2 :: 'z redis_world_scheme. time_Now E (w_clock z2) < jwt_NumericDate E (time_Now E (w_clock z) + tm_ttl (as_tokenManager (srv_authService s))) \<longrightarrow>
        (\<exists>c. fst (ParseAccessToken E (as_tokenManager (srv_authService s)) accessToken z2) = Inr c \<and>
          Claims_UserID c = uuid_String E (User_ID user) \<and> Claims_Email c = User_Email user \<and> Claims_Role c = User_Role user)))"
proof -
  have none: "rw_status w = None" using assms(6) by (simp add: starting_def)
  obtain req res and z1 :: "'z redis_world_scheme" where req: "Decode_loginRequest (req_Body r) = Some req"
    and login: "Login E (srv_authService s) \<lparr>lp_Email = log_req_Email req, lp_Password = log_req_Password req\<rparr> z = (Inr res, z1)"
    and z': "z' = z1\<lparr>w_clock := Suc (w_clock z1)\<rparr>"
    and w': "w' = writeJSON StatusOK (loginResponse E (lr_AccessToken res) (lr_User res))
      (SetCookie (refresh_cookie s (lr_RefreshToken res) (lr_RefreshTokenExpiresAt res)
        (max 0 (int_Seconds (lr_RefreshTokenExpiresAt res - time_Now E (w_clock z1))))) w)"
    by (rule handleLogin_OK [OF assms(4,5) none])
  obtain t and z2 z3 :: "'z redis_world_scheme" where
    user: "lr_User res \<in> set (tbl_users (w_db z))" "User_Email (lr_User res) = normal_email E (log_req_Email req)"
      "bcrypt_Compare E (User_PasswordHash (lr_User res)) (log_req_Password req)"
    and gen: "GenerateAccessToken E (as_tokenManager (srv_authService s)) (uuid_String E (User_ID (lr_User res)))
      (User_Email (lr_User res)) (User_Role (lr_User res)) z2 = (Inr (lr_AccessToken res), z3)"
    and t: "w_db z1 = (w_db z)\<lparr>tbl_refresh_tokens := tbl_refresh_tokens (w_db z) @ [t]\<rparr>"
      "RefreshToken_TokenHash t = HashRefreshToken E (lr_RefreshToken res)" "RefreshToken_UserID t = User_ID (lr_User res)"
      "RefreshToken_RevokedAt t = None" "RefreshToken_ExpiresAt t = pg_timestamp E (lr_RefreshTokenExpiresAt res)"
    and clock: "w_clock z2 = w_clock z"
    by (rule Login_InrD [OF login assms(1)]) auto
  have role: "list_all is_ascii (User_Role (lr_User res))" "User_Role (lr_User res) \<noteq> ''''"
    using assms(3) user(1) by (auto simp: schema_ok_def checks_ok_def user_check_def is_ascii_def)
  have email: "User_Email (lr_User res) \<noteq> ''''" using login user(2) by (auto simp: Login_def run_iff)
  have access: "\<exists>c. fst (ParseAccessToken E (as_tokenManager (srv_authService s)) (lr_AccessToken res) y) = Inr c \<and>
      Claims_UserID c = uuid_String E (User_ID (lr_User res)) \<and> Claims_Email c = User_Email (lr_User res) \<and>
      Claims_Role c = User_Role (lr_User res)"
    if "list_all is_ascii (uuid_String E (User_ID (lr_User res)))" "list_all is_ascii (User_Email (lr_User res))"
      "time_Now E (w_clock y) < jwt_NumericDate E (time_Now E (w_clock z) + tm_ttl (as_tokenManager (srv_authService s)))"
    for y :: "'z redis_world_scheme"
    using access_token_roundtrip [OF assms(2) gen that(1,2) role(1) uuid_lawsD(3) [OF assms(1)] email role(2), of y] that(3)
    by (simp add: clock)
  show ?thesis
    by (rule exI [of _ req], rule exI [of _ "lr_User res"], rule exI [of _ "lr_AccessToken res"], rule exI [of _ "lr_RefreshToken res"],
        rule exI [of _ "lr_RefreshTokenExpiresAt res"],
        rule exI [of _ "max 0 (int_Seconds (lr_RefreshTokenExpiresAt res - time_Now E (w_clock z1)))"], rule exI [of _ t],
        rule exI [of _ "w_clock z1"])
      (use req user t access none in \<open>simp add: w' z' int_Seconds_max SetCookie_def\<close>)
qed

section \<open>Registration\<close>

lemma handleRegister_run:
  assumes "Decode_registerRequest (req_Body r) = Some req"
    and "RegisterUser E \<lparr>rup_Email = reg_req_Email req, rup_Password = reg_req_Password req, rup_Role = reg_req_Role req\<rparr> z = (v, z1)"
  shows "handleRegister E r w z =
    (Inr (case v of
       Inl err \<Rightarrow> if errors_Is err ErrInvalidInput then writeJSONError StatusBadRequest ''invalid register input'' w
         else if errors_Is err ErrEmailAlreadyExists then writeJSONError StatusConflict ''email already exists'' w
         else writeJSONError StatusInternalServerError ''failed to register user'' w
     | Inr user \<Rightarrow> writeJSON StatusCreated (newUserResponse E user) w), z1)"
  using assms by (simp add: handleRegister_def bindM_def tryM_def returnM_def split: sum.split)

text \<open>
  C36: what a registration does. The response 201 means that one user was added, under the trimmed
  email in lower case, which no user had before, with the role that was asked for (a customer if none was) and a
  hash that the password matches; the body describes the user. If the email is
  taken the response is 409 and nothing is added.
\<close>

theorem registration:
  fixes z :: "'z redis_world_scheme"
  assumes "uuid_Scan E (uuid_New E (w_uuid z)) \<noteq> None" and "bcrypt_laws E"
    and "Decode_registerRequest (req_Body r) = Some req" and "starting w"
    and "handleRegister E r w z = (Inr w', z')" and "email = normal_email E (reg_req_Email req)"
  shows "(rw_status w' = Some StatusCreated \<longrightarrow>
      (\<exists>user. w_db z' = (w_db z)\<lparr>tbl_users := tbl_users (w_db z) @ [user]\<rparr> \<and> User_Email user = email \<and> email \<noteq> '''' \<and>
        email \<notin> User_Email ` set (tbl_users (w_db z)) \<and> bcrypt_Compare E (User_PasswordHash user) (reg_req_Password req) \<and>
        User_Role user = (if reg_req_Role req = '''' then ''customer'' else reg_req_Role req) \<and>
        rw_body w' = rw_body w @ Marshal (newUserResponse E user) @ [CHR 0x0A])) \<and>
    (email \<in> User_Email ` set (tbl_users (w_db z)) \<and> email \<noteq> '''' \<and> reg_req_Password req \<noteq> '''' \<and>
      reg_req_Role req \<in> {'''', ''customer'', ''admin''} \<and> sql_fault E (w_stmt z) = NoFault \<and>
      (\<exists>h. bcrypt_Generate E (w_rand z) (reg_req_Password req) = Inr h) \<longrightarrow>
      rw_status w' = Some StatusConflict \<and> w_db z' = w_db z)"
proof -
  let ?p = "\<lparr>rup_Email = reg_req_Email req, rup_Password = reg_req_Password req, rup_Role = reg_req_Role req\<rparr>"
  have none: "rw_status w = None" using assms(4) by (simp add: starting_def)
  obtain v z1 where v: "RegisterUser E ?p z = (v, z1)" by (metis surj_pair)
  note run = handleRegister_run [OF assms(3) v, of w]
  have z': "z' = z1" using run assms(5) by simp
  show ?thesis
  proof (cases v)
    case (Inl e)
    then have w': "rw_status w' \<noteq> Some StatusCreated" using run assms(5) none by (auto split: if_splits)
    have "rw_status w' = Some StatusConflict \<and> w_db z' = w_db z"
      if "email \<in> User_Email ` set (tbl_users (w_db z))" "email \<noteq> ''''" "reg_req_Password req \<noteq> ''''"
        "reg_req_Role req \<in> {'''', ''customer'', ''admin''}" "sql_fault E (w_stmt z) = NoFault"
        "bcrypt_Generate E (w_rand z) (reg_req_Password req) = Inr h" for h
    proof -
      obtain i where "uuid_Scan E (uuid_New E (w_uuid z)) = Some i" using assms(1) by blast
      then have "\<exists>z'. RegisterUser E ?p z = (Inl ErrEmailAlreadyExists, z') \<and> w_db z' = w_db z"
        by (intro RegisterUser_taken) (use that assms(6) in simp_all)
      with v run assms(5) none z' show ?thesis by auto
    qed
    with w' show ?thesis by blast
  next
    case (Inr user)
    note u = RegisterUser_InrD [OF v [unfolded Inr]]
    have "rw_body w' = rw_body w @ Marshal (newUserResponse E user) @ [CHR 0x0A]"
      using run assms(5) Inr none by auto
    moreover have "bcrypt_Compare E (User_PasswordHash user) (reg_req_Password req)"
      using u(5) assms(2) by (simp add: bcrypt_laws_def)
    moreover have "\<not> email \<in> User_Email ` set (tbl_users (w_db z))" using u(2,6) assms(6) by simp
    ultimately show ?thesis using u(1-4) z' assms(6) by (intro conjI impI exI [of _ user]) simp_all
  qed
qed

section \<open>Repeated requests\<close>

definition create_params :: "Request \<Rightarrow> Claims \<Rightarrow> createOrderRequest \<Rightarrow> CreateOrderParams" where
  "create_params r claims req =
     \<lparr>cop_UserID = Claims_UserID claims, cop_IdempotencyKey = header_Get (req_Header r) ''Idempotency-Key'',
      cop_Method = req_Method r, cop_Path = req_Path r, cop_AmountCents = cor_req_AmountCents req,
      cop_Currency = cor_req_Currency req, cop_Description = cor_req_Description req\<rparr>"

lemma handleCreateOrder_run:
  assumes "req_claims r = Some claims" and "Decode_createOrderRequest (req_Body r) = Some req"
    and "CreateOrder E (create_params r claims req) z = (v, z1)" and "starting w"
  obtains w' where "handleCreateOrder E r w z = (Inr w', z1)"
    and "\<And>res. v = Inr res \<Longrightarrow> w' = writeJSON (cor_StatusCode res) (newOrderResponse E (cor_Order res)) w"
    and "\<And>e. v = Inl e \<Longrightarrow> rw_status w' \<noteq> Some StatusCreated"
  using assms
  by (cases v) (auto simp: handleCreateOrder_def create_params_def bindM_def tryM_def returnM_def starting_def)

text \<open>
  C29: creating an order over HTTP is idempotent. Once a request to create an order was answered 201, or changed the
  tables at all (the answer of the database may have been lost), the request made again with the same user, key, method, path and body,
  whatever requests and background steps came between, is answered 201 with that order and changes no table. That order is the one
  of the first response if this was 201, and the one row that the first request added if it changed the tables; its status may have moved on.
\<close>

theorem http_create_repeated:
  fixes z :: "'z redis_world_scheme"
  assumes "ext_laws E" and "schema_ok (w_db z)"
    and "req_claims r = Some claims" and "Decode_createOrderRequest (req_Body r) = Some req"
    and first: "handleCreateOrder E r w z = (Inr w1, z1)" "rw_status w1 = Some StatusCreated \<or> w_db z1 \<noteq> w_db z"
    and later: "(api_step H R E rcfg cfg)\<^sup>*\<^sup>* z1 z2" "answers_from E z2"
    and again: "req_claims r' = Some claims'" "Claims_UserID claims' = Claims_UserID claims" "req_Body r' = req_Body r"
      "header_Get (req_Header r') ''Idempotency-Key'' = header_Get (req_Header r) ''Idempotency-Key''"
      "req_Method r' = req_Method r" "req_Path r' = req_Path r"
    and "starting w" and "starting u"
  shows "\<exists>order order' z3. handleCreateOrder E r' u z2 = (Inr (writeJSON StatusCreated (newOrderResponse E order') u), z3) \<and>
    w_db z3 = w_db z2 \<and> order' \<in> set (tbl_orders (w_db z2)) \<and> same_order order order' \<and>
    order \<in> set (tbl_orders (w_db z1)) \<and>
    (rw_status w1 = Some StatusCreated \<longrightarrow> w1 = writeJSON StatusCreated (newOrderResponse E order) w) \<and>
    (w_db z1 \<noteq> w_db z \<longrightarrow> tbl_orders (w_db z1) = tbl_orders (w_db z) @ [order])"
proof -
  have laws: "uuid_laws E" using assms(1) by (simp add: ext_laws_def)
  let ?p = "create_params r claims req"
  have params: "create_params r' claims' req = ?p" using again by (simp add: create_params_def)
  obtain v z0 where v: "CreateOrder E ?p z = (v, z0)" by (metis surj_pair)
  obtain w0 where w0: "handleCreateOrder E r w z = (Inr w0, z0)"
    "\<And>res. v = Inr res \<Longrightarrow> w0 = writeJSON (cor_StatusCode res) (newOrderResponse E (cor_Order res)) w"
    "\<And>e. v = Inl e \<Longrightarrow> rw_status w0 \<noteq> Some StatusCreated"
    using handleCreateOrder_run [OF assms(3,4) v assms(15)] by metis
  with first(1) have eq: "w0 = w1" "z0 = z1" by auto
  have effect: "(\<exists>res. v = Inr res) \<or> w_db z1 \<noteq> w_db z" using first(2) w0(3) eq by (cases v) auto
  have ok: "schema_ok (w_db z1)" using v [unfolded eq] assms(1,2) by (rule service_step_create_schema)
  note grow = apis.steps_grow [OF later(1) assms(1) ok] and ok2 = apis.steps_schema [OF later(1) assms(1) ok]
  obtain k o1 where k: "k \<in> set (tbl_idempotency_keys (w_db z1))"
    "key_of E (cop_UserID ?p) (cop_IdempotencyKey ?p) k"
    "same_request (cop_Method ?p) (cop_Path ?p) (order_hash E ?p) k"
    "IdempotencyKey_ResourceID k = Some (Order_ID o1)" "o1 \<in> set (tbl_orders (w_db z1))"
    "\<And>res. v = Inr res \<Longrightarrow> cor_Order res = o1 \<and> cor_StatusCode res = reply_code k"
    "create_input_ok E ?p"
    "w_db z1 \<noteq> w_db z \<longrightarrow> tbl_orders (w_db z1) = tbl_orders (w_db z) @ [o1] \<and> reply_code k = StatusCreated"
    by (rule CreateOrder_left_key [OF v [unfolded eq] laws effect]) blast
  obtain o2 where o2: "o2 \<in> set (tbl_orders (w_db z2))" "same_order o1 o2" using grows_order [OF grow k(5)] by blast
  have resource: "IdempotencyKey_ResourceID k = Some (Order_ID o2)" using k(4) o2(2) by (simp add: same_orderD)
  have keys: "keys_ok (w_db z2)" using ok2 by (simp add: schema_ok_def)
  note cached = CreateOrder_cached [OF k(7) laws later(2) keys grows_key [OF grow k(1)] k(2,3) resource o2(1)]
  have "handleCreateOrder E r' u z2 = (Inr (writeJSON (reply_code k) (newOrderResponse E o2) u), z2\<lparr>w_stmt := Suc (Suc (w_stmt z2))\<rparr>)"
    by (rule handleCreateOrder_run [OF again(1) _ cached [folded params] assms(16)]) (use assms(4) again(3) in auto)
  moreover have created: "reply_code k = StatusCreated \<and> w1 = writeJSON StatusCreated (newOrderResponse E o1) w"
    if "rw_status w1 = Some StatusCreated"
  proof (cases v)
    case (Inl e)
    with w0(3) eq that show ?thesis by simp
  next
    case (Inr res)
    from w0(2) [OF Inr] k(6) [OF Inr] eq(1) have w1: "w1 = writeJSON (reply_code k) (newOrderResponse E o1) w" by simp
    have none: "rw_status w = None" using assms(15) unfolding starting_def by blast
    have "reply_code k = StatusCreated" using that none unfolding w1 by simp
    with w1 show ?thesis by simp
  qed
  moreover have "reply_code k = StatusCreated" using first(2) created k(8) by blast
  ultimately show ?thesis using o2 k(5,8)
    by - (rule exI [of _ o1], rule exI [of _ o2], auto)
qed

section \<open>Witnesses\<close>

definition ex_limited_world :: redis_world where
  "ex_limited_world = ex_redis_init\<lparr>w_redis := [ex_counter \<mapsto> (''2'', None)]\<rparr>"

lemma ex_client: "clientIPFromRequest (ex_post ''/auth/login'' [] '''') = ''10.0.0.1''"
  by code_simp

lemma ex_over_limit:
  "\<exists>res z1. Allow ex_redis ex_ext ''auth_login'' ''10.0.0.1'' 2 Minute ex_limited_world = (Inr res, z1) \<and> \<not> res_Allowed res"
  by (simp add: Allow_def bindM_def Now_def returnM_def Let_def redis_do_NoFault ex_window ex_limited_world_def
      redis_Incr_def redis_Expire_def live_def ex_counts limit_result_def ex_counter_def)

theorem over_limit_response_witness:
  "\<exists>w' z' k. rateLimitMiddleware True ex_redis ex_ext ''auth_login'' 2 (handleLogin ex_ext (router_Server ex_router))
      (ex_post ''/auth/login'' [] '''') ex_response ex_limited_world = (Inr w', z') \<and>
    rw_status w' = Some StatusTooManyRequests \<and> header_Get (rw_header w') ''Retry-After'' = Itoa k \<and> 1 \<le> k \<and> k \<le> 60"
proof -
  obtain res z1 where a: "Allow ex_redis ex_ext ''auth_login'' (clientIPFromRequest (ex_post ''/auth/login'' [] '''')) 2 Minute ex_limited_world =
      (Inr res, z1)" "\<not> res_Allowed res"
    unfolding ex_client using ex_over_limit by blast
  from over_limit_response [OF a(1) _ a(2) ex_response_sel(1), of "handleLogin ex_ext (router_Server ex_router)"]
  show ?thesis by fastforce
qed

theorem request_counted_witness:
  "\<exists>w' z'. ServeHTTP ex_http ex_redis ex_ext ex_router (ex_get ''/orders'') ex_response ex_user_world = (Inr w', z') \<and>
    w_metrics z' ''order_service_http_requests_total'' [''GET'', ''/orders'', ''401''] =
      Suc (w_metrics ex_user_world ''order_service_http_requests_total'' [''GET'', ''/orders'', ''401''])"
proof -
  obtain w' z' where run: "ServeHTTP ex_http ex_redis ex_ext ex_router (ex_get ''/orders'') ex_response ex_user_world = (Inr w', z')"
    "rw_status w' = Some StatusUnauthorized" "rw_pattern w' = ''/orders''" using ex_unauthenticated by blast
  have m: "req_Method (ex_get ''/orders'') = ''GET''" "Itoa StatusUnauthorized = ''401''" by code_simp+
  from request_counted [OF ex_http_laws(2) ex_response_sel(1) run(1)] run m show ?thesis by auto
qed

theorem login_session_witness:
  "\<exists>w' z'. handleLogin ex_ext (router_Server ex_router) (ex_post ''/auth/login'' [] ex_login_body) ex_response ex_user_world = (Inr w', z') \<and>
    rw_status w' = Some StatusOK \<and>
    (\<exists>accessToken user. rw_body w' = Marshal (loginResponse ex_ext accessToken user) @ [CHR 0x0A] \<and> User_Email user = ''ann@example.com'')"
proof -
  let ?r = "ex_post ''/auth/login'' [] ex_login_body"
  have body: "req_Body ?r = ex_login_body" by (simp add: ex_post_def)
  have cred: "\<lparr>lp_Email = '' Ann@Example.com '', lp_Password = ''secret''\<rparr> = ex_credentials" by (simp add: ex_credentials_def)
  obtain w' z' where run: "handleLogin ex_ext (router_Server ex_router) ?r ex_response ex_user_world = (Inr w', z')"
    "rw_status w' = Some StatusOK"
    by (simp add: handleLogin_def body ex_login_decode cred ex_login_service bindM_def tryM_def setRefreshTokenCookie_def Now_def returnM_def Let_def)
  have "schema_ok (w_db ex_user_world)" using ex_schema [OF ex_reachable(2)] by (simp add: ex_registered_eq)
  from login_session [OF ex_laws(1) ex_jwt_laws this run ex_response_sel(1)] run show ?thesis
    by (fastforce simp: body ex_login_decode ex_email)
qed

theorem registration_witness:
  "\<exists>w' z' user. handleRegister ex_ext ex_register_request ex_response ex_redis_init = (Inr w', z') \<and>
    rw_status w' = Some StatusCreated \<and> w_db z' = empty_db\<lparr>tbl_users := [user]\<rparr> \<and> User_Role user = ''customer''"
proof -
  have body: "req_Body ex_register_request = ex_register_body" by (simp add: ex_register_request_def ex_post_def)
  obtain w' z' where run: "handleRegister ex_ext ex_register_request ex_response ex_redis_init = (Inr w', z')"
    "rw_status w' = Some StatusCreated"
    by (simp add: handleRegister_def body ex_register_decode ex_register_params ex_register_service bindM_def tryM_def returnM_def)
  from registration [OF _ ex_laws(5) ex_register_decode [folded body] ex_response_sel(1) run(1) refl] run show ?thesis
    by (auto simp: empty_db_def)
qed

definition ex_http_created :: redis_world where
  "ex_http_created = snd (handleCreateOrder ex_ext ex_create_request ex_response ex_user_world)"

lemma ex_create_http:
  "handleCreateOrder ex_ext ex_create_request ex_response ex_user_world =
    (Inr (writeJSON StatusCreated (newOrderResponse ex_ext ex_order) ex_response), ex_http_created)"
proof -
  have p: "create_params ex_create_request ex_claims
      \<lparr>cor_req_AmountCents = 1999, cor_req_Currency = ''usd'', cor_req_Description = ''book''\<rparr> = ex_create"
    using ex_create_decode(3) by (simp add: create_params_def ex_create_def ex_create_request_def ex_post_def ex_get_def ex_claims_def)
  show ?thesis
    by (rule handleCreateOrder_run [OF ex_create_decode(1,2) ex_create_service [of ex_user_world, folded p] ex_response_sel(1)])
      (simp_all add: ex_http_created_def)
qed

theorem http_create_repeated_witness:
  "\<exists>order' z3. handleCreateOrder ex_ext ex_create_request ex_response (ex_http_created\<lparr>w_redis := Map.empty, w_redis_calls := 9\<rparr>) =
      (Inr (writeJSON StatusCreated (newOrderResponse ex_ext order') ex_response), z3) \<and>
    w_db z3 = w_db ex_http_created"
proof -
  have "(api_step ex_http ex_redis ex_ext ex_router ex_cfg)\<^sup>*\<^sup>* ex_http_created (ex_http_created\<lparr>w_redis := Map.empty, w_redis_calls := 9\<rparr>)"
    by (rule r_into_rtranclp, rule api_step.redis)
  moreover have "schema_ok (w_db ex_user_world)" using ex_schema [OF ex_reachable(2)] by (simp add: ex_registered_eq)
  ultimately show ?thesis
    using http_create_repeated [OF ex_laws(3) _ ex_create_decode(1,2) ex_create_http _ _ ex_answers ex_create_decode(1) refl refl refl refl refl
      ex_response_sel(1,1), of ex_http ex_redis ex_router ex_cfg "ex_http_created\<lparr>w_redis := Map.empty, w_redis_calls := 9\<rparr>"]
    by auto
qed

end
