(* ===== verification/Startup.thy ===== *)
theory Startup
  imports Api_Contract Config
begin

text \<open>
  How the processes start, run and end: \<^verbatim>\<open>internal/appstart\<close> (retries), \<^verbatim>\<open>internal/db\<close> and \<^verbatim>\<open>internal/cache\<close> (connections), the clients of
  \<^verbatim>\<open>internal/kafka\<close>, and \<^verbatim>\<open>cmd/*/main.go\<close>, which put the components together.

  The world is extended by the clients that are open. \<open>connector\<close> is the interface of a function that connects: it opens its
  client if it succeeds, and leaves nothing open if it fails. Trying again keeps this, so a process that ends
  normally has closed every client it opened.
\<close>

section \<open>Connections\<close>

datatype resource = DBPool | RedisClient | KafkaProducer | KafkaConsumer

record proc_world = redis_world +
  p_calls :: nat \<comment> \<open>calls of the libraries that connect\<close>
  p_waits :: nat \<comment> \<open>waits between attempts\<close>
  p_open :: "resource list"

type_synonym ('z, 'a) pio = "('z proc_world_scheme, 'a) comp"

record pool_Config =
  pool_conn :: string \<comment> \<open>what \<^verbatim>\<open>ParseConfig\<close> read from the address\<close>
  MaxConns :: int
  MinConns :: int
  MaxConnLifetime :: time
  MaxConnIdleTime :: time

record kafka_metadata =
  md_Brokers :: nat \<comment> \<open>their number\<close>
  md_Topics :: "string \<rightharpoonup> error option \<times> nat" \<comment> \<open>the error of a topic and the number of its partitions\<close>

text \<open>The libraries: a call reads its answer at the number of the call.\<close>

record start_ext =
  pgx_ParseConfig :: "string \<Rightarrow> error + pool_Config"
  pgx_NewWithConfig :: "pool_Config \<Rightarrow> nat \<Rightarrow> error option"
  redis_ParseURL :: "string \<Rightarrow> error option"
  kafka_NewProducer :: "(string \<times> string) list \<Rightarrow> nat \<Rightarrow> error option"
  kafka_GetMetadata :: "string \<Rightarrow> int \<Rightarrow> nat \<Rightarrow> error + kafka_metadata"
  kafka_Flush :: "int \<Rightarrow> nat \<Rightarrow> int"
  kafka_NewConsumer :: "(string \<times> string) list \<Rightarrow> nat \<Rightarrow> error option"
  kafka_CloseConsumer :: "nat \<Rightarrow> error option"
  start_ctx_Done :: "nat \<Rightarrow> bool" \<comment> \<open>whether \<^verbatim>\<open>ctx.Err()\<close> is set at that look\<close>
  start_wait :: "time \<Rightarrow> nat \<Rightarrow> bool" \<comment> \<open>whether the context is done before the time of a wait is over\<close>

definition lib_call :: "(nat \<Rightarrow> 'a) \<Rightarrow> ('z, 'a) pio" where
  "lib_call f w = (Inr (f (p_calls w)), w\<lparr>p_calls := Suc (p_calls w)\<rparr>)"

definition lib_try :: "(nat \<Rightarrow> error option) \<Rightarrow> ('z, unit) pio" where
  "lib_try f = bindM (lib_call f) (\<lambda>r. case r of None \<Rightarrow> returnM () | Some e \<Rightarrow> throwM e)"

definition opened_client :: "resource \<Rightarrow> ('z, unit) pio" where
  "opened_client r = modifyM (\<lambda>w. w\<lparr>p_open := r # p_open w\<rparr>)"

definition closed_client :: "resource \<Rightarrow> ('z, unit) pio" where
  "closed_client r = modifyM (\<lambda>w. w\<lparr>p_open := remove1 r (p_open w)\<rparr>)"

definition db_Open :: "start_ext \<Rightarrow> ext \<Rightarrow> string \<Rightarrow> ('z, unit) pio" where
  "db_Open S E databaseURL =
     (case pgx_ParseConfig S databaseURL of
        Inl err \<Rightarrow> throwM err
      | Inr config \<Rightarrow>
          bindM (lib_try (pgx_NewWithConfig S (config\<lparr>MaxConns := 10, MinConns := 1, MaxConnLifetime := Hour,
            MaxConnIdleTime := 30 * Minute\<rparr>))) (\<lambda>_.
          bindM (opened_client DBPool) (\<lambda>_.
          bindM (tryM (exec E sql_Ping)) (\<lambda>ping.
          case ping of
            Inl err \<Rightarrow> bindM (closed_client DBPool) (\<lambda>_. throwM err)
          | Inr _ \<Rightarrow> returnM ()))))"

definition OpenRedis :: "start_ext \<Rightarrow> redis_ext \<Rightarrow> string \<Rightarrow> ('z, unit) pio" where
  "OpenRedis S R redisURL =
     (case redis_ParseURL S redisURL of
        Some err \<Rightarrow> throwM err
      | None \<Rightarrow>
          bindM (opened_client RedisClient) (\<lambda>_.
          bindM (tryM (redis_do R redis_Ping)) (\<lambda>ping.
          case ping of
            Inl err \<Rightarrow> bindM (closed_client RedisClient) (\<lambda>_. throwM err)
          | Inr _ \<Rightarrow> returnM ())))"

section \<open>Kafka clients\<close>

definition NewProducer :: "start_ext \<Rightarrow> string \<Rightarrow> ('z, unit) pio" where
  "NewProducer S bootstrapServers =
     (if bootstrapServers = '''' then throwM (ErrLib ''kafka bootstrap servers must not be empty'')
      else
        bindM (mapErrM (Wrapf ''create kafka producer: '') (lib_try (kafka_NewProducer S
          [(''bootstrap.servers'', bootstrapServers), (''client.id'', ''order-outbox-publisher''), (''acks'', ''all''),
           (''enable.idempotence'', ''true''), (''message.timeout.ms'', ''10000'')]))) (\<lambda>_.
        opened_client KafkaProducer))"

definition CheckTopic :: "start_ext \<Rightarrow> string \<Rightarrow> time \<Rightarrow> ('z, unit) pio" where
  "CheckTopic S topic timeout =
     (if topic = '''' then throwM (ErrLib ''kafka topic must not be empty'')
      else if timeout \<le> 0 then throwM (ErrLib ''kafka metadata timeout must be positive'')
      else
        bindM (lib_call (start_ctx_Done S)) (\<lambda>done.
        if done then throwM ErrContext
        else
          bindM (lib_call (kafka_GetMetadata S topic (timeout div 1000000))) (\<lambda>r.
          case r of
            Inl err \<Rightarrow> throwM (Wrapf ''get kafka metadata: '' err)
          | Inr metadata \<Rightarrow>
              bindM (lib_call (start_ctx_Done S)) (\<lambda>done.
              if done then throwM ErrContext
              else if md_Brokers metadata = 0 then throwM (ErrLib ''kafka metadata contains no brokers'')
              else
                case md_Topics metadata topic of
                  None \<Rightarrow> throwM (ErrLib (''kafka topic '' @ quoted topic @ '' not found in metadata''))
                | Some (Some err, partitions) \<Rightarrow> throwM (Wrapf (''kafka topic '' @ quoted topic @ '' metadata error: '') err)
                | Some (None, partitions) \<Rightarrow>
                    if partitions = 0 then throwM (ErrLib (''kafka topic '' @ quoted topic @ '' contains no partitions''))
                    else returnM ()))))"

definition producerFlushTimeoutMilliseconds :: int where
  "producerFlushTimeoutMilliseconds = 5000"

definition producer_Close :: "start_ext \<Rightarrow> ('z, unit) pio" where
  "producer_Close S =
     bindM (lib_call (kafka_Flush S producerFlushTimeoutMilliseconds)) (\<lambda>remaining.
     bindM (closed_client KafkaProducer) (\<lambda>_.
     if 0 < remaining
     then throwM (ErrLib (''close kafka producer with '' @ Itoa remaining @ '' undelivered messages''))
     else returnM ()))"

definition NewConsumer :: "start_ext \<Rightarrow> string \<Rightarrow> string \<Rightarrow> ('z, unit) pio" where
  "NewConsumer S bootstrapServers groupID =
     (if bootstrapServers = '''' then throwM (ErrLib ''kafka bootstrap servers must not be empty'')
      else if groupID = '''' then throwM (ErrLib ''kafka consumer group must not be empty'')
      else
        bindM (mapErrM (Wrapf ''create kafka consumer: '') (lib_try (kafka_NewConsumer S
          [(''bootstrap.servers'', bootstrapServers), (''group.id'', groupID), (''client.id'', ''notification-consumer''),
           (''enable.auto.commit'', ''false''), (''enable.auto.offset.store'', ''false''),
           (''auto.offset.reset'', ''earliest''), (''isolation.level'', ''read_committed'')]))) (\<lambda>_.
        opened_client KafkaConsumer))"

definition consumer_Close :: "start_ext \<Rightarrow> ('z, unit) pio" where
  "consumer_Close S =
     bindM (closed_client KafkaConsumer) (\<lambda>_. mapErrM (Wrapf ''close kafka consumer: '') (lib_try (kafka_CloseConsumer S)))"

section \<open>\<open>appstart.go\<close>\<close>

text \<open>
  The loop counts its attempts. A wait ends when its time is over or when the context is done. Without an attempt the value is the
  zero value, with no error.
\<close>

function Retry_loop ::
    "(nat \<Rightarrow> bool) \<Rightarrow> int \<Rightarrow> ('z, 'a) pio \<Rightarrow> 'a \<Rightarrow> error option \<Rightarrow> int \<Rightarrow> ('z, 'a) pio" where
  "Retry_loop wait attempts fn zero lastErr attempt w =
     (if attempts < attempt then (case lastErr of None \<Rightarrow> Inr zero | Some e \<Rightarrow> Inl e, w)
      else
        case fn w of
          (Inr result, w1) \<Rightarrow> (Inr result, w1)
        | (Inl err, w1) \<Rightarrow>
            if attempt = attempts then (Inl err, w1)
            else
              let w2 = w1\<lparr>p_waits := Suc (p_waits w1)\<rparr> in
              if wait (p_waits w1) then (Inl ErrContext, w2)
              else Retry_loop wait attempts fn zero (Some err) (attempt + 1) w2)"
  by pat_completeness auto
termination
  by (relation "measure (\<lambda>(wait, attempts, fn, zero, lastErr, attempt, w). nat (attempts + 1 - attempt))") auto

declare Retry_loop.simps [simp del]

definition Retry :: "(time \<Rightarrow> nat \<Rightarrow> bool) \<Rightarrow> int \<Rightarrow> time \<Rightarrow> ('z, 'a) pio \<Rightarrow> 'a \<Rightarrow> ('z, 'a) pio" where
  "Retry ctx attempts delay fn zero = Retry_loop (ctx delay) attempts fn zero None 1"

section \<open>\<open>main.go\<close>\<close>

definition connect_producer :: "start_ext \<Rightarrow> Config \<Rightarrow> ('z, unit) pio" where
  "connect_producer S cfg =
     bindM (NewProducer S (cfg_KafkaBootstrapServers cfg)) (\<lambda>_.
     bindM (tryM (CheckTopic S (cfg_KafkaTopic cfg) (5 * Second))) (\<lambda>checked.
     case checked of
       Inl err \<Rightarrow> bindM (tryM (producer_Close S)) (\<lambda>_. throwM err)
     | Inr _ \<Rightarrow> returnM ()))"

definition publisher_config :: "Config \<Rightarrow> publisher_Config" where
  "publisher_config cfg = \<lparr>pub_Topic = cfg_KafkaTopic cfg, pub_BatchSize = cfg_PublisherBatchSize cfg,
     pub_PollInterval = cfg_PublisherPollInterval cfg\<rparr>"

definition router_config :: "Config \<Rightarrow> RouterConfig" where
  "router_config cfg =
     \<lparr>rc_AuthService = \<lparr>as_tokenManager = \<lparr>tm_secret = cfg_JWTSecret cfg, tm_ttl = cfg_AccessTokenTTL cfg\<rparr>,
        as_refreshTokenTTL = cfg_RefreshTokenTTL cfg\<rparr>,
      rc_CookieSecure = cfg_CookieSecure cfg, rc_LockManager = Some (cfg_OrderLockTTL cfg), rc_RateLimiter = True,
      rc_RateLimitEnabled = cfg_RateLimitEnabled cfg,
      rc_RateLimitRequestsPerMinute = cfg_RateLimitRequestsPerMinute cfg,
      rc_AuthRateLimitRequestsPerMinute = cfg_AuthRateLimitRequestsPerMinute cfg,
      rc_LoginRateLimitRequestsPerMinute = cfg_LoginRateLimitRequestsPerMinute cfg,
      rc_CORSAllowedOrigin = cfg_CORSAllowedOrigin cfg\<rparr>"

text \<open>
  The exit code and the world a process leaves. An early exit does not run deferred calls. The publisher makes as many ticks as the
  argument says before its context is done.
\<close>

definition publisher_main :: "start_ext \<Rightarrow> ext \<Rightarrow> Config \<Rightarrow> nat \<Rightarrow> 'z proc_world_scheme \<Rightarrow> int \<times> 'z proc_world_scheme" where
  "publisher_main S E cfg ticks w =
     (case Retry (start_wait S) 12 (5 * Second) (db_Open S E (cfg_DatabaseURL cfg)) () w of
        (Inl err, w1) \<Rightarrow> (1, w1)
      | (Inr _, w1) \<Rightarrow>
          (case Retry (start_wait S) 12 (5 * Second) (connect_producer S cfg) () w1 of
             (Inl err, w2) \<Rightarrow> (1, w2)
           | (Inr _, w2) \<Rightarrow>
               let w3 = publisher_Run E (publisher_config cfg) ticks w2;
                   w4 = snd (producer_Close S w3) in
               (0, snd (closed_client DBPool w4))))"

text \<open>The requests the server was given until the signal came, and whether listening and shutting down failed.\<close>

definition api_main ::
    "start_ext \<Rightarrow> http_ext \<Rightarrow> redis_ext \<Rightarrow> ext \<Rightarrow> Config \<Rightarrow> (Request \<times> statusRecorder) list \<Rightarrow> bool \<Rightarrow> bool \<Rightarrow>
      'z proc_world_scheme \<Rightarrow> int \<times> 'z proc_world_scheme" where
  "api_main S H R E cfg requests listenFailed shutdownFailed w =
     (case Retry (\<lambda>_ _. False) 12 (5 * Second) (db_Open S E (cfg_DatabaseURL cfg)) () w of
        (Inl err, w1) \<Rightarrow> (1, w1)
      | (Inr _, w1) \<Rightarrow>
          (case Retry (\<lambda>_ _. False) 12 (5 * Second) (OpenRedis S R (cfg_RedisURL cfg)) () w1 of
             (Inl err, w2) \<Rightarrow> (1, w2)
           | (Inr _, w2) \<Rightarrow>
               let w3 = fold (\<lambda>(r, rw) z. snd (ServeHTTP H R E (router_config cfg) r rw z)) requests w2 in
               if listenFailed \<or> shutdownFailed then (1, w3)
               else (0, snd (closed_client DBPool (snd (closed_client RedisClient w3))))))"

text \<open>\<open>None\<close>: the loop of the consumer has not returned within the turns it was given.\<close>

definition consumer_main ::
    "start_ext \<Rightarrow> kafka_ext \<Rightarrow> ext \<Rightarrow> Config \<Rightarrow> nat \<Rightarrow> 'z proc_world_scheme \<Rightarrow> int option \<times> 'z proc_world_scheme" where
  "consumer_main S K E cfg turns w =
     (case Retry (start_wait S) 12 (5 * Second) (db_Open S E (cfg_DatabaseURL cfg)) () w of
        (Inl err, w1) \<Rightarrow> (Some 1, w1)
      | (Inr _, w1) \<Rightarrow>
          (case NewConsumer S (cfg_KafkaBootstrapServers cfg) (cfg_KafkaConsumerGroup cfg) w1 of
             (Inl err, w2) \<Rightarrow> (Some 1, w2)
           | (Inr _, w2) \<Rightarrow>
               (case Run turns K (cfg_KafkaTopic cfg) (handleRecord E)
                   \<lparr>c_world = w2, c_polls = 0, c_commits = 0, c_looks = 0, c_handled = [], c_committed = []\<rparr> of
                  (Looping, c) \<Rightarrow> (None, c_world c)
                | (Returned runErr, c) \<Rightarrow>
                    (case consumer_Close S (c_world c) of
                       (closeErr, w3) \<Rightarrow>
                         if runErr \<noteq> None \<or> isl closeErr then (Some 1, w3)
                         else (Some 0, snd (closed_client DBPool w3))))))"

section \<open>Attempts\<close>

text \<open>\<open>tried fn k w u\<close>: from \<open>w\<close>, \<open>k\<close> calls of \<open>fn\<close> failed, each followed by a wait, and left \<open>u\<close>.\<close>

inductive tried :: "('z, 'a) pio \<Rightarrow> nat \<Rightarrow> 'z proc_world_scheme \<Rightarrow> 'z proc_world_scheme \<Rightarrow> bool"
  for fn :: "('z, 'a) pio" where
  none: "tried fn 0 w w"
| more: "fn w = (Inl e, w1) \<Longrightarrow> tried fn k (w1\<lparr>p_waits := Suc (p_waits w1)\<rparr>) u \<Longrightarrow> tried fn (Suc k) w u"

inductive_cases tried_SucE: "tried fn (Suc k) w u"

text \<open>What \<^verbatim>\<open>Retry\<close> gives, and that it makes at most \<open>attempts\<close> calls.\<close>

lemma Retry_loop_tried:
  assumes "Retry_loop wait attempts fn zero lastErr attempt w = (v, w')" and "attempt \<le> attempts"
  shows "\<exists>k u. tried fn k w u \<and> attempt + int k \<le> attempts \<and>
    ((\<exists>x. v = Inr x \<and> fn u = (Inr x, w')) \<or>
     (\<exists>e. v = Inl e \<and> fn u = (Inl e, w') \<and> attempt + int k = attempts) \<or>
     (v = Inl ErrContext \<and> w' = u \<and> 0 < k))"
  using assms
proof (induction wait attempts fn zero lastErr attempt w rule: Retry_loop.induct)
  case (1 wait attempts fn zero lastErr attempt w)
  obtain r w1 where r: "fn w = (r, w1)" by (metis surj_pair)
  show ?case
  proof (cases r)
    case (Inr x)
    with 1(2,3) r have "v = Inr x \<and> w' = w1" by (simp add: Retry_loop.simps [of wait])
    with r Inr 1(3) show ?thesis by (intro exI [of _ 0] exI [of _ w]) (simp add: tried.none)
  next
    case (Inl e)
    let ?w2 = "w1\<lparr>p_waits := Suc (p_waits w1)\<rparr>"
    consider (last) "attempt = attempts" | (stop) "attempt < attempts" "wait (p_waits w1)"
      | (again) "attempt < attempts" "\<not> wait (p_waits w1)" using 1(3) by fastforce
    then show ?thesis
    proof cases
      case last
      with 1(2,3) r Inl have "v = Inl e \<and> w' = w1" by (simp add: Retry_loop.simps [of wait])
      with r Inl last show ?thesis by (intro exI [of _ 0] exI [of _ w]) (simp add: tried.none)
    next
      case stop
      have "tried fn (Suc 0) w ?w2" by (rule tried.more, rule r [unfolded Inl], rule tried.none)
      moreover have "v = Inl ErrContext \<and> w' = ?w2" using stop 1(2,3) r Inl by (simp add: Retry_loop.simps [of wait])
      ultimately show ?thesis using stop by (intro exI [of _ "Suc 0"] exI [of _ ?w2]) simp
    next
      case again
      with 1(2,3) r Inl have "Retry_loop wait attempts fn zero (Some e) (attempt + 1) ?w2 = (v, w')"
        by (simp add: Retry_loop.simps [of wait attempts fn zero lastErr])
      from 1(1) [OF _ r [symmetric] Inl _ refl _ this] again 1(3) obtain k u where k: "tried fn k ?w2 u"
        "attempt + 1 + int k \<le> attempts" "(\<exists>x. v = Inr x \<and> fn u = (Inr x, w')) \<or>
         (\<exists>e. v = Inl e \<and> fn u = (Inl e, w') \<and> attempt + 1 + int k = attempts) \<or> (v = Inl ErrContext \<and> w' = u \<and> 0 < k)"
        by auto
      have "tried fn (Suc k) w u" by (rule tried.more, rule r [unfolded Inl], rule k(1))
      with k(2,3) show ?thesis by (intro exI [of _ "Suc k"] exI [of _ u]) (auto simp: algebra_simps)
    qed
  qed
qed

text \<open>If an attempt in time succeeds, so does \<^verbatim>\<open>Retry\<close>.\<close>

lemma Retry_loop_connects:
  "tried fn k w u \<Longrightarrow> fn u = (Inr x, w') \<Longrightarrow> attempt + int k \<le> attempts \<Longrightarrow> (\<And>n. \<not> wait n) \<Longrightarrow>
    Retry_loop wait attempts fn zero lastErr attempt w = (Inr x, w')"
proof (induction k w u arbitrary: attempt lastErr rule: tried.induct)
  case (none w)
  then show ?case by (simp add: Retry_loop.simps)
next
  case (more w e w1 k u)
  then have "Retry_loop wait attempts fn zero (Some e) (attempt + 1) (w1\<lparr>p_waits := Suc (p_waits w1)\<rparr>) = (Inr x, w')"
    by (intro more.IH) simp_all
  with more.hyps(1) more.prems show ?case by (subst Retry_loop.simps) (simp add: Let_def)
qed

lemma Retry_connects:
  assumes "tried fn k w u" and "fn u = (Inr x, w')" and "int k < attempts" and "\<And>n. \<not> ctx delay n"
  shows "Retry ctx attempts delay fn zero w = (Inr x, w')"
  unfolding Retry_def by (rule Retry_loop_connects [OF assms(1,2) _ assms(4)]) (use assms(3) in simp)

section \<open>The interface of a connection\<close>

definition established :: "resource \<Rightarrow> 'z proc_world_scheme \<Rightarrow> error + 'a \<Rightarrow> 'z proc_world_scheme \<Rightarrow> bool" where
  "established r w v w' \<longleftrightarrow>
     p_open w' = (case v of Inr _ \<Rightarrow> r # p_open w | Inl _ \<Rightarrow> p_open w) \<and> w_db w' = w_db w \<and> w_log w' = w_log w"

locale connector =
  fixes fn :: "('z, 'a) pio" and r :: resource
  assumes connects: "fn w = (v, w') \<Longrightarrow> established r w v w'"
begin

lemma tried: "tried fn k w u \<Longrightarrow> p_open u = p_open w \<and> w_db u = w_db w \<and> w_log u = w_log w"
proof (induction k w u rule: tried.induct)
  case (more w e w1 k u)
  with connects [OF more(1)] show ?case by (simp add: established_def)
qed simp

text \<open>Trying again does as the function it tries.\<close>

lemma retried:
  assumes "Retry ctx attempts delay fn zero w = (v, w')" and "0 < attempts"
  shows "established r w v w'"
proof -
  from Retry_loop_tried [OF assms(1) [unfolded Retry_def]] assms(2) obtain k u where u: "tried fn k w u"
    and "fn u = (v, w') \<or> (\<exists>e. v = Inl e \<and> w' = u)"
    by auto
  then show ?thesis using tried [OF u] by (cases v) (auto simp: established_def dest!: connects)
qed

end

text \<open>What the calls do to the clients that are open, and that they leave the rest alone.\<close>

lemma lib_run [run_iff]:
  "lib_call f w = (v, w') \<longleftrightarrow> v = Inr (f (p_calls w)) \<and> w' = w\<lparr>p_calls := Suc (p_calls w)\<rparr>"
  "lib_try g w = (u, w') \<longleftrightarrow>
     u = (case g (p_calls w) of None \<Rightarrow> Inr () | Some e \<Rightarrow> Inl e) \<and> w' = w\<lparr>p_calls := Suc (p_calls w)\<rparr>"
  by (auto simp: lib_call_def lib_try_def bindM_def returnM_def throwM_def split: option.splits)

lemma resource_run [run_iff]:
  "opened_client r w = (v, w') \<longleftrightarrow> v = Inr () \<and> w' = w\<lparr>p_open := r # p_open w\<rparr>"
  "closed_client r w = (v, w') \<longleftrightarrow> v = Inr () \<and> w' = w\<lparr>p_open := remove1 r (p_open w)\<rparr>"
  by (auto simp: opened_client_def closed_client_def modifyM_def)

definition same_open :: "'z proc_world_scheme \<Rightarrow> 'z proc_world_scheme \<Rightarrow> bool" where
  "same_open w w' \<longleftrightarrow> p_open w' = p_open w"

interpretation open_clients: redis_frame same_open
  by unfold_locales (simp_all add: same_open_def bump_metric_def)

text \<open>A client that was created is checked, and closed if the check fails.\<close>

definition same_services :: "'z proc_world_scheme \<Rightarrow> 'z proc_world_scheme \<Rightarrow> bool" where
  "same_services w w' \<longleftrightarrow> p_open w' = p_open w \<and> w_db w' = w_db w \<and> w_log w' = w_log w"

definition closes :: "resource \<Rightarrow> ('z, 'a) pio \<Rightarrow> bool" where
  "closes r m \<longleftrightarrow> (\<forall>w v w'. m w = (v, w') \<longrightarrow>
     p_open w' = remove1 r (p_open w) \<and> w_db w' = w_db w \<and> w_log w' = w_log w)"

lemma closes_closed: "closes r (closed_client r)"
  by (simp add: closes_def run_iff)

definition checked :: "resource \<Rightarrow> ('z, 'b) pio \<Rightarrow> ('z, 'c) pio \<Rightarrow> ('z, unit) pio" where
  "checked r check close =
     bindM (opened_client r) (\<lambda>_. bindM (tryM check) (\<lambda>c.
     case c of Inl err \<Rightarrow> bindM (tryM close) (\<lambda>_. throwM err) | Inr _ \<Rightarrow> returnM ()))"

lemma checked_connection:
  fixes check :: "('z, 'b) pio" and close :: "('z, 'c) pio"
  assumes "keeps same_services check" and "closes r close" and "checked r check close w = (v, w')"
  shows "established r w v w'"
proof -
  let ?w = "w\<lparr>p_open := r # p_open w\<rparr>"
  obtain c w1 where c: "check ?w = (c, w1)" by (metis surj_pair)
  obtain d w2 where d: "close w1 = (d, w2)" by (metis surj_pair)
  have "checked r check close w = (case c of Inl err \<Rightarrow> (Inl err, w2) | Inr _ \<Rightarrow> (Inr (), w1))"
    using c d by (cases c) (simp_all add: checked_def bindM_def opened_client_def modifyM_def tryM_def throwM_def returnM_def)
  with assms(3) keepsD [OF assms(1) c] assms(2) d show ?thesis
    by (cases c) (auto simp: established_def same_services_def closes_def)
qed

lemma try_closed: "bindM (closed_client r) (\<lambda>_. m) = bindM (tryM (closed_client r)) (\<lambda>_. m)"
  by (simp add: fun_eq_iff bindM_def tryM_def closed_client_def modifyM_def)

lemma connection_steps:
  "throwM e w = (v, w') \<Longrightarrow> established r w v w'"
  "established r (w\<lparr>p_calls := k\<rparr>) v w' \<Longrightarrow> established r w v w'"
  by (auto simp: established_def run_iff split: sum.splits)

lemma connection_lib:
  assumes "bindM (mapErrM g (lib_try f)) (\<lambda>_. m) w = (v, w')" and "\<And>w v w'. m w = (v, w') \<Longrightarrow> established r w v w'"
  shows "established r w v w'"
proof (cases "f (p_calls w)")
  case None
  with assms(1) have "m (w\<lparr>p_calls := Suc (p_calls w)\<rparr>) = (v, w')"
    by (simp add: bindM_def mapErrM_def lib_try_def lib_call_def returnM_def)
  from assms(2) [OF this] show ?thesis by (rule connection_steps(2))
next
  case (Some e)
  with assms(1) show ?thesis
    by (auto simp: bindM_def mapErrM_def lib_try_def lib_call_def throwM_def established_def)
qed

lemma mapErrM_id: "mapErrM (\<lambda>e. e) m = m"
  by (simp add: fun_eq_iff mapErrM_def split: prod.split sum.split)

lemma keeps_Ping:
  "keeps same_services (exec E sql_Ping)" "keeps same_services (redis_do R redis_Ping)"
proof -
  show "keeps same_services (exec E sql_Ping)"
    by (rule keepsI) (auto simp: exec_def sql_Ping_def same_services_def Let_def split: fault.splits)
  show "keeps same_services (redis_do R redis_Ping)"
    by (rule keepsI, unfold same_services_def)
      (auto dest: keepsD [OF open_clients.redis_do, unfolded same_open_def] keepsD [OF http_log.redis_do, unfolded same_log_def]
        redis_do_frame(1))
qed

lemma connections_checked:
  "db_Open S E url =
     (case pgx_ParseConfig S url of
        Inl err \<Rightarrow> throwM err
      | Inr config \<Rightarrow>
          bindM (mapErrM (\<lambda>e. e) (lib_try (pgx_NewWithConfig S (config\<lparr>MaxConns := 10, MinConns := 1, MaxConnLifetime := Hour,
            MaxConnIdleTime := 30 * Minute\<rparr>)))) (\<lambda>_. checked DBPool (exec E sql_Ping) (closed_client DBPool)))"
  "OpenRedis S R url =
     (case redis_ParseURL S url of
        Some err \<Rightarrow> throwM err
      | None \<Rightarrow> checked RedisClient (redis_do R redis_Ping) (closed_client RedisClient))"
  unfolding db_Open_def OpenRedis_def checked_def try_closed mapErrM_id by (rule refl)+

interpretation pool: connector "db_Open S E url" DBPool for S E url
proof
  fix w v w' assume run: "db_Open S E url w = (v, w')"
  show "established DBPool w v w'"
  proof (cases "pgx_ParseConfig S url")
    case (Inl e)
    with run show ?thesis by (simp add: connections_checked connection_steps(1))
  next
    case (Inr c)
    from run [unfolded connections_checked Inr sum.case] show ?thesis
      by (rule connection_lib) (rule checked_connection [OF keeps_Ping(1) closes_closed])
  qed
qed

interpretation redis_client: connector "OpenRedis S R url" RedisClient for S R url
proof
  fix w v w' assume run: "OpenRedis S R url w = (v, w')"
  then show "established RedisClient w v w'"
    by (cases "redis_ParseURL S url")
      (auto simp: connections_checked intro: connection_steps(1) checked_connection [OF keeps_Ping(2) closes_closed])
qed

lemma keeps_lib: "keeps same_services (lib_call f)"
  by (rule keepsI) (simp add: run_iff same_services_def)

lemma preorder_services: "transp same_services" "reflp same_services"
  by (auto simp: same_services_def transp_def reflp_def)

lemma keeps_CheckTopic: "keeps same_services (CheckTopic S topic timeout)"
  unfolding CheckTopic_def
  by (auto intro!: keeps_rules keeps_lib preorder_services split: sum.split option.split)

lemma closes_producer: "closes KafkaProducer (producer_Close S)"
  by (auto simp: closes_def producer_Close_def bindM_def lib_call_def closed_client_def modifyM_def throwM_def returnM_def split: if_splits)

interpretation producer: connector "connect_producer S cfg" KafkaProducer for S cfg
proof
  fix w v w' assume run: "connect_producer S cfg w = (v, w')"
  show "established KafkaProducer w v w'"
  proof (cases "cfg_KafkaBootstrapServers cfg = ''''")
    case True
    with run show ?thesis by (simp add: connect_producer_def NewProducer_def connection_steps(1))
  next
    case False
    with run show ?thesis
      unfolding connect_producer_def NewProducer_def
      by (simp only: if_False bindM_assoc checked_def [symmetric])
        (erule connection_lib, rule checked_connection [OF keeps_CheckTopic closes_producer])
  qed
qed

end
