(* ===== verification/Message_Roundtrip.thy ===== *)
theory Message_Roundtrip
  imports System
begin

text \<open>
  From the publisher to the consumer: the message \<^verbatim>\<open>outbox_publisher.go\<close> encodes for an outbox row is decoded
  by \<^verbatim>\<open>event_consumer.go\<close> as the same event, and handling it notifies the owner of the order.

  What this relies on of other code is \<open>codec_laws\<close>: a UUID is printed in ASCII and its text is
  accepted by \<^verbatim>\<open>uuid.Parse\<close>, and a \<^verbatim>\<open>JSONB\<close> column keeps the members of an object of scalars, texts up to
  bytes that are not valid UTF-8.
\<close>

definition codec_laws :: "ext \<Rightarrow> bool" where
  "codec_laws E \<longleftrightarrow>
     (\<forall>u. list_all is_ascii (uuid_String E u) \<and> uuid_Parse E (uuid_String E u)) \<and>
     (\<forall>name fs. flat_members name fs \<longrightarrow>
        (\<exists>gs. jsonb E (JObj fs) = JObj gs \<and> flat_members name gs \<and> fst ` set gs = fst ` set fs \<and>
           (\<forall>k s. map_of fs k = Some (JStr s) \<longrightarrow>
              (\<exists>t. map_of gs k = Some (JStr t) \<and> coerce_utf8 t = coerce_utf8 s))))"

section \<open>Texts that come back as ASCII were ASCII\<close>

lemma replacement_not_ascii: "\<not> list_all is_ascii replacement"
  by (simp add: replacement_def bytes_def is_ascii_def of_char_of)

lemma coerce_ascii_id: "list_all is_ascii (coerce_utf8 s) \<Longrightarrow> coerce_utf8 s = s"
proof (induction s rule: coerce_utf8.induct)
  case (2 c s)
  then show ?case
    using replacement_not_ascii by (cases "rune_len (c # s)") (auto split: if_splits)
qed simp

section \<open>The envelope\<close>

lemma envelope_ascii:
  "list_all is_ascii ''id''" "list_all is_ascii ''aggregate_type''" "list_all is_ascii ''aggregate_id''"
  "list_all is_ascii ''event_type''" "list_all is_ascii ''payload''"
  by (simp_all add: is_ascii_def)

lemma envelope_names:
  "\<not> is_field ''id'' ''aggregate_type''" "\<not> is_field ''id'' ''aggregate_id''" "\<not> is_field ''id'' ''event_type''"
  "\<not> is_field ''id'' ''payload''"
  "\<not> is_field ''aggregate_type'' ''id''" "\<not> is_field ''aggregate_type'' ''aggregate_id''"
  "\<not> is_field ''aggregate_type'' ''event_type''" "\<not> is_field ''aggregate_type'' ''payload''"
  "\<not> is_field ''aggregate_id'' ''id''" "\<not> is_field ''aggregate_id'' ''aggregate_type''"
  "\<not> is_field ''aggregate_id'' ''event_type''" "\<not> is_field ''aggregate_id'' ''payload''"
  "\<not> is_field ''event_type'' ''id''" "\<not> is_field ''event_type'' ''aggregate_type''"
  "\<not> is_field ''event_type'' ''aggregate_id''" "\<not> is_field ''event_type'' ''payload''"
  "\<not> is_field ''payload'' ''id''" "\<not> is_field ''payload'' ''aggregate_type''"
  "\<not> is_field ''payload'' ''aggregate_id''" "\<not> is_field ''payload'' ''event_type''"
  by (simp_all only: is_field_ascii envelope_ascii) (simp_all add: ascii_upper_def)

lemma is_field_refl [simp]: "is_field name name"
  by (simp add: is_field_def)

lemma Unmarshal_envelope:
  assumes "wf_json v" and "json_depth v < max_nesting"
  shows "Unmarshal_OutboxMessage (Marshal (JObj [(''id'', JStr i), (''aggregate_type'', JStr at),
      (''aggregate_id'', JStr ai), (''event_type'', JStr et), (''payload'', v)])) =
    Some \<lparr>om_ID = coerce_utf8 i, om_AggregateType = coerce_utf8 at, om_AggregateID = coerce_utf8 ai,
      om_EventType = coerce_utf8 et, om_Payload = Some (coerce_json v)\<rparr>"
proof -
  let ?v = "JObj [(''id'', JStr i), (''aggregate_type'', JStr at), (''aggregate_id'', JStr ai),
      (''event_type'', JStr et), (''payload'', v)]"
  have "decode_all (Marshal ?v) = Some (coerce_json ?v)"
    by (rule decode_Marshal) (use assms in \<open>simp_all add: Suc_le_eq\<close>)
  also have "coerce_json ?v = JObj [(''id'', JStr (coerce_utf8 i)), (''aggregate_type'', JStr (coerce_utf8 at)),
      (''aggregate_id'', JStr (coerce_utf8 ai)), (''event_type'', JStr (coerce_utf8 et)), (''payload'', coerce_json v)]"
    by (simp only: coerce_json.simps list.map prod.case coerce_ascii [OF envelope_ascii(1)]
        coerce_ascii [OF envelope_ascii(2)] coerce_ascii [OF envelope_ascii(3)]
        coerce_ascii [OF envelope_ascii(4)] coerce_ascii [OF envelope_ascii(5)])
  finally show ?thesis
    by (simp add: Unmarshal_OutboxMessage_def struct_members_def envelope_names)
qed

section \<open>The payload\<close>

lemma payload_read:
  assumes "codec_laws E" and "payload_user E v u" and "Unmarshal_eventPayload (Some v) = Some s"
    and "list_all is_ascii s"
  shows "uuid_Scan E s = Some u" and "Unmarshal_eventPayload (Some (coerce_json v)) = Some s"
    and "wf_json v" and "json_depth v < max_nesting"
proof -
  from assms(2) obtain fs t where fs: "v = jsonb E (JObj fs)" "flat_members ''user_id'' fs"
    "map_of fs ''user_id'' = Some (JStr t)" "uuid_Scan E t = Some u"
    by (auto simp: payload_user_def)
  with assms(1) obtain gs t' where gs: "v = JObj gs" "flat_members ''user_id'' gs"
    "map_of gs ''user_id'' = Some (JStr t')" "coerce_utf8 t' = coerce_utf8 t"
    unfolding codec_laws_def by metis
  have "string_field ''user_id'' gs '''' = Some t'" by (rule string_field_flat [OF gs(2,3)])
  with assms(3) gs(1) have s: "s = t'" by (simp add: Unmarshal_eventPayload_def struct_members_def)
  with assms(4) gs(4) have "coerce_utf8 t = s" by simp
  with assms(4) coerce_ascii_id [of t] have "t = s" by simp
  with fs(4) show "uuid_Scan E s = Some u" by simp
  have "string_field ''user_id'' (map coerce_member gs) '''' = Some s"
    by (rule string_field_coerce [OF gs(2)]) (use gs(3) s assms(4) in simp_all)
  then show "Unmarshal_eventPayload (Some (coerce_json v)) = Some s"
    by (simp add: gs(1) Unmarshal_eventPayload_def struct_members_def)
  show "wf_json v" "json_depth v < max_nesting"
    using flat_wf [OF gs(2)] gs(1) by (simp_all add: max_nesting_def)
qed

definition message_of :: "ext \<Rightarrow> OutboxEvent \<Rightarrow> OutboxMessage" where
  "message_of E e = \<lparr>om_ID = uuid_String E (OutboxEvent_ID e), om_AggregateType = OutboxEvent_AggregateType e,
     om_AggregateID = uuid_String E (OutboxEvent_AggregateID e), om_EventType = OutboxEvent_EventType e,
     om_Payload = Some (coerce_json (OutboxEvent_Payload e))\<rparr>"

lemma outbox_check_ascii:
  "outbox_check at et \<Longrightarrow> list_all is_ascii at \<and> list_all is_ascii et \<and> et \<noteq> ''''"
  by (auto simp: outbox_check_def is_ascii_def)

lemma check_event_message:
  assumes "codec_laws E" and "uuid_laws E" and "payload_user E (OutboxEvent_Payload e) u"
    and "outbox_check (OutboxEvent_AggregateType e) (OutboxEvent_EventType e)"
    and "Unmarshal_eventPayload (Some (OutboxEvent_Payload e)) = Some s"
    and "list_all is_ascii s" and "uuid_Parse E s"
  shows "check_message E source (Marshal (OutboxMessage_json E e)) = Inr (message_of E e, s)"
proof -
  note r = payload_read [OF assms(1,3,5,6)]
  have uuid: "list_all is_ascii (uuid_String E i)" "uuid_Parse E (uuid_String E i)" for i
    using assms(1) unfolding codec_laws_def by blast+
  have "s \<noteq> ''''" using r(1) uuid_lawsD(2) [OF assms(2)] by auto
  moreover have "Unmarshal_OutboxMessage (Marshal (OutboxMessage_json E e)) = Some (message_of E e)"
    unfolding OutboxMessage_json_def Unmarshal_envelope [OF r(3,4)]
    using outbox_check_ascii [OF assms(4)] uuid by (simp add: message_of_def)
  ultimately show ?thesis
    using r(2) assms(2,7) uuid outbox_check_ascii [OF assms(4)]
    by (simp add: check_message_def message_of_def)
qed

section \<open>Handling the message\<close>

definition delivery :: "uuid \<Rightarrow> uuid \<Rightarrow> string \<Rightarrow> time \<Rightarrow> NotificationDelivery" where
  "delivery i event user now = \<lparr>NotificationDelivery_ID = i, NotificationDelivery_EventID = event,
     NotificationDelivery_Channel = NotificationChannelEmail, NotificationDelivery_Recipient = user,
     NotificationDelivery_Status = NotificationStatusSent, NotificationDelivery_Attempt = 0,
     NotificationDelivery_LastError = None, NotificationDelivery_CreatedAt = now,
     NotificationDelivery_UpdatedAt = now\<rparr>"

lemma Handle_fresh:
  assumes "check_message E source payload = Inr (m, user)" and "\<And>n. sql_fault E n = NoFault"
    and "uuid_Scan E (om_ID m) = Some u" and "\<not> processed (w_db w) u"
    and "uuid_Scan E (uuid_New E (w_uuid w)) = Some i"
    and "i \<notin> NotificationDelivery_ID ` set (tbl_notification_deliveries (w_db w))"
  obtains w' where "Handle E source payload w = (Inr (), w')"
    and "tbl_notification_deliveries (w_db w') =
      tbl_notification_deliveries (w_db w) @ [delivery i u user (db_now E (w_stmt w))]"
    and "processed (w_db w') u"
proof -
  let ?t = "db_now E (w_stmt w)"
  let ?w1 = "w\<lparr>w_stmt := Suc (w_stmt w), w_tx := Some ?t\<rparr>"
  let ?p = "\<lparr>ProcessedEvent_EventID = u, ProcessedEvent_ConsumerName = ConsumerNameNotification,
    ProcessedEvent_ProcessedAt = ?t\<rparr>"
  let ?d = "(w_db w)\<lparr>tbl_processed_events := tbl_processed_events (w_db w) @ [?p],
    tbl_notification_deliveries := tbl_notification_deliveries (w_db w) @ [delivery i u user ?t]\<rparr>"
  let ?w2 = "w\<lparr>w_stmt := Suc (Suc (Suc (w_stmt w))), w_tx := Some ?t, w_uuid := Suc (w_uuid w), w_db := ?d\<rparr>"
  have new: "(u, ConsumerNameNotification) \<notin> processed_key ` set (tbl_processed_events (w_db w))"
    using assms(4) by (simp add: processed_def)
  have "Handle_tx E m user ?w1 = (Inr False, ?w2)"
    using assms(2,3,5,6) new
    by (simp add: Handle_tx_def bindM_def tryM_def returnM_def store_TryCreateProcessedEvent_def Scan_def
        exec_NoFault sql_TryCreateProcessedEvent_def stmt_time_def NewString_def
        store_CreateNotificationDelivery_def notification_check_def delivery_def Let_def)
  then have "WithTx E (Handle_tx E m user) w = (Inr False, ?w2\<lparr>w_stmt := Suc (w_stmt ?w2), w_tx := None\<rparr>)"
    by (intro WithTx_NoFault assms(2))
  then have
    "Handle E source payload w = Inc ''order_service_consumer_events_processed_total'' [om_EventType m]
      (?w2\<lparr>w_stmt := Suc (w_stmt ?w2), w_tx := None\<rparr>)"
    unfolding Handle_def assms(1) by (simp add: bindM_def mapErrM_def)
  then have "Handle E source payload w = (Inr (), bump_metric ''order_service_consumer_events_processed_total''
      [om_EventType m] (?w2\<lparr>w_stmt := Suc (w_stmt ?w2), w_tx := None\<rparr>))"
    by (simp add: Inc_def modifyM_def)
  then show thesis
    by (rule that) (simp_all add: processed_def)
qed

end
