(* ===== verification/Messaging_Properties.thy ===== *)
theory Messaging_Properties
  imports Example Message_Roundtrip
begin

text \<open>
  What the publisher and the consumer promise: which rows a batch settles and how, that the
  outbox is drained, that a redelivered message has no second effect, that invalid messages
  are dropped, and that the consumer commits only what it has handled.
\<close>

section \<open>The publisher\<close>

text \<open>
  C17: one batch, when no statement of the database fails, whatever becomes of the messages. The
  oldest unlocked unpublished rows, as many as the batch size, are claimed; the \<open>i\<close>-th of them is
  marked published if Kafka reported its delivery, and otherwise stays unpublished with one
  more attempt and the text of its error; a failure does not keep the rows after it from being
  sent. No other row is touched, and exactly the messages the broker took are on the topic, in
  the order of the rows.
\<close>

theorem PublishBatch_settles:
  assumes "uuid_laws E" and "\<forall>n. sql_fault E n = NoFault" and "pub_Topic cfg \<noteq> ''''"
    and "0 \<le> pub_BatchSize cfg" and "keys_ok (w_db w)"
    and es: "es = take (nat (pub_BatchSize cfg))
      (claimable (skip_locked E (Suc (w_stmt w))) (tbl_outbox_events (w_db w)))"
    and "\<forall>e \<in> set es. attempts_left e"
  shows "\<exists>w'. PublishBatch E cfg w = (Inr (), w') \<and>
    (\<forall>i < length es. settled E (db_now E (w_stmt w)) (w_produce w + i) (es ! i) \<in> set (tbl_outbox_events (w_db w'))) \<and>
    (\<forall>e \<in> set (tbl_outbox_events (w_db w)). OutboxEvent_ID e \<notin> OutboxEvent_ID ` set es \<longrightarrow>
      e \<in> set (tbl_outbox_events (w_db w'))) \<and>
    map OutboxEvent_ID (tbl_outbox_events (w_db w')) = map OutboxEvent_ID (tbl_outbox_events (w_db w)) \<and>
    w_log w' = w_log w @ sent_messages E (pub_Topic cfg) (w_produce w) es"
proof -
  have ids: "distinct (outbox_ids w)" using assms(5) by (simp add: keys_ok_def)
  obtain w' where w': "PublishBatch E cfg w = (Inr (), w')" "w_db w' = (w_db w)\<lparr>tbl_outbox_events :=
      settle E (db_now E (w_stmt w)) (w_produce w) es (tbl_outbox_events (w_db w))\<rparr>"
    "w_log w' = w_log w @ sent_messages E (pub_Topic cfg) (w_produce w) es"
    by (rule PublishBatch_NoFault [OF assms(1) _ assms(3,4) ids es]) (use assms(2,7) in auto)
  have dist: "distinct (map OutboxEvent_ID es)"
    unfolding es take_map [symmetric] by (rule distinct_take) (rule distinct_claimable [OF ids])
  have "es ! i \<in> set (tbl_outbox_events (w_db w))" if "i < length es" for i
    using nth_mem [OF that] set_claimable set_take_subset unfolding es by fastforce
  then have "settled E (db_now E (w_stmt w)) (w_produce w + i) (es ! i) \<in> set (tbl_outbox_events (w_db w'))"
    if "i < length es" for i
    using settle_nth [OF dist that] that by (simp add: w'(2))
  then show ?thesis
    using w' by (intro exI [of _ w']) (auto simp: settle_ids intro: settle_other)
qed

text \<open>
  C18: the outbox is drained. While the database answers, no row is locked and messages are delivered,
  every tick of the publisher publishes a batch, so after enough ticks nothing is left.
\<close>

theorem outbox_drained:
  assumes "uuid_laws E" and "all_well E" and "pub_Topic cfg \<noteq> ''''" and "0 < pub_BatchSize cfg"
    and "keys_ok (w_db w)" and "\<forall>e \<in> set (tbl_outbox_events (w_db w)). attempts_left e"
    and "length (unpublished (w_db w)) \<le> Suc ticks * nat (pub_BatchSize cfg)"
  shows "unpublished (w_db (publisher_Run E cfg ticks w)) = []"
proof -
  have "distinct (outbox_ids w)" using assms(5) by (simp add: keys_ok_def)
  from publisher_Run_drains [OF assms(1) all_well_from [OF assms(2)] assms(3) less_imp_le [OF assms(4)] this assms(6), of ticks] assms(7)
  show ?thesis by simp
qed

text \<open>
  Two publishers never work on the same row: what one has claimed and not committed is locked,
  and a claim passes over locked rows.
\<close>

lemma claims_disjoint:
  assumes "store_ClaimOutboxEvents E n w1 = (Inr es1, w1')" and "store_ClaimOutboxEvents E m w2 = (Inr es2, w2')"
    and "\<forall>e \<in> set es1. skip_locked E (w_stmt w2) (OutboxEvent_ID e)"
  shows "OutboxEvent_ID ` set es1 \<inter> OutboxEvent_ID ` set es2 = {}"
  using assms(3) store_ClaimOutboxEvents_effect(2) [OF assms(2) refl]
  by (auto simp: claimable_def dest!: in_set_takeD)

section \<open>The consumer\<close>

lemma system_effect_processed:
  assumes "system_effect E cfg w w'" and "processed (w_db w) u"
  shows "processed (w_db w') u"
  using assms(1)
proof (cases rule: system_effectE)
  case change
  with assms(2) show ?thesis
    by (auto simp: db_change_def elim!: processed_mono [rotated]
        dest: order_step_consumed auth_step_tables consume_step_tables)
next
  case publish
  from republished_tables [OF publishes_republished [OF this]] assms(2) show ?thesis
    by (simp add: processed_def)
qed

lemma service_steps_processed:
  assumes "(service_step E cfg)\<^sup>*\<^sup>* w w'" and "ext_laws E" and "schema_ok (w_db w)" and "processed (w_db w) u"
  shows "processed (w_db w') u"
  using services.steps_keep [OF assms(1-3), where P = "\<lambda>d d'. processed d u \<longrightarrow> processed d' u"] assms(4)
    system_effect_processed by blast

text \<open>
  C20: from the outbox to the notification. The message the publisher makes of an outbox row is understood by the
  consumer: when the database answers and the event is not processed yet, handling it succeeds
  and leaves exactly one notification about the event, addressed to the owner of the order the
  event is about (whose identifier in the payload is written so that the consumer accepts it).
\<close>

theorem event_notifies_owner:
  assumes "ext_laws E" and "codec_laws E" and "reachable system_init (service_step E cfg) w"
    and e: "e \<in> set (tbl_outbox_events (w_db w))" and "\<not> processed (w_db w) (OutboxEvent_ID e)"
    and user: "Unmarshal_eventPayload (Some (OutboxEvent_Payload e)) = Some s" "list_all is_ascii s" "uuid_Parse E s"
    and "\<forall>n. sql_fault E n = NoFault" and "uuid_Scan E (uuid_New E (w_uuid w)) = Some i"
    and "i \<notin> NotificationDelivery_ID ` set (tbl_notification_deliveries (w_db w))"
  shows "\<exists>w'. Handle E source (Marshal (OutboxMessage_json E e)) w = (Inr (), w') \<and>
    map NotificationDelivery_Recipient (notified (w_db w') (OutboxEvent_ID e)) = [s] \<and>
    (\<exists>r \<in> set (tbl_orders (w_db w)). Order_ID r = OutboxEvent_PartitionKey e \<and>
      uuid_Scan E s = Some (Order_UserID r))"
proof -
  have ok: "schema_ok (w_db w)" and bk: "books E cfg w" and u: "uuid_laws E"
    using services.reachable_ok [OF assms(3,1)] assms(1) by (simp_all add: ext_laws_def)
  obtain r where r: "r \<in> set (tbl_orders (w_db w))" "OutboxEvent_PartitionKey e = Order_ID r"
      "payload_user E (OutboxEvent_Payload e) (Order_UserID r)"
    using bk e by (auto simp: books_def outbox_complete_def event_grounded_def)
  have check: "outbox_check (OutboxEvent_AggregateType e) (OutboxEvent_EventType e)"
    using ok e by (auto simp: schema_ok_def checks_ok_def)
  have m: "check_message E source (Marshal (OutboxMessage_json E e)) = Inr (message_of E e, s)"
    by (rule check_event_message [OF assms(2) u r(3) check user])
  have id: "uuid_Scan E (om_ID (message_of E e)) = Some (OutboxEvent_ID e)"
    using u by (simp add: message_of_def)
  obtain w' where w': "Handle E source (Marshal (OutboxMessage_json E e)) w = (Inr (), w')"
    "tbl_notification_deliveries (w_db w') =
      tbl_notification_deliveries (w_db w) @ [delivery i (OutboxEvent_ID e) s (db_now E (w_stmt w))]"
    by (rule Handle_fresh [OF m _ id assms(5,10,11)]) (use assms(9) in auto)
  have "notified (w_db w) (OutboxEvent_ID e) = []"
    using notified_once [of "w_db w" "OutboxEvent_ID e"] ok bk assms(5)
    by (simp add: schema_ok_def books_def)
  then have "map NotificationDelivery_Recipient (notified (w_db w') (OutboxEvent_ID e)) = [s]"
    by (simp add: notified_def w'(2) delivery_def)
  moreover have "uuid_Scan E s = Some (Order_UserID r)"
    by (rule payload_read(1) [OF assms(2) r(3) user(1,2)])
  ultimately show ?thesis using w'(1) r(1,2) by auto
qed

text \<open>
  C21: a message may be delivered any number of times. Once the handler has accepted it, handling
  it again, from whatever topic and after any steps of any process, changes no table,
  whatever it returns.
\<close>

theorem redelivery_harmless:
  assumes "ext_laws E" and "schema_ok (w_db w)"
    and first: "Handle E source payload w = (Inr (), w1)"
    and later: "(service_step E cfg)\<^sup>*\<^sup>* w1 w2"
    and again: "Handle E source payload w2 = (r, w3)"
  shows "w_db w3 = w_db w2"
proof -
  have laws: "driver_laws E" using assms(1) by (simp add: ext_laws_def)
  obtain m user u where m: "check_message E source payload = Inr (m, user)"
    "uuid_Scan E (om_ID m) = Some u" "processed (w_db w1) u"
    by (rule Handle_processed [OF first laws])
  have "schema_ok (w_db w1)"
    using service_step_schema [OF service_step.consume [OF first] assms(1,2)] .
  from service_steps_processed [OF later assms(1) this m(3)] have "processed (w_db w2) u" .
  from Handle_duplicate [OF m(1,2) this laws again] show ?thesis .
qed

text \<open>
  C22: an invalid record (not the expected JSON, or without a proper event or user identifier) is
  dropped: the record handler reports success, so the loop commits its offset, and the state of
  the world is untouched. Every other error is passed on.
\<close>

theorem invalid_record_dropped:
  assumes "driver_laws E" and "handleRecord E r w = (v, w')"
  shows "(\<forall>e. check_message E (rec_Topic r) (rec_Value r) = Inl e \<longrightarrow> v = Inr () \<and> w' = w) \<and>
    (\<forall>m user. check_message E (rec_Topic r) (rec_Value r) = Inr (m, user) \<longrightarrow>
      (v = Inr () \<longleftrightarrow> fst (Handle E (rec_Topic r) (rec_Value r) w) = Inr ()))"
  using assms(2)
proof (cases rule: handleRecord_cases)
  case ok
  then show ?thesis using Handle_invalid(1) [of E "rec_Topic r" "rec_Value r" _ w] by auto
next
  case (invalid e)
  with Handle_errors [OF assms(1) invalid(1)] show ?thesis by auto
next
  case (failed e)
  have "check_message E (rec_Topic r) (rec_Value r) \<noteq> Inl x" for x
  proof
    assume x: "check_message E (rec_Topic r) (rec_Value r) = Inl x"
    from Handle_invalid(1) [OF x, of w] failed(1) have "x = e" by simp
    with Handle_invalid(2) [OF x] failed(2) show False by simp
  qed
  with failed show ?thesis by simp
qed

lemma handleRecord_settled:
  assumes "driver_laws E" and "handleRecord E r w = (Inr (), w')"
  shows "(\<exists>e. check_message E (rec_Topic r) (rec_Value r) = Inl e) \<or>
    (\<exists>m user u. check_message E (rec_Topic r) (rec_Value r) = Inr (m, user) \<and>
      uuid_Scan E (om_ID m) = Some u \<and> processed (w_db w') u)"
  using assms(2)
proof (cases rule: handleRecord_cases)
  case ok
  obtain m user u where "check_message E (rec_Topic r) (rec_Value r) = Inr (m, user)"
    "uuid_Scan E (om_ID m) = Some u" "processed (w_db w') u"
    by (rule Handle_processed [OF ok(1) assms(1)])
  then show ?thesis by blast
next
  case (invalid e)
  with Handle_errors [OF assms(1) invalid(1)] show ?thesis by auto
qed simp

lemma handleRecord_processed:
  assumes "driver_laws E" and "handleRecord E r w = (v, w')" and "processed (w_db w) u"
  shows "processed (w_db w') u"
proof -
  obtain x where "Handle E (rec_Topic r) (rec_Value r) w = (x, w')"
    using assms(2) by (cases rule: handleRecord_cases) auto
  from keepsD [OF Handle_refines [OF assms(1)] this] assms(3) show ?thesis
    by (auto simp: db_step_def elim!: processed_mono [rotated] dest: consume_step_tables)
qed

text \<open>What the loop has done with a record: it was invalid, or its event is processed.\<close>

definition settled_record :: "ext \<Rightarrow> Record \<Rightarrow> 'z world_scheme \<Rightarrow> bool" where
  "settled_record E r w \<longleftrightarrow>
     (\<exists>e. check_message E (rec_Topic r) (rec_Value r) = Inl e) \<or>
     (\<exists>m user u. check_message E (rec_Topic r) (rec_Value r) = Inr (m, user) \<and>
       uuid_Scan E (om_ID m) = Some u \<and> processed (w_db w) u)"

text \<open>
  C23: no event is lost. Whatever the broker hands out, whatever fails and however the loop ends, every
  record whose offset is committed was handled before: its event is processed, and so has its
  notification, or the record was invalid. At most the last handled record is not committed.
\<close>

theorem committed_records_handled:
  assumes "driver_laws E" and "c_handled c = []" and "c_committed c = []"
    and "Run n K topic (handleRecord E) c = (x, c')"
  shows "(\<forall>r \<in> set (c_committed c'). settled_record E r (c_world c')) \<and>
    (c_handled c' = c_committed c' \<or> (\<exists>r. c_handled c' = c_committed c' @ [r]))"
proof (cases "topic = '''' \<or> kafka_Subscribe K \<noteq> None")
  case True
  with assms show ?thesis by (auto simp: Run_def split: if_splits)
next
  case False
  with assms(4) have run: "Run_loop n K topic (handleRecord E) c = (x, c')"
    by (auto simp: Run_def split: option.splits)
  have shape: "c_handled c' = c_committed c' \<or> (\<exists>r. c_handled c' = c_committed c' @ [r])"
    using Run_loop_in_step [of c n K topic "handleRecord E"] assms(2,3) run
    by (auto simp: in_step_def split: loop_outcome.splits)
  have "\<forall>r \<in> set (c_handled c'). settled_record E r (c_world c')"
    by (rule Run_loop_handled [OF _ _ run])
      (auto simp: settled_record_def assms(2) dest: handleRecord_settled [OF assms(1)]
        intro: handleRecord_processed [OF assms(1)])
  with shape show ?thesis by auto
qed

text \<open>
  C24: the consumer stops. Once its context is done, from the \<open>N\<close>-th look on, the loop returns within
  that many turns, whatever the broker does.
\<close>

theorem consumer_stops:
  assumes "\<forall>k \<ge> N. ctx_Done K k"
  shows "\<exists>e c'. Run (Suc N) K topic handler c = (Returned e, c')"
proof -
  have "\<exists>e c'. Run_loop (Suc N) K topic handler c = (Returned e, c')"
    by (rule Run_loop_stops [of N]) (use assms in auto)
  then show ?thesis by (auto simp: Run_def split: option.split)
qed

section \<open>The guarantees on the run of the example\<close>

lemma ex_ok: "ex_reachable w \<Longrightarrow> schema_ok (w_db w)"
  using services.reachable_ok(1) [of ex_ext ex_cfg w] by simp

lemma ex_outbox: "tbl_outbox_events (w_db ex_paid) = [ex_created_event, ex_paid_event]"
  by (simp add: ex_paid_eq ex_created_eq ex_registered_eq ex_init_def empty_db_def)

lemma ex_claimable: "claimable (skip_locked ex_ext n) (tbl_outbox_events (w_db ex_paid)) = [ex_created_event, ex_paid_event]"
  by (simp add: claimable_def ex_outbox) (simp add: ex_created_event_def ex_paid_event_def)

text \<open>A broker that refuses the first message.\<close>

definition ex_refuse :: "nat \<Rightarrow> produce_outcome" where
  "ex_refuse n = (if n = 0 then DeliveryFailed (ErrLib ''broker down'') False else Delivered)"

definition ex_down :: ext where
  "ex_down = ex_ext\<lparr>kafka_Produce := ex_refuse\<rparr>"

lemma ex_down_sel [simp]:
  "uuid_laws ex_down" "sql_fault ex_down n = NoFault" "skip_locked ex_down = skip_locked ex_ext"
  "kafka_Produce ex_down = ex_refuse" "db_now ex_down n = int n" "event_message ex_down = event_message ex_ext"
  by (simp_all add: ex_down_def uuid_laws_def event_message_def OutboxMessage_json_def fun_eq_iff)
    (simp add: uuid_read_def)

theorem PublishBatch_settles_witness:
  "\<exists>w'. PublishBatch ex_down ex_cfg ex_paid = (Inr (), w') \<and>
    mark_failed (Some ''deliver kafka message: broker down'') ex_created_event \<in> set (tbl_outbox_events (w_db w')) \<and>
    mark_published 15 ex_paid_event \<in> set (tbl_outbox_events (w_db w')) \<and>
    w_log w' = [event_message ex_ext ''order.events'' ex_paid_event]"
proof -
  let ?es = "[ex_created_event, ex_paid_event]"
  have es: "?es = take (nat (pub_BatchSize ex_cfg))
      (claimable (skip_locked ex_down (Suc (w_stmt ex_paid))) (tbl_outbox_events (w_db ex_paid)))"
    by (simp add: ex_claimable ex_cfg_def)
  have stmt: "w_stmt ex_paid = 15" "w_produce ex_paid = 0" "w_log ex_paid = []"
    by (simp_all add: ex_paid_eq ex_created_eq ex_registered_eq ex_init_def bump_metric_def)
  have s: "settled ex_down 15 0 ex_created_event = mark_failed (Some ''deliver kafka message: broker down'') ex_created_event"
    "settled ex_down 15 (Suc 0) ex_paid_event = mark_published 15 ex_paid_event"
    by (simp_all add: settled_def produce_error_def ex_refuse_def pg_Text_def)
  have keys: "keys_ok (w_db ex_paid)" using ex_ok [OF ex_reachable(4)] by (simp add: schema_ok_def)
  have left: "\<forall>e \<in> set ?es. attempts_left e"
    by (simp add: attempts_left_def ex_created_event_def ex_paid_event_def)
  obtain w' where w': "PublishBatch ex_down ex_cfg ex_paid = (Inr (), w')"
    "\<forall>i < length ?es. settled ex_down (db_now ex_down (w_stmt ex_paid)) (w_produce ex_paid + i) (?es ! i)
      \<in> set (tbl_outbox_events (w_db w'))"
    "w_log w' = w_log ex_paid @ sent_messages ex_down (pub_Topic ex_cfg) (w_produce ex_paid) ?es"
    using PublishBatch_settles [OF _ _ _ _ keys es left] by (auto simp: ex_cfg_def)
  from w'(2) [rule_format, of 0] w'(2) [rule_format, of 1] w'(1,3) show ?thesis
    by (simp add: stmt s sent_messages.simps ex_refuse_def produce_appends_def ex_cfg_def)
qed

theorem outbox_drained_witness:
  "unpublished (w_db (publisher_Run ex_ext ex_cfg 0 ex_paid)) = [] \<and> length (unpublished (w_db ex_paid)) = 2"
proof -
  have u: "unpublished (w_db ex_paid) = [ex_created_event, ex_paid_event]"
    by (simp add: unpublished_def ex_outbox) (simp add: ex_created_event_def ex_paid_event_def)
  have keys: "keys_ok (w_db ex_paid)" using ex_ok [OF ex_reachable(4)] by (simp add: schema_ok_def)
  have left: "\<forall>e \<in> set (tbl_outbox_events (w_db ex_paid)). attempts_left e"
    by (simp add: ex_outbox attempts_left_def ex_created_event_def ex_paid_event_def)
  from outbox_drained [OF ex_laws(1,4) _ _ keys left, of ex_cfg 0] show ?thesis
    by (simp add: u ex_cfg_def)
qed

text \<open>The texts of the environment, and the message of the payment.\<close>

lemma ascii_hex_of: "list_all is_ascii (hex_of k n)"
proof (induction k arbitrary: n)
  case (Suc k)
  have "n mod 16 \<in> {0, 1, 2, 3, 4, 5, 6, 7, 8, 9, 10, 11, 12, 13, 14, 15}"
    by (rule less_16_cases) simp
  then have "is_ascii (hex_digit n)" by (auto simp: hex_digit_def is_ascii_def)
  with Suc show ?case by simp
qed simp

lemma list_all_take: "list_all P xs \<Longrightarrow> list_all P (take n xs)" "list_all P xs \<Longrightarrow> list_all P (drop n xs)"
  by (auto simp: list_all_iff dest: in_set_takeD in_set_dropD)

lemma ascii_uuid_text [simp]: "list_all is_ascii (uuid_text u)"
  by (simp add: uuid_text_def dashed_def ascii_hex_of list_all_take) (simp add: is_ascii_def)

lemma ex_codec [simp]: "codec_laws ex_ext"
  unfolding codec_laws_def by (auto simp: ex_defs)

lemma ex_published_db: "w_db ex_published = (w_db ex_paid)\<lparr>tbl_outbox_events :=
  [mark_published 15 ex_created_event, mark_published 15 ex_paid_event]\<rparr>"
proof -
  let ?es = "[ex_created_event, ex_paid_event]"
  have es: "?es = take (nat (pub_BatchSize ex_cfg))
      (claimable (skip_locked ex_ext (Suc (w_stmt ex_paid))) (tbl_outbox_events (w_db ex_paid)))"
    by (simp add: ex_claimable ex_cfg_def)
  have stmt: "w_stmt ex_paid = 15" by (simp add: ex_paid_eq bump_metric_def)
  have ids: "distinct (outbox_ids ex_paid)" by (rule schema_ok_ids) (rule ex_ok [OF ex_reachable(4)])
  have left: "\<forall>e \<in> set ?es. attempts_left e"
    by (simp add: attempts_left_def ex_created_event_def ex_paid_event_def)
  obtain w' where w': "PublishBatch ex_ext ex_cfg ex_paid = (Inr (), w')" "w_db w' = (w_db ex_paid)\<lparr>tbl_outbox_events :=
      settle ex_ext (db_now ex_ext (w_stmt ex_paid)) (w_produce ex_paid) ?es (tbl_outbox_events (w_db ex_paid))\<rparr>"
    by (rule PublishBatch_NoFault [OF ex_laws(1) _ _ _ ids es]) (use left in \<open>auto simp: ex_cfg_def\<close>)
  have "settle ex_ext 15 (w_produce ex_paid) ?es ?es = [mark_published 15 ex_created_event, mark_published 15 ex_paid_event]"
    by (simp add: settled_def produce_error_def update_where_def)
      (simp add: ex_created_event_def ex_paid_event_def mark_published_def)
  with w' show ?thesis by (simp add: ex_published_def stmt ex_outbox)
qed

lemma ex_published_outbox:
  "tbl_outbox_events (w_db ex_published) = [mark_published 15 ex_created_event, mark_published 15 ex_paid_event]"
  by (simp add: ex_published_db)

lemma ex_no_notifications:
  "tbl_notification_deliveries (w_db ex_published) = []" "tbl_processed_events (w_db ex_published) = []"
  by (simp_all add: ex_published_db ex_paid_eq ex_created_eq ex_registered_eq ex_init_def empty_db_def
      add_payment_def add_created_def)

lemma ex_payload_user: "Unmarshal_eventPayload (Some (OutboxEvent_Payload ex_paid_event)) = Some (uuid_text 1)"
  by (simp add: ex_paid_event_def Unmarshal_eventPayload_def paymentEventPayload_def struct_members_def
      payload_names omitempty_def)

lemma ex_paid_id: "OutboxEvent_ID ex_paid_event = 6"
  by (simp add: ex_paid_event_def)

definition ex_value :: string where
  "ex_value = Marshal (OutboxMessage_json ex_ext ex_paid_event)"

lemma ex_value_published: "Marshal (OutboxMessage_json ex_ext (mark_published 15 ex_paid_event)) = ex_value"
  by (simp add: ex_value_def OutboxMessage_json_def mark_published_def)

theorem event_notifies_owner_witness:
  "\<exists>w'. Handle ex_ext ''order.events'' ex_value ex_published = (Inr (), w') \<and>
    map NotificationDelivery_Recipient (notified (w_db w') 6) = [uuid_text 1]"
proof -
  have e: "mark_published 15 ex_paid_event \<in> set (tbl_outbox_events (w_db ex_published))"
    by (simp add: ex_published_outbox)
  have p: "\<not> processed (w_db ex_published) (OutboxEvent_ID (mark_published 15 ex_paid_event))"
    by (simp add: processed_def ex_no_notifications)
  have user: "Unmarshal_eventPayload (Some (OutboxEvent_Payload (mark_published 15 ex_paid_event))) = Some (uuid_text 1)"
    by (simp add: mark_published_def ex_payload_user)
  have parse: "uuid_Parse ex_ext (uuid_text 1)" by (simp add: ex_defs)
  have new: "uuid_Scan ex_ext (uuid_New ex_ext (w_uuid ex_published)) = Some (of_nat (Suc (w_uuid ex_published)))"
    by simp
  from event_notifies_owner [OF ex_laws(3) ex_codec ex_reachable(5) e p user ascii_uuid_text parse _ new,
      of "''order.events''"]
  obtain w' where "Handle ex_ext ''order.events'' ex_value ex_published = (Inr (), w')"
    "map NotificationDelivery_Recipient (notified (w_db w') (OutboxEvent_ID (mark_published 15 ex_paid_event))) = [uuid_text 1]"
    unfolding ex_value_published by (auto simp: ex_no_notifications)
  then show ?thesis by (auto simp: mark_published_def ex_paid_id)
qed

lemma ex_handled:
  obtains w' where "Handle ex_ext ''order.events'' ex_value ex_published = (Inr (), w')"
    and "length (notified (w_db w') 6) = 1"
proof -
  have pay: "payload_user ex_ext (OutboxEvent_Payload ex_paid_event) 1"
    using payload_user_payment [of ex_ext "uuid_text 1" 1] by (simp add: ex_paid_event_def)
  have m: "check_message ex_ext ''order.events'' ex_value = Inr (message_of ex_ext ex_paid_event, uuid_text 1)"
    unfolding ex_value_def
    by (rule check_event_message [OF ex_codec ex_laws(1) pay _ ex_payload_user])
      (simp_all add: ex_paid_event_def outbox_check_def, simp add: ex_defs)
  have i: "uuid_Scan ex_ext (om_ID (message_of ex_ext ex_paid_event)) = Some 6"
    by (simp add: message_of_def ex_paid_id)
  obtain w' where "Handle ex_ext ''order.events'' ex_value ex_published = (Inr (), w')"
    "tbl_notification_deliveries (w_db w') = tbl_notification_deliveries (w_db ex_published) @
      [delivery (of_nat (Suc (w_uuid ex_published))) 6 (uuid_text 1) (db_now ex_ext (w_stmt ex_published))]"
    by (rule Handle_fresh [OF m _ i, where w = ex_published and i = "of_nat (Suc (w_uuid ex_published))"])
      (simp_all add: processed_def ex_no_notifications)
  then show thesis by (intro that [of w']) (simp_all add: notified_def ex_no_notifications delivery_def)
qed

theorem redelivery_harmless_witness:
  "\<exists>w1 w2. Handle ex_ext ''order.events'' ex_value ex_published = (Inr (), w1) \<and>
    w2 = snd (Handle ex_ext ''order.events'' ex_value w1) \<and> w_db w2 = w_db w1 \<and>
    length (notified (w_db w2) 6) = 1"
proof -
  obtain w1 where w1: "Handle ex_ext ''order.events'' ex_value ex_published = (Inr (), w1)"
    "length (notified (w_db w1) 6) = 1" by (rule ex_handled)
  have "w_db (snd (Handle ex_ext ''order.events'' ex_value w1)) = w_db w1"
    by (rule redelivery_harmless [OF ex_laws(3) ex_ok [OF ex_reachable(5)] w1(1) rtranclp.rtrancl_refl])
      (rule prod.collapse [symmetric])
  with w1 show ?thesis by auto
qed

text \<open>A record without a message, and a broker that has nothing more to give.\<close>

lemma ex_check_invalid: "check_message ex_ext ''t'' ''{}'' = Inl (Wrapped ErrInvalidMessage '': message id is required'')"
  by code_simp

definition ex_empty_record :: Record where
  "ex_empty_record = \<lparr>rec_Topic = ''t'', rec_Partition = 0, rec_Offset = 7, rec_Key = '''', rec_Value = ''{}''\<rparr>"

lemma ex_driver: "driver_laws ex_ext"
  using ex_laws by (simp add: ext_laws_def)

theorem invalid_record_dropped_witness:
  "handleRecord ex_ext ex_empty_record ex_paid = (Inr (), ex_paid)"
proof -
  obtain v w' where r: "handleRecord ex_ext ex_empty_record ex_paid = (v, w')" by (metis surj_pair)
  from invalid_record_dropped [OF ex_driver r] ex_check_invalid r show ?thesis
    by (simp add: ex_empty_record_def)
qed

definition ex_broker :: kafka_ext where
  "ex_broker = \<lparr>kafka_Subscribe = None, kafka_Poll = (\<lambda>n. PollNothing), kafka_Commit = (\<lambda>n. NoFault),
     ctx_Done = (\<lambda>n. 3 \<le> n)\<rparr>"

definition ex_consumer :: "world consumer" where
  "ex_consumer = \<lparr>c_world = ex_published, c_polls = 0, c_commits = 0, c_looks = 0, c_handled = [], c_committed = []\<rparr>"

theorem consumer_stops_witness:
  "\<exists>e c'. Run 4 ex_broker ''order.events'' (handleRecord ex_ext) ex_consumer = (Returned e, c')"
  using consumer_stops [of 3 ex_broker "''order.events''" "handleRecord ex_ext" ex_consumer]
  by (simp add: ex_broker_def numeral_eq_Suc)

text \<open>A broker that hands out the message once, and then nothing.\<close>

definition ex_one_message :: kafka_ext where
  "ex_one_message = ex_broker\<lparr>kafka_Poll := (\<lambda>n. if n = 0 then PollMessage None 0 7 (uuid_text 2) ex_value else PollNothing)\<rparr>"

theorem committed_records_handled_witness:
  "\<exists>c'. Run 2 ex_one_message ''order.events'' (handleRecord ex_ext) ex_consumer = (Looping, c') \<and>
    length (c_committed c') = 1 \<and> (\<forall>r \<in> set (c_committed c'). settled_record ex_ext r (c_world c'))"
proof -
  let ?r = "\<lparr>rec_Topic = ''order.events'', rec_Partition = 0, rec_Offset = 7, rec_Key = uuid_text 2, rec_Value = ex_value\<rparr>"
  obtain w' where w': "Handle ex_ext ''order.events'' ex_value ex_published = (Inr (), w')" by (rule ex_handled)
  then have "handleRecord ex_ext ?r ex_published = (Inr (), w')"
    by (simp add: handleRecord_def bindM_def tryM_def returnM_def)
  then obtain c' where c': "Run 2 ex_one_message ''order.events'' (handleRecord ex_ext) ex_consumer = (Looping, c')"
    "c_committed c' = [?r]"
    by (simp add: Run_def ex_one_message_def ex_broker_def numeral_2_eq_2 Run_turn_def ctx_Err_def
        handle_message_def CommitMessage_def ex_consumer_def Let_def)
  from committed_records_handled [OF ex_driver _ _ c'(1)] c' show ?thesis by (auto simp: ex_consumer_def)
qed

end
