(* ===== verification/Process_Properties.thy ===== *)
theory Process_Properties
  imports Startup Messaging_Properties
begin

text \<open>
  The processes as wholes, from the environment variables to the exit code: what they leave open, and that the publisher, once its
  dependencies can be reached, empties the outbox.
\<close>

section \<open>Running leaves the clients alone\<close>

lemma open_Inc: "keeps same_open (Inc n ls)"
  by (rule keepsI) (auto simp: run_iff same_open_def bump_metric_def)

lemma open_Publish: "keeps same_open (Publish E topic key payload)"
  by (rule keepsI) (auto simp: Publish_def same_open_def Let_def run_iff split: if_splits option.splits)

lemma open_PublishBatch: "keeps same_open (PublishBatch E cfg)"
proof -
  have event: "keeps same_open (publish_event E topic e)" for topic e
    unfolding publish_event_def store_defs Let_def by (intro open_clients.frame_rules open_Inc open_Publish)
  have events: "keeps same_open (publish_events E topic es)" for topic es
    by (induction es) (auto intro!: open_clients.frame_rules event)
  show ?thesis
    unfolding PublishBatch_def store_ClaimOutboxEvents_def by (intro open_clients.frame_rules events) (auto intro!: keepsI dest: keepsD [OF open_clients.exec])
qed

lemma open_publisher_Run: "p_open (publisher_Run E cfg ticks w) = p_open w"
  by (induction ticks arbitrary: w)
    (use keepsD [OF open_PublishBatch prod.collapse [symmetric]] in \<open>simp_all add: same_open_def\<close>)

lemma open_handleRecord: "keeps same_open (handleRecord E r)"
  unfolding handleRecord_def by (intro open_clients.frame_rules open_clients.consumer)

lemma open_Run_loop:
  assumes "\<And>r. keeps same_open (handler r)"
  shows "Run_loop n K topic handler c = (v, c') \<Longrightarrow> p_open (c_world c') = p_open (c_world c)"
proof (induction n arbitrary: c v)
  case (Suc n)
  have message: "p_open (c_world c2) = p_open (c_world c1)" if "handle_message K handler r c1 = (u, c2)" for r c1 c2 u
    using that keepsD [OF assms]
    by (fastforce simp: handle_message_def ctx_Err_def CommitMessage_def same_open_def Let_def
        split: prod.splits sum.splits if_splits fault.splits)
  have turn: "p_open (c_world c1) = p_open (c_world c)" if "Run_turn K topic handler c = (u, c1)" for u c1
    using that by (auto simp: Run_turn_def ctx_Err_def Let_def dest!: message split: if_splits poll_event.splits)
  obtain u c1 where u: "Run_turn K topic handler c = (u, c1)" by (metis surj_pair)
  with Suc turn [OF u] show ?case by (cases u) auto
qed simp

lemma open_requests:
  "p_open (fold (\<lambda>(r, rw) z. snd (ServeHTTP H R E cfg r rw z)) requests w) = p_open w"
proof (induction requests arbitrary: w)
  case (Cons q qs)
  have "keeps same_open (ServeHTTP H R E cfg r rw)" for r rw
    by (rule open_clients.serve) (simp add: same_open_def bump_metric_def)
  from keepsD [OF this prod.collapse [symmetric]] Cons show ?case by (cases q) (simp add: same_open_def)
qed simp

lemma NewConsumer_open: "NewConsumer S servers g w = (Inr x, w') \<Longrightarrow> p_open w' = KafkaConsumer # p_open w"
  by (auto simp: NewConsumer_def run_iff split: if_splits option.splits)

lemma consumer_Close_open: "consumer_Close S w = (v, w') \<Longrightarrow> p_open w' = remove1 KafkaConsumer (p_open w)"
  by (cases v) (auto simp: consumer_Close_def run_iff split: option.splits)

lemma producer_Close_snd:
  "p_open (snd (producer_Close S w)) = remove1 KafkaProducer (p_open w)" "w_db (snd (producer_Close S w)) = w_db w"
  using closes_producer [of S] unfolding closes_def by (metis prod.collapse)+

text \<open>A process that ends with the exit code 0 has closed every client it opened.\<close>

lemma processes_close_clients:
  "publisher_main S E cfg ticks w = (0, w') \<Longrightarrow> p_open w' = p_open w"
  "api_main S H R E cfg requests listenFailed shutdownFailed w = (0, w') \<Longrightarrow> p_open w' = p_open w"
  "consumer_main S K E cfg turns w = (Some 0, w') \<Longrightarrow> p_open w' = p_open w"
proof -
  have close: "p_open (snd (closed_client r z)) = remove1 r (p_open z)" for r and z :: "'z proc_world_scheme"
    by (simp add: closed_client_def modifyM_def)
  show "p_open w' = p_open w" if "publisher_main S E cfg ticks w = (0, w')"
  proof -
    from that obtain x y w1 w2 where run: "Retry (start_wait S) 12 (5 * Second) (db_Open S E (cfg_DatabaseURL cfg)) () w = (Inr x, w1)"
      "Retry (start_wait S) 12 (5 * Second) (connect_producer S cfg) () w1 = (Inr y, w2)"
      "w' = snd (closed_client DBPool (snd (producer_Close S (publisher_Run E (publisher_config cfg) ticks w2))))"
      by (auto simp: publisher_main_def Let_def split: prod.splits sum.splits)
    from pool.retried [OF run(1)] producer.retried [OF run(2)] show ?thesis
      by (simp add: run(3) close established_def producer_Close_snd open_publisher_Run)
  qed
  show "p_open w' = p_open w" if "api_main S H R E cfg requests listenFailed shutdownFailed w = (0, w')"
  proof -
    from that obtain x y w1 w2 where run: "Retry (\<lambda>_ _. False) 12 (5 * Second) (db_Open S E (cfg_DatabaseURL cfg)) () w = (Inr x, w1)"
      "Retry (\<lambda>_ _. False) 12 (5 * Second) (OpenRedis S R (cfg_RedisURL cfg)) () w1 = (Inr y, w2)"
      "w' = snd (closed_client DBPool (snd (closed_client RedisClient
        (fold (\<lambda>(r, rw) z. snd (ServeHTTP H R E (router_config cfg) r rw z)) requests w2))))"
      by (auto simp: api_main_def Let_def split: prod.splits sum.splits if_splits)
    from pool.retried [OF run(1)] redis_client.retried [OF run(2)] show ?thesis
      by (simp add: run(3) close established_def open_requests)
  qed
  show "p_open w' = p_open w" if "consumer_main S K E cfg turns w = (Some 0, w')"
  proof -
    from that obtain x y z w1 w2 w3 c where run: "Retry (start_wait S) 12 (5 * Second) (db_Open S E (cfg_DatabaseURL cfg)) () w = (Inr x, w1)"
      "NewConsumer S (cfg_KafkaBootstrapServers cfg) (cfg_KafkaConsumerGroup cfg) w1 = (Inr y, w2)"
      "Run turns K (cfg_KafkaTopic cfg) (handleRecord E)
         \<lparr>c_world = w2, c_polls = 0, c_commits = 0, c_looks = 0, c_handled = [], c_committed = []\<rparr> = (Returned None, c)"
      "consumer_Close S (c_world c) = (z, w3)" "w' = snd (closed_client DBPool w3)"
      by (auto simp: consumer_main_def split: prod.splits sum.splits if_splits loop_outcome.splits)
    have "p_open (c_world c) = p_open w2"
      using run(3) open_Run_loop [OF open_handleRecord] by (fastforce simp: Run_def split: if_splits option.splits)
    with pool.retried [OF run(1)] NewConsumer_open [OF run(2)] consumer_Close_open [OF run(4)] show ?thesis
      by (simp add: run(5) close established_def)
  qed
qed

section \<open>The publisher\<close>

text \<open>
  C38: the publisher process delivers. If the database can be reached within twelve attempts and then the broker with the topic within
  twelve, whatever failed before (an error of a library, or a Ping that did not reach the database), and the size of a batch that is
  set fits into 31 bits, then if from there on the database answers, no row is locked and messages are delivered, the process publishes every
  row of the outbox in enough ticks; when it is stopped it ends with the exit code 0 and nothing left open.
\<close>

theorem publisher_process:
  assumes "uuid_laws E" and "keys_ok (w_db w)" and "\<forall>e \<in> set (tbl_outbox_events (w_db w)). attempts_left e"
    and "c = Load dotenv environment" and "n = getEnvInt (dotenv environment) ''PUBLISHER_BATCH_SIZE'' 10" and "n < 2 ^ 31"
    and "tried (db_Open S E (cfg_DatabaseURL c)) i w u" and "i < 12" and "db_Open S E (cfg_DatabaseURL c) u = (Inr (), w1)"
    and "tried (connect_producer S c) j w1 u1" and "j < 12" and "connect_producer S c u1 = (Inr (), w2)"
    and "well_from E (w_stmt w2) (w_produce w2)"
    and "\<forall>t k. \<not> start_wait S t k" and "length (unpublished (w_db w)) \<le> Suc ticks * nat n"
  shows "\<exists>w'. publisher_main S E c ticks w = (0, w') \<and> unpublished (w_db w') = [] \<and> p_open w' = p_open w"
proof -
  have cfg: "pub_Topic (publisher_config c) \<noteq> ''''" "pub_BatchSize (publisher_config c) = n" "0 < n"
    using getEnvInt_bounds [of 10 "dotenv environment" "''PUBLISHER_BATCH_SIZE''"] int32_small [of n] assms(5,6)
    by (simp_all add: publisher_config_def assms(4) Load_def Let_def getEnvDefault_nonempty)
  have db: "Retry (start_wait S) 12 (5 * Second) (db_Open S E (cfg_DatabaseURL c)) () w = (Inr (), w1)"
    by (rule Retry_connects [OF assms(7,9)]) (use assms(8,14) in simp_all)
  have kafka: "Retry (start_wait S) 12 (5 * Second) (connect_producer S c) () w1 = (Inr (), w2)"
    by (rule Retry_connects [OF assms(10,12)]) (use assms(11,14) in simp_all)
  have same: "w_db w2 = w_db w"
    using pool.retried [OF db] producer.retried [OF kafka] by (simp add: established_def)
  let ?w3 = "publisher_Run E (publisher_config c) ticks w2"
  have "distinct (outbox_ids w2)" using assms(2) same by (simp add: keys_ok_def)
  from publisher_Run_drains [OF assms(1,13) cfg(1) _ this, of ticks] assms(3,15) cfg same
  have empty: "unpublished (w_db ?w3) = []" by simp
  let ?w' = "snd (closed_client DBPool (snd (producer_Close S ?w3)))"
  have main: "publisher_main S E c ticks w = (0, ?w')" by (simp only: publisher_main_def db kafka prod.case sum.case Let_def)
  have "w_db ?w' = w_db ?w3" by (simp add: producer_Close_snd closed_client_def modifyM_def)
  with main empty processes_close_clients(1) [OF main] show ?thesis by auto
qed

section \<open>Witness\<close>

text \<open>
  A database that cannot be reached by the first two Pings (the statements 15 and 16), a broker that knows the topic, and a table with two
  events to publish.
\<close>

definition ex_flaky :: ext where
  "ex_flaky = ex_ext\<lparr>sql_fault := (\<lambda>n. if n < 17 then Failed (ErrLib ''connection refused'') else NoFault)\<rparr>"

lemma ex_flaky_laws: "uuid_laws ex_flaky" "17 \<le> s \<Longrightarrow> well_from ex_flaky s p"
  using ex_laws(1) by (simp_all add: ex_flaky_def uuid_laws_def well_from_def)

definition ex_start :: start_ext where
  "ex_start = \<lparr>pgx_ParseConfig = (\<lambda>url. Inr \<lparr>pool_conn = url, MaxConns = 4, MinConns = 0, MaxConnLifetime = Hour, MaxConnIdleTime = Hour\<rparr>),
     pgx_NewWithConfig = (\<lambda>c n. None), redis_ParseURL = (\<lambda>url. None),
     kafka_NewProducer = (\<lambda>m n. None),
     kafka_GetMetadata = (\<lambda>t ms n. Inr \<lparr>md_Brokers = 1, md_Topics = [''order.events.v1'' \<mapsto> (None, 3)]\<rparr>),
     kafka_Flush = (\<lambda>ms n. 0), kafka_NewConsumer = (\<lambda>m n. None), kafka_CloseConsumer = (\<lambda>n. None),
     start_ctx_Done = (\<lambda>n. False), start_wait = (\<lambda>t n. False)\<rparr>"

definition ex_proc :: proc_world where
  "ex_proc = redis_world.extend (world.extend ex_paid (redis_world.fields Map.empty 0)) (proc_world.fields 0 0 [])"

definition ex_config :: Config where
  "ex_config = Load ex_dotenv [''PUBLISHER_BATCH_SIZE'' \<mapsto> ''100'']"

lemma ex_proc_sel [simp]: "w_db ex_proc = w_db ex_paid" "p_calls ex_proc = 0" "p_open ex_proc = []" "w_stmt ex_proc = 15"
  by (simp_all add: ex_proc_def ex_paid_eq bump_metric_def world.defs redis_world.defs proc_world.defs)

lemma ex_config_sel [simp]: "cfg_KafkaTopic ex_config = ''order.events.v1''" "cfg_KafkaBootstrapServers ex_config = ''localhost:9092''"
  by (simp_all add: ex_config_def Load_def Let_def getEnvDefault_def os_Getenv_def ex_dotenv_def)

lemma ex_db_Open:
  "db_Open ex_start ex_flaky url w =
     (if w_stmt w < 17 then (Inl (ErrLib ''connection refused''), w\<lparr>p_calls := Suc (p_calls w), w_stmt := Suc (w_stmt w)\<rparr>)
      else (Inr (), w\<lparr>p_calls := Suc (p_calls w), p_open := DBPool # p_open w, w_stmt := Suc (w_stmt w)\<rparr>))"
  by (simp add: db_Open_def ex_start_def lib_try_def lib_call_def opened_client_def closed_client_def comp_defs modifyM_def
      exec_def Let_def ex_flaky_def sql_Ping_def)

lemma lib_call_bind: "bindM (lib_call f) g w = g (f (p_calls w)) (w\<lparr>p_calls := Suc (p_calls w)\<rparr>)"
  by (simp add: bindM_def lib_call_def)

lemma ex_start_sel:
  "start_ctx_Done ex_start n = False"
  "kafka_GetMetadata ex_start t ms n = Inr \<lparr>md_Brokers = 1, md_Topics = [''order.events.v1'' \<mapsto> (None, 3)]\<rparr>"
  by (simp_all add: ex_start_def)

lemma ex_CheckTopic:
  "CheckTopic ex_start ''order.events.v1'' (5 * Second) w = (Inr (), w\<lparr>p_calls := Suc (Suc (Suc (p_calls w)))\<rparr>)"
  by (simp add: CheckTopic_def lib_call_bind ex_start_sel returnM_def)

lemma ex_connect:
  "connect_producer ex_start ex_config w =
     (Inr (), w\<lparr>p_calls := Suc (Suc (Suc (Suc (p_calls w)))), p_open := KafkaProducer # p_open w\<rparr>)"
proof -
  have "NewProducer ex_start ''localhost:9092'' w = (Inr (), w\<lparr>p_calls := Suc (p_calls w), p_open := KafkaProducer # p_open w\<rparr>)"
    by (simp add: NewProducer_def ex_start_def bindM_def mapErrM_def lib_try_def lib_call_def returnM_def opened_client_def modifyM_def)
  then show ?thesis
    using ex_CheckTopic [of "w\<lparr>p_calls := Suc (p_calls w), p_open := KafkaProducer # p_open w\<rparr>"]
    by (simp add: connect_producer_def bindM_def tryM_def returnM_def)
qed

theorem publisher_process_witness:
  "fst (db_Open ex_start ex_flaky (cfg_DatabaseURL ex_config) ex_proc) = Inl (ErrLib ''connection refused'') \<and>
   (\<exists>w'. publisher_main ex_start ex_flaky ex_config 0 ex_proc = (0, w') \<and> unpublished (w_db w') = [] \<and> p_open w' = [] \<and>
    length (unpublished (w_db ex_proc)) = 2)"
proof -
  have u: "unpublished (w_db ex_paid) = [ex_created_event, ex_paid_event]"
    by (simp add: unpublished_def ex_outbox) (simp add: ex_created_event_def ex_paid_event_def)
  have keys: "keys_ok (w_db ex_proc)" using ex_ok [OF ex_reachable(4)] by (simp add: schema_ok_def)
  have left: "\<forall>e \<in> set (tbl_outbox_events (w_db ex_proc)). attempts_left e"
    by (simp add: ex_outbox attempts_left_def ex_created_event_def ex_paid_event_def)
  have n: "100 = getEnvInt (ex_dotenv [''PUBLISHER_BATCH_SIZE'' \<mapsto> ''100'']) ''PUBLISHER_BATCH_SIZE'' 10"
    by (simp add: getEnvInt_def os_Getenv_def ex_dotenv_def Atoi_def parse_int64_def is_digit_def in_range_def)
  let ?open = "db_Open ex_start ex_flaky (cfg_DatabaseURL ex_config) :: (unit, unit) pio"
  define a where "a = ex_proc\<lparr>p_calls := Suc (p_calls ex_proc), w_stmt := Suc (w_stmt ex_proc)\<rparr>"
  define a' where "a' = a\<lparr>p_waits := Suc (p_waits a)\<rparr>"
  define b where "b = a'\<lparr>p_calls := Suc (p_calls a'), w_stmt := Suc (w_stmt a')\<rparr>"
  define b' where "b' = b\<lparr>p_waits := Suc (p_waits b)\<rparr>"
  have stmt: "w_stmt a' = 16" "w_stmt b' = 17" by (simp_all add: a_def a'_def b_def b'_def)
  have refused: "?open ex_proc = (Inl (ErrLib ''connection refused''), a)" "?open a' = (Inl (ErrLib ''connection refused''), b)"
    using stmt by (simp_all add: ex_db_Open a_def b_def)
  have twice: "tried ?open (Suc (Suc 0)) ex_proc b'"
    by (rule tried.more, rule refused(1), fold a'_def, rule tried.more, rule refused(2), fold b'_def, rule tried.none)
  define w1 where "w1 = snd (?open b')"
  have third: "?open b' = (Inr (), w1)" "w_stmt w1 = 18" using stmt(2) by (simp_all add: ex_db_Open w1_def)
  have kafka: "connect_producer ex_start ex_config w1 = (Inr (), snd (connect_producer ex_start ex_config w1))" by (simp add: ex_connect)
  have well: "well_from ex_flaky (w_stmt (snd (connect_producer ex_start ex_config w1))) p" for p
    by (rule ex_flaky_laws(2)) (simp add: ex_connect third(2))
  from publisher_process [OF ex_flaky_laws(1) keys left ex_config_def n _ twice _ third(1) tried.none _ kafka well, of 0] refused(1)
  show ?thesis by (simp add: u) (simp add: ex_start_def)
qed

end
