(* ===== verification/Spec2Isabelle.thy ===== *)
theory Spec2Isabelle
  imports Api_Results Process_Properties
begin

text \<open>
  A verification library of the order service: an HTTP API, an outbox publisher and a
  notification consumer, which share one PostgreSQL database, one Redis server and one Kafka topic.

  \<^bold>\<open>The program.\<close> A request passes the middleware and the router (\<^verbatim>\<open>internal/api\<close>): metrics, CORS, rate limits counted in Redis
  (\<^verbatim>\<open>internal/ratelimit\<close>), the access token; paying and cancelling hold a lock in Redis on the order (\<^verbatim>\<open>internal/distributedlock\<close>).
  A client registers and logs in (\<^verbatim>\<open>internal/service/auth_service.go\<close>), creates orders,
  pays and cancels them (\<^verbatim>\<open>internal/service/order_service.go\<close>). Creating and paying are idempotent by a key
  the client sends. Every change of an order is written together with an event for the outbox
  table in one transaction (\<^verbatim>\<open>internal/store\<close>). The publisher (\<^verbatim>\<open>internal/publisher\<close>) claims unpublished events,
  sends them to Kafka (\<^verbatim>\<open>internal/kafka/producer.go\<close>) and marks them. The consumer (\<^verbatim>\<open>internal/kafka/consumer.go\<close>,
  \<^verbatim>\<open>internal/consumer\<close>) reads them and records one notification per event. The processes read their configuration from
  the environment (\<^verbatim>\<open>internal/config\<close>), connect with retries (\<^verbatim>\<open>internal/appstart\<close>, \<^verbatim>\<open>internal/db\<close>, \<^verbatim>\<open>internal/cache\<close>) and are put
  together in \<^verbatim>\<open>cmd/*/main.go\<close>.

  \<^bold>\<open>The model.\<close> Operations are state-passing functions \<open>('z, 'a) io\<close> on a \<open>world\<close>: the tables, the Kafka
  topic, the metrics and the numbers of calls made so far; \<open>redis_world\<close> extends it by the keys of Redis and \<open>proc_world\<close> by the
  clients that are open, so an operation of a service runs in each of them. A handler of the API takes the request and the response
  so far and gives the response after it. An operation returns \<open>Inl e\<close> where
  the code returns the error \<open>e\<close>, and \<open>Inr x\<close> otherwise. Code that is not part of the repository
  (the driver, the UUID, bcrypt, SHA-256, JWT and Kafka libraries, the clocks) is the argument \<open>ext\<close> of the
  definitions, a record of functions, as are the faults and clock of Redis (\<open>redis_ext\<close>), the chi and Prometheus libraries (\<open>http_ext\<close>), the polls of
  Kafka (\<open>kafka_ext\<close>) and the libraries that connect (\<open>start_ext\<close>); every call reads its answer at the number of the call, so
  an environment may fail or change its mind at any call. What the code relies on is stated by
  the predicates \<open>uuid_laws\<close>, \<open>driver_laws\<close>, \<open>bcrypt_laws\<close>, \<open>jwt_laws\<close>, \<open>codec_laws\<close>, \<open>chi_laws\<close> and \<open>http_laws\<close>. A statement may fail before it has an
  effect (\<open>Failed\<close>) or after (\<open>Lost\<close>: the answer is lost); a commit may do either.

  \<^bold>\<open>The theories.\<close>
  \<^item> \<open>Prelude\<close>: errors, the monad and its rules, reachability, the locales \<open>invariant\<close>,
    \<open>layered_invariant\<close> and \<open>refinement\<close>, lists of rows.
  \<^item> \<open>Go_Strings\<close>, \<open>Json\<close>, \<open>Json_Roundtrip\<close>: what the code uses of \<^verbatim>\<open>strings\<close> and \<^verbatim>\<open>encoding/json\<close>, and that parsing undoes printing.
  \<^item> \<open>Models\<close>, \<open>Database\<close>, \<open>Queries\<close>, \<open>Store\<close>: the rows of \<^verbatim>\<open>sqlc/models.go\<close> and the constraints of
    \<^verbatim>\<open>migrations\<close>, statements and transactions, one \<open>sql_\<close> function per query of \<^verbatim>\<open>sqlc\<close>, one \<open>store_\<close> function per
    method of \<^verbatim>\<open>store.go\<close>. \<open>keyed_table\<close> is the interface of a table with a unique column.
  \<^item> \<open>Order_Service\<close>, \<open>Order_Refinement\<close>, \<open>Order_Invariants\<close>: the order service, its specification
    \<open>order_step\<close>, the proof that every operation is such a step or nothing, and what the steps keep
    (the schema, the ledger of payments, the completeness of the outbox and of the keys).
  \<^item> \<open>Auth\<close>: tokens, passwords and the auth service, with its specification \<open>auth_step\<close>.
  \<^item> \<open>Publisher\<close>, \<open>Consumer\<close>: a batch and the loop of the publisher, the record handler and the polling
    loop of the consumer, with the specifications \<open>publishes\<close> and \<open>consume_step\<close>. \<open>Message_Roundtrip\<close>: the messages one writes are
    those the other reads.
  \<^item> \<open>Frames\<close>: the interface \<open>frame\<close> of what the operations of the services leave alone (the topic, other metrics, open clients).
  \<^item> \<open>System\<close>: \<open>service_step\<close>, any operation of any process with any arguments; the invariants of the
    components over all its runs; the life cycle of an order as the abstract machine it refines. \<open>order_system\<close> is the interface of
    a system built from these operations; the services alone and the whole API are interpretations.
  \<^item> \<open>Redis\<close>, \<open>Distributed_Lock\<close>, \<open>Rate_Limit\<close>: commands on keys that expire, the lock (interface \<open>lock_table\<close>) and the fixed-window counter.
  \<^item> \<open>Http\<close>, \<open>Api\<close>, \<open>Router\<close>: requests, responses and JSON bodies; one definition per handler of \<^verbatim>\<open>auth_handler.go\<close> and
    \<^verbatim>\<open>order_handler.go\<close>; the middleware, the table of routes and \<open>ServeHTTP\<close>, which composes them as \<^verbatim>\<open>router.go\<close> does.
    \<open>Api_Contract\<close>: the interface \<open>http_handler\<close> (a handler answers, makes at most one change of the tables and sends no message), which
    every handler has and every middleware passes on.
  \<^item> \<open>Config\<close>, \<open>Startup\<close>: reading the configuration; connecting (interface \<open>connector\<close>), \<^verbatim>\<open>Retry\<close>, and the three \<^verbatim>\<open>main\<close> functions
    from the configuration to the exit code.
  \<^item> \<open>Example\<close>, \<open>Api_Example\<close>: an environment on which every hypothesis holds and runs in it, for the witnesses.
  \<^item> \<open>Order_Properties\<close>, \<open>Messaging_Properties\<close>, \<open>Redis_Properties\<close>, \<open>Api_Properties\<close>, \<open>Api_Results\<close>, \<open>Config\<close>, \<open>Process_Properties\<close> and
    this theory: the properties.

  \<^bold>\<open>What is shown.\<close> Over every run: an order is charged at most once and for its amount, its status
  follows the life cycle and a final status is final, every change is announced by exactly one
  event, every idempotency key stands for a result, published rows are on the topic, a processed
  event has one notification, a revoked session stays revoked. Per operation: the effect on every
  branch, that an error leaves the tables alone, idempotency, conflicts, refusals, and what a batch
  of the publisher and a turn of the consumer do. For the API: the guarantees about orders hold over every run of requests, whatever happens
  to Redis; protected routes need a token that is valid when it is checked; an error response means no change; a repeated request gets the same order;
  locks exclude, limits limit, and every response is counted once. For the processes: the configuration is within its bounds and its durations are
  what the environment says or their defaults, and the publisher, once its dependencies answer, empties the outbox and closes what it opened.

  \<^bold>\<open>Bounds.\<close> The polling loop takes the number of turns it may make; \<open>consumer_stops\<close> shows that one more
  than the number of looks at the context before it is done is enough. The publisher's loop takes
  the number of ticks. The JSON parser takes its nesting limit from \<^verbatim>\<open>encoding/json\<close> and the length of the text as
  fuel. \<^verbatim>\<open>Retry\<close> and \<^verbatim>\<open>ParseDuration\<close> terminate by a measure.

  \<^bold>\<open>Not modelled.\<close> The declarations of metrics (\<^verbatim>\<open>internal/metrics\<close>) and the server that shows them (\<^verbatim>\<open>internal/observability\<close>), which
  are calls of libraries, and log lines. Requests to the API are served one after the other; that two of them interleave is modelled where it
  matters, between the look at an idempotency key and the transaction (\<open>create_late\<close>, \<open>pay_late\<close>) and between clients of Redis.\<close>

section \<open>Guarantees over every run\<close>

text \<open>
  What holds in every state the system can get into, whatever requests are made, in whatever
  order the three processes take their steps, and whatever fails.
\<close>

lemma reachable_trans:
  assumes "step\<^sup>*\<^sup>* w w'" and "reachable init step w"
  shows "reachable init step w'"
  using assms by (induction rule: rtranclp_induct) (auto intro: reachable.step)

text \<open>
  C1: an order is charged once. In every reachable state an order has exactly one succeeded
  payment if its status is \<^verbatim>\<open>paid\<close> and none otherwise, every payment of it is over its amount, an
  order that is \<^verbatim>\<open>pending_payment\<close> has no payment, and one that is \<^verbatim>\<open>payment_failed\<close> has one.
\<close>

theorem paid_once:
  assumes "ext_laws E" and "reachable system_init (service_step E cfg) w"
    and "r \<in> set (tbl_orders (w_db w))"
  shows "length (succeeded (w_db w) (Order_ID r)) = (if Order_Status r = OrderStatusPaid then 1 else 0) \<and>
    (\<forall>p \<in> set (payments_of (w_db w) (Order_ID r)). Payment_AmountCents p = Order_AmountCents r) \<and>
    (Order_Status r = OrderStatusPendingPayment \<longrightarrow> payments_of (w_db w) (Order_ID r) = []) \<and>
    (Order_Status r = OrderStatusPaymentFailed \<longrightarrow> payments_of (w_db w) (Order_ID r) \<noteq> [])"
proof -
  have "ledger_row (w_db w) r"
    using services.reachable_ok(2) [OF assms(2,1)] assms(3) by (simp add: books_def ledger_def)
  then show ?thesis by (simp add: ledger_row_def)
qed

text \<open>
  C2: the order state machine. Seen through the status of each order, a run of the system is a run of
  \<open>lifecycle\<close>: an order starts as \<^verbatim>\<open>pending_payment\<close> and moves only from \<^verbatim>\<open>pending_payment\<close> or
  \<^verbatim>\<open>payment_failed\<close> to \<^verbatim>\<open>paid\<close>, \<^verbatim>\<open>payment_failed\<close> or \<^verbatim>\<open>cancelled\<close>.
\<close>

theorem order_lifecycle:
  assumes "ext_laws E" and "reachable system_init (service_step E cfg) w"
    and "(service_step E cfg)\<^sup>*\<^sup>* w w'"
  shows "lifecycle\<^sup>*\<^sup>* (status_map (w_db w)) (status_map (w_db w'))"
  by (rule services.steps_lifecycle [OF assms(3,1) services.reachable_ok(1) [OF assms(2,1)]])

text \<open>
  C3: nothing undoes a payment or a cancellation: once an order is \<^verbatim>\<open>paid\<close> or \<^verbatim>\<open>cancelled\<close> it stays so, and it
  keeps its owner, amount, currency and description.
\<close>

theorem final_status:
  assumes "ext_laws E" and "reachable system_init (service_step E cfg) w"
    and "(service_step E cfg)\<^sup>*\<^sup>* w w'" and r: "r \<in> set (tbl_orders (w_db w))"
    and "Order_Status r \<in> {OrderStatusPaid, OrderStatusCancelled}"
  shows "\<exists>r' \<in> set (tbl_orders (w_db w')). same_order r r' \<and> Order_Status r' = Order_Status r"
proof -
  have ok: "schema_ok (w_db w)" by (rule services.reachable_ok(1) [OF assms(2,1)])
  have ok': "schema_ok (w_db w')" by (rule services.reachable_ok(1) [OF reachable_trans [OF assms(3,2)] assms(1)])
  obtain r' where r': "r' \<in> set (tbl_orders (w_db w'))" "same_order r r'"
    using service_steps_grow [OF assms(3,1) ok] r by (auto simp: grows_def)
  have "status_map (w_db w) (Order_ID r) = Some (Order_Status r)"
    using status_map_mem [OF _ r] ok by (simp add: schema_ok_def)
  moreover have "lifecycle\<^sup>*\<^sup>* (status_map (w_db w)) (status_map (w_db w'))"
    by (rule services.steps_lifecycle [OF assms(3,1) ok])
  ultimately have "status_map (w_db w') (Order_ID r) = Some (Order_Status r)"
    using assms(5) by (blast intro: lifecycle_final)
  with status_map_mem [OF _ r'(1)] ok' r'(2) have "Order_Status r' = Order_Status r"
    by (simp add: schema_ok_def same_order_def)
  with r' show ?thesis by blast
qed

text \<open>
  C14: the outbox is complete. Every order has exactly one \<^verbatim>\<open>order.created\<close> event, one \<^verbatim>\<open>order.cancelled\<close> event if it is
  cancelled and none otherwise; every payment has exactly one event saying how it ended; and
  every event is about an order that exists, is partitioned by it and names its owner.
\<close>

theorem events_announced:
  assumes "ext_laws E" and "reachable system_init (service_step E cfg) w"
  shows "(\<forall>r \<in> set (tbl_orders (w_db w)). announced_order (w_db w) r) \<and>
    (\<forall>p \<in> set (tbl_payments (w_db w)). announced_payment (w_db w) p) \<and>
    (\<forall>e \<in> set (tbl_outbox_events (w_db w)). event_grounded E (w_db w) e)"
  using services.reachable_ok(2) [OF assms(2,1)] by (simp add: books_def outbox_complete_def)

text \<open>
  C15: an idempotency key always stands for a result. Every stored key refers to an order that exists
  with status 201 or a payment that exists with status 200: there is no key without its effect.
\<close>

theorem keys_stand_for_results:
  assumes "ext_laws E" and "reachable system_init (service_step E cfg) w"
    and "k \<in> set (tbl_idempotency_keys (w_db w))"
  shows "key_grounded (w_db w) k"
  using services.reachable_ok(2) [OF assms(2,1)] assms(3) by (simp add: books_def keys_complete_def)

text \<open>
  C16: at-least-once delivery. An outbox row that is marked published has its message on the topic, and
  the topic holds nothing but messages of outbox rows.
\<close>

theorem published_delivered:
  assumes "ext_laws E" and "reachable system_init (service_step E cfg) w"
  shows "(\<forall>e \<in> set (tbl_outbox_events (w_db w)). OutboxEvent_PublishedAt e \<noteq> None \<longrightarrow>
      event_message E (pub_Topic cfg) e \<in> set (w_log w)) \<and>
    set (w_log w) \<subseteq> event_message E (pub_Topic cfg) ` set (tbl_outbox_events (w_db w))"
  using services.reachable_ok(2) [OF assms(2,1)] by (simp add: books_def delivered_def)

text \<open>
  C19: exactly one notification per processed event. In every reachable state an event in
  \<^verbatim>\<open>processed_events\<close> has one row in \<^verbatim>\<open>notification_deliveries\<close>, and an event that is not there has none.
\<close>

theorem one_notification_per_event:
  assumes "ext_laws E" and "reachable system_init (service_step E cfg) w"
  shows "length (notified (w_db w) u) = (if processed (w_db w) u then 1 else 0)"
  by (rule notified_once)
    (use services.reachable_ok [OF assms(2,1)] in \<open>simp_all add: schema_ok_def books_def\<close>)

section \<open>Sessions over every run\<close>

text \<open>
  C25: a logout is final. After a successful \<^verbatim>\<open>Logout\<close> the refresh token never yields an access token again,
  whatever steps are taken in between.
\<close>

theorem logout_final:
  assumes "ext_laws E" and "schema_ok (w_db w)" and "Logout E token w = (Inr (), w1)"
    and "(service_step E cfg)\<^sup>*\<^sup>* w1 w2"
  shows "fst (RefreshAccessToken E s token w2) = Inl ErrInvalidRefreshToken"
proof -
  have keys: "keys_ok (w_db w)" and uuids: "uuid_laws E"
    using assms(1,2) by (simp_all add: schema_ok_def ext_laws_def)
  obtain t where t: "t \<in> set (tbl_refresh_tokens (w_db w1))"
    "RefreshToken_TokenHash t = HashRefreshToken E token" "RefreshToken_RevokedAt t \<noteq> None"
    by (rule Logout_revokes [OF assms(3) keys uuids])
  have "schema_ok (w_db w1)"
    using service_step_schema [OF service_step.logout [OF assms(3)] assms(1,2)] .
  from services.steps_sessions [OF assms(4,1) this] services.steps_schema [OF assms(4,1) this] t obtain t' where
    "t' \<in> set (tbl_refresh_tokens (w_db w2))" "same_session t t'" "keys_ok (w_db w2)"
    by (auto simp: sessions_grow_def schema_ok_def)
  with t show ?thesis by (intro refresh_revoked [of _ t']) (auto simp: same_session_def)
qed

section \<open>The guarantees on the run of the example\<close>

lemma ex_paid_orders: "tbl_orders (w_db ex_paid) = [set_status OrderStatusPaid 8 ex_order]"
  by (simp add: ex_paid_eq ex_created_eq ex_registered_eq ex_init_def empty_db_def add_payment_def
      add_created_def set_order_def update_where_def ex_payment_def ex_order_def)

lemma ex_created_orders: "tbl_orders (w_db ex_created) = [ex_order]"
  by (simp add: ex_created_eq ex_registered_eq ex_init_def empty_db_def add_created_def)

lemma ex_paid_payments: "tbl_payments (w_db ex_paid) = [ex_payment]"
  by (simp add: ex_paid_eq ex_created_eq ex_registered_eq ex_init_def empty_db_def add_payment_def
      add_created_def)

lemma ex_later:
  "(service_step ex_ext ex_cfg)\<^sup>*\<^sup>* ex_created ex_paid" "(service_step ex_ext ex_cfg)\<^sup>*\<^sup>* ex_paid ex_consumed"
proof -
  have "service_step ex_ext ex_cfg ex_created ex_paid" unfolding ex_paid_def
    by (rule service_step.pay) (rule prod.collapse [symmetric])
  moreover have "service_step ex_ext ex_cfg ex_paid ex_published" unfolding ex_published_def
    by (rule service_step.publish) (rule prod.collapse [symmetric])
  moreover have "service_step ex_ext ex_cfg ex_published ex_consumed" unfolding ex_consumed_def
    by (rule service_step.consume) (rule prod.collapse [symmetric])
  ultimately show "(service_step ex_ext ex_cfg)\<^sup>*\<^sup>* ex_created ex_paid"
    "(service_step ex_ext ex_cfg)\<^sup>*\<^sup>* ex_paid ex_consumed"
    by (blast intro: rtranclp.rtrancl_into_rtrancl)+
qed

theorem paid_once_witness:
  "set_status OrderStatusPaid 8 ex_order \<in> set (tbl_orders (w_db ex_paid)) \<and> length (succeeded (w_db ex_paid) 2) = 1"
  using paid_once [OF ex_laws(3) ex_reachable(4), of "set_status OrderStatusPaid 8 ex_order"]
  by (simp add: ex_paid_orders) (simp add: set_status_def ex_order_def)

theorem order_lifecycle_witness:
  "lifecycle\<^sup>*\<^sup>* (status_map (w_db ex_created)) (status_map (w_db ex_paid)) \<and>
    status_map (w_db ex_created) 2 = Some OrderStatusPendingPayment \<and>
    status_map (w_db ex_paid) 2 = Some OrderStatusPaid"
  using order_lifecycle [OF ex_laws(3) ex_reachable(3) ex_later(1)]
  by (simp add: status_map_def ex_created_orders ex_paid_orders) (simp add: set_status_def ex_order_def)

theorem final_status_witness:
  "\<exists>r' \<in> set (tbl_orders (w_db ex_consumed)). same_order (set_status OrderStatusPaid 8 ex_order) r' \<and>
    Order_Status r' = OrderStatusPaid"
  using final_status [OF ex_laws(3) ex_reachable(4) ex_later(2), of "set_status OrderStatusPaid 8 ex_order"]
  by (simp add: ex_paid_orders set_status_def)

theorem events_announced_witness:
  "announced_order (w_db ex_paid) (set_status OrderStatusPaid 8 ex_order) \<and> announced_payment (w_db ex_paid) ex_payment"
  using events_announced [OF ex_laws(3) ex_reachable(4)] by (simp add: ex_paid_orders ex_paid_payments)

theorem keys_stand_for_results_witness:
  "ex_paid_key \<in> set (tbl_idempotency_keys (w_db ex_paid)) \<and> key_grounded (w_db ex_paid) ex_paid_key"
proof -
  have "ex_paid_key \<in> set (tbl_idempotency_keys (w_db ex_paid))"
    by (simp add: ex_paid_eq add_payment_def)
  with keys_stand_for_results [OF ex_laws(3) ex_reachable(4) this] show ?thesis by simp
qed

theorem published_delivered_witness:
  "event_message ex_ext ''order.events'' (mark_published 15 ex_created_event) \<in> set (w_log ex_published) \<and>
    event_message ex_ext ''order.events'' (mark_published 15 ex_paid_event) \<in> set (w_log ex_published)"
  using published_delivered [OF ex_laws(3) ex_reachable(5)]
  by (simp add: ex_published_outbox ex_cfg_def)

theorem one_notification_per_event_witness:
  "length (notified (w_db ex_consumed) 6) = 1 \<and> processed (w_db ex_consumed) 6"
proof -
  obtain w' where w': "Handle ex_ext ''order.events'' ex_value ex_published = (Inr (), w')"
    "length (notified (w_db w') 6) = 1" by (rule ex_handled)
  have "ex_consumed = w'" unfolding ex_consumed_def ex_value_def [symmetric] w'(1) by simp
  with w'(2) have "length (notified (w_db ex_consumed) 6) = 1" by simp
  then show ?thesis
    unfolding one_notification_per_event [OF ex_laws(3) ex_reachable(6)] by (metis zero_neq_one)
qed

theorem logout_final_witness:
  "fst (RefreshAccessToken ex_ext ex_service ex_token (snd (Logout ex_ext ex_token ex_logged_in))) =
    Inl ErrInvalidRefreshToken"
proof -
  have "service_step ex_ext ex_cfg ex_registered ex_logged_in" unfolding ex_logged_in_def
    by (rule service_step.login) (rule prod.collapse [symmetric])
  then have ok: "schema_ok (w_db ex_logged_in)"
    using services.reachable_ok(1) [OF reachable.step [OF ex_reachable(2)]] by simp
  have "Logout ex_ext ex_token ex_logged_in = (Inr (), snd (Logout ex_ext ex_token ex_logged_in))"
    by (simp add: ex_logout_run)
  from logout_final [OF ex_laws(3) ok this rtranclp.rtrancl_refl] show ?thesis .
qed

end
